(* ===== verification/Prelude.thy ===== *)
theory Prelude
  imports Main "HOL-Library.Multiset" "HOL-Library.Word" "HOL-Library.Char_ord"
    "HOL-Library.List_Lexorder" "HOL-Library.Product_Lexorder"
begin

text \<open>
  Shared vocabulary of the development: results of fallible operations, the Rust integer
  operations the code relies on, ordered maps (\<open>BTreeMap\<close>) as sorted association lists behind an
  interface locale, and two generic locales for state machines: an invariant of a labelled
  transition system, and a forward simulation between two of them.
\<close>

named_theorems result_simps \<open>rewrite rules for the result combinators\<close>
named_theorems bt_simps \<open>rewrite rules for ordered maps\<close>

section \<open>Results\<close>

text \<open>\<open>anyhow::Result<T>\<close>: \<open>Inl\<close> carries the error, \<open>Inr\<close> the value; \<open>rbind\<close> is the \<open>?\<close> operator.\<close>

type_synonym ('e, 'a) result = "'e + 'a"

abbreviation Err :: "'e \<Rightarrow> ('e, 'a) result" where
  "Err \<equiv> Inl"

abbreviation Ok :: "'a \<Rightarrow> ('e, 'a) result" where
  "Ok \<equiv> Inr"

definition rbind :: "('e, 'a) result \<Rightarrow> ('a \<Rightarrow> ('e, 'b) result) \<Rightarrow> ('e, 'b) result" where
  "rbind r f = (case r of Inl e \<Rightarrow> Inl e | Inr x \<Rightarrow> f x)"

definition ok_or :: "'e \<Rightarrow> 'a option \<Rightarrow> ('e, 'a) result" where
  "ok_or e v = (case v of None \<Rightarrow> Err e | Some x \<Rightarrow> Ok x)"

definition ensure :: "bool \<Rightarrow> 'e \<Rightarrow> ('e, unit) result" where
  "ensure b e = (if b then Ok () else Err e)"

definition is_ok :: "('e, 'a) result \<Rightarrow> bool" where
  "is_ok r \<longleftrightarrow> (case r of Inl _ \<Rightarrow> False | Inr _ \<Rightarrow> True)"

definition map_err :: "('e \<Rightarrow> 'f) \<Rightarrow> ('e, 'a) result \<Rightarrow> ('f, 'a) result" where
  "map_err f r = (case r of Inl e \<Rightarrow> Inl (f e) | Inr x \<Rightarrow> Inr x)"

lemma rbind_simps [simp, result_simps]:
  "rbind (Inl e) f = Inl e" "rbind (Inr x) f = f x"
  by (simp_all add: rbind_def)

lemma ok_or_simps [simp, result_simps]:
  "ok_or e None = Inl e" "ok_or e (Some x) = Inr x"
  by (simp_all add: ok_or_def)

lemma ensure_simps [simp, result_simps]:
  "ensure True e = Inr ()" "ensure False e = Inl e"
  by (simp_all add: ensure_def)

lemma is_ok_simps [simp, result_simps]:
  "is_ok (Inr x)" "\<not> is_ok (Inl e)"
  by (simp_all add: is_ok_def)

lemma map_err_simps [simp, result_simps]:
  "map_err f (Inl e) = Inl (f e)" "map_err f (Inr x) = Inr x"
  by (simp_all add: map_err_def)

lemma rbind_eq_Inr:
  "rbind r f = Inr y \<longleftrightarrow> (\<exists>x. r = Inr x \<and> f x = Inr y)"
  by (cases r) simp_all

lemma rbind_eq_Inl:
  "rbind r f = Inl e \<longleftrightarrow> r = Inl e \<or> (\<exists>x. r = Inr x \<and> f x = Inl e)"
  by (cases r) simp_all

lemma ok_or_eq_Inr: "ok_or e v = Inr x \<longleftrightarrow> v = Some x"
  by (cases v) simp_all

lemma ok_or_eq_Inl: "ok_or e v = Inl d \<longleftrightarrow> v = None \<and> d = e"
  by (cases v) auto

lemma ensure_eq_Inr: "ensure b e = Inr u \<longleftrightarrow> b"
  by (cases b) simp_all

lemma ensure_eq_Inl: "ensure b e = Inl d \<longleftrightarrow> \<not> b \<and> d = e"
  by (cases b) auto

lemma map_err_eq_Inr: "map_err f r = Inr x \<longleftrightarrow> r = Inr x"
  by (cases r) simp_all

lemmas result_iffs =
  rbind_eq_Inr rbind_eq_Inl ok_or_eq_Inr ok_or_eq_Inl ensure_eq_Inr ensure_eq_Inl map_err_eq_Inr

section \<open>Stateful operations\<close>

text \<open>
  An operation that may fail after changing the state: the state it leaves behind is part of its
  result in both cases. \<open>transactional\<close> is a database transaction: an error rolls back.
\<close>

type_synonym ('s, 'e, 'a) op = "'s \<Rightarrow> ('e, 'a) result \<times> 's"

definition oreturn :: "'a \<Rightarrow> ('s, 'e, 'a) op" where
  "oreturn x s = (Ok x, s)"

definition ofail :: "'e \<Rightarrow> ('s, 'e, 'a) op" where
  "ofail e s = (Err e, s)"

definition olift :: "('e, 'a) result \<Rightarrow> ('s, 'e, 'a) op" where
  "olift r s = (r, s)"

definition omodify :: "('s \<Rightarrow> 's) \<Rightarrow> ('s, 'e, unit) op" where
  "omodify f s = (Ok (), f s)"

definition oget :: "('s \<Rightarrow> 'a) \<Rightarrow> ('s, 'e, 'a) op" where
  "oget f s = (Ok (f s), s)"

definition obind :: "('s, 'e, 'a) op \<Rightarrow> ('a \<Rightarrow> ('s, 'e, 'b) op) \<Rightarrow> ('s, 'e, 'b) op" where
  "obind m f s = (case m s of (Inl e, t) \<Rightarrow> (Inl e, t) | (Inr x, t) \<Rightarrow> f x t)"

fun oforeach :: "'x list \<Rightarrow> ('x \<Rightarrow> ('s, 'e, unit) op) \<Rightarrow> ('s, 'e, unit) op" where
  "oforeach [] f = oreturn ()"
| "oforeach (x # xs) f = obind (f x) (\<lambda>_. oforeach xs f)"

definition transactional :: "('s, 'e, 'a) op \<Rightarrow> ('s, 'e, 'a) op" where
  "transactional m s = (case m s of (Inl e, t) \<Rightarrow> (Inl e, s) | (Inr x, t) \<Rightarrow> (Inr x, t))"

lemmas op_defs [result_simps] =
  oreturn_def ofail_def olift_def omodify_def oget_def obind_def

lemma obind_eq_Ok:
  "obind m f s = (Inr y, u) \<longleftrightarrow> (\<exists>x t. m s = (Inr x, t) \<and> f x t = (Inr y, u))"
  by (auto simp: obind_def split: sum.splits prod.splits)

lemma transactional_Ok: "transactional m s = (Inr x, t) \<longleftrightarrow> m s = (Inr x, t)"
  by (auto simp: transactional_def split: sum.splits prod.splits)

lemma transactional_Err: "transactional m s = (Inl e, t) \<longleftrightarrow> t = s \<and> (\<exists>u. m s = (Inl e, u))"
  by (auto simp: transactional_def split: sum.splits prod.splits)

text \<open>An invariant of the state that each iteration keeps is kept by the loop, also when it fails.\<close>

lemma oforeach_invariant:
  assumes "\<And>x s. x \<in> set xs \<Longrightarrow> P s \<Longrightarrow> P (snd (f x s))" and "P s"
  shows "P (snd (oforeach xs f s))"
  using assms
proof (induction xs arbitrary: s)
  case (Cons x xs)
  obtain r t where rt: "f x s = (r, t)" by (cases "f x s")
  have "P (snd (f x s))" using Cons.prems by simp
  with rt have "P t" by simp
  then have "P (snd (oforeach xs f t))" using Cons.prems(1) by (intro Cons.IH) auto
  with \<open>P t\<close> show ?case by (cases r) (simp_all add: obind_def rt)
qed (simp add: oreturn_def)

text \<open>A loop that succeeds performed the update of every iteration, in order.\<close>

lemma oforeach_Ok_fold:
  assumes "\<And>x s s'. g x s = (Ok (), s') \<Longrightarrow> s' = h x s"
  shows "oforeach xs g s = (Ok (), s') \<Longrightarrow> s' = fold h xs s"
proof (induction xs arbitrary: s)
  case (Cons x xs)
  then obtain t where "g x s = (Ok (), t)" "oforeach xs g t = (Ok (), s')"
    by (auto simp: obind_eq_Ok)
  with Cons.IH assms show ?case by simp
qed (simp add: oreturn_def)

lemma oforeach_succeeds:
  assumes "\<And>x s. x \<in> set xs \<Longrightarrow> fst (f x s) = Ok ()"
  shows "fst (oforeach xs f s) = Ok ()"
  using assms
proof (induction xs arbitrary: s)
  case (Cons x xs)
  have "fst (f x s) = Ok ()" using Cons.prems by simp
  then obtain t where "f x s = (Ok (), t)" by (cases "f x s") auto
  with Cons show ?case by (simp add: obind_def)
qed (simp add: oreturn_def)

lemma obind_invariant:
  assumes "\<And>s. P s \<Longrightarrow> P (snd (m s))" and "\<And>x s. P s \<Longrightarrow> P (snd (f x s))" and "P s"
  shows "P (snd (obind m f s))"
  using assms(1) [OF assms(3)] assms(2)
  by (auto simp: obind_def split: sum.splits prod.splits)

text \<open>
  A ledger: an operation that enters one item, such that success enters exactly that item and failure
  at most that item. A loop over a list of items then enters a prefix of it.
\<close>

locale ledger =
  fixes enter :: "'x \<Rightarrow> ('s, 'e, unit) op"
    and key :: "'x \<Rightarrow> 'k"
    and entered :: "'s \<Rightarrow> 'k set"
  assumes enter_Ok: "enter x s = (Inr (), s') \<Longrightarrow> entered s' = insert (key x) (entered s)"
    and enter_Err: "enter x s = (Inl e, s') \<Longrightarrow>
      entered s \<subseteq> entered s' \<and> entered s' \<subseteq> insert (key x) (entered s)"
begin

lemma entered_all: "oforeach xs enter s = (Inr (), s') \<Longrightarrow> entered s' = entered s \<union> key ` set xs"
  by (induction xs arbitrary: s) (auto simp: obind_eq_Ok oreturn_def dest: enter_Ok)

lemma entered_prefix:
  "oforeach xs enter s = (Inl e, s') \<Longrightarrow>
   \<exists>ys x zs t. xs = ys @ x # zs \<and> oforeach ys enter s = (Inr (), t) \<and> enter x t = (Inl e, s') \<and>
     entered s \<union> key ` set ys \<subseteq> entered s' \<and> entered s' \<subseteq> entered s \<union> key ` set (ys @ [x])"
proof (induction xs arbitrary: s)
  case (Cons x xs)
  show ?case
  proof (cases "enter x s")
    case (Pair r t)
    show ?thesis
    proof (cases r)
      case (Inl d)
      with Pair Cons.prems have "enter x s = (Inl e, s')" by (simp add: obind_def)
      with enter_Err [OF this] show ?thesis
        by (intro exI [of _ "[]"] exI [of _ x] exI [of _ xs] exI [of _ s]) (auto simp: oreturn_def)
    next
      case (Inr u)
      with Pair Cons.prems have t: "enter x s = (Inr (), t)" "oforeach xs enter t = (Inl e, s')"
        by (simp_all add: obind_def)
      from Cons.IH [OF t(2)] obtain ys y zs u where
        "xs = ys @ y # zs" "oforeach ys enter t = (Inr (), u)" "enter y u = (Inl e, s')"
        "entered t \<union> key ` set ys \<subseteq> entered s'" "entered s' \<subseteq> entered t \<union> key ` set (ys @ [y])"
        by blast
      with t(1) enter_Ok [OF t(1)] show ?thesis
        by (intro exI [of _ "x # ys"] exI [of _ y] exI [of _ zs] exI [of _ u]) (auto simp: obind_def)
    qed
  qed
qed (simp add: oreturn_def)

end

section \<open>Rust integers\<close>

text \<open>
  \<open>usize\<close> and \<open>u64\<close> counters are natural numbers; the 64-bit bound is written out where the code
  saturates. \<open>u64\<close> values whose wrap-around the code uses are 64-bit words.
\<close>

type_synonym u64 = "64 word"

definition usize_max :: nat where
  "usize_max = 2 ^ 64 - 1"

definition saturating_add :: "nat \<Rightarrow> nat \<Rightarrow> nat" where
  "saturating_add a b = min (a + b) usize_max"

lemma saturating_add_exact: "a + b \<le> usize_max \<Longrightarrow> saturating_add a b = a + b"
  by (simp add: saturating_add_def)

lemma saturating_add_le: "saturating_add a b \<le> usize_max"
  by (simp add: saturating_add_def)

lemma saturating_add_mono: "a \<le> usize_max \<Longrightarrow> a \<le> saturating_add a b"
  by (simp add: saturating_add_def)

text \<open>\<open>Vec::swap\<close>: panics (here \<open>None\<close>) when an index is out of range.\<close>

definition vec_swap :: "'a list \<Rightarrow> nat \<Rightarrow> nat \<Rightarrow> 'a list option" where
  "vec_swap xs i j =
     (if i < length xs \<and> j < length xs then Some (xs[i := xs ! j, j := xs ! i]) else None)"

lemma vec_swap_Some:
  "i < length xs \<Longrightarrow> j < length xs \<Longrightarrow>
   \<exists>ys. vec_swap xs i j = Some ys \<and> mset ys = mset xs \<and> length ys = length xs"
  by (simp add: vec_swap_def mset_swap)

lemma Max_insert_max:
  "finite S \<Longrightarrow> Max (Set.insert (max a b) S) = Max (Set.insert a (Set.insert b S))"
  for a :: "'a::linorder"
  by (cases "S = {}") (simp_all add: max.assoc)

section \<open>Decimal numerals and byte strings\<close>

text \<open>The \<open>Display\<close> of an unsigned integer: its decimal digits, most significant first.\<close>

fun show_nat :: "nat \<Rightarrow> string" where
  "show_nat n =
     (if n < 10 then [char_of (48 + n)] else show_nat (n div 10) @ [char_of (48 + n mod 10)])"

declare show_nat.simps [simp del]

definition digit_value :: "char \<Rightarrow> nat" where
  "digit_value c = of_char c - 48"

definition is_ascii_digit :: "char \<Rightarrow> bool" where
  "is_ascii_digit c \<longleftrightarrow> 48 \<le> (of_char c :: nat) \<and> (of_char c :: nat) \<le> 57"

definition digits_value :: "string \<Rightarrow> nat" where
  "digits_value s = foldl (\<lambda>acc c. acc * 10 + digit_value c) 0 s"

lemma digits_value_snoc: "digits_value (s @ [c]) = digits_value s * 10 + digit_value c"
  by (simp add: digits_value_def)

lemma digit_char [simp]:
  "d < 10 \<Longrightarrow> digit_value (char_of (48 + d)) = d" "d < 10 \<Longrightarrow> is_ascii_digit (char_of (48 + d))"
  by (simp_all add: digit_value_def is_ascii_digit_def of_char_of)

lemma digits_value_show_nat: "digits_value (show_nat n) = n"
proof (induction n rule: show_nat.induct)
  case (1 n)
  show ?case
  proof (cases "n < 10")
    case True
    then show ?thesis by (simp add: show_nat.simps [of n] digits_value_def)
  next
    case False
    with "1.IH" have "digits_value (show_nat (n div 10)) = n div 10" by simp
    with False show ?thesis
      by (simp add: show_nat.simps [of n] digits_value_snoc)
  qed
qed

lemma show_nat_digits: "c \<in> set (show_nat n) \<Longrightarrow> is_ascii_digit c"
proof (induction n rule: show_nat.induct)
  case (1 n)
  then show ?case
    by (cases "n < 10") (auto simp: show_nat.simps [of n])
qed

lemma show_nat_inject [simp]: "show_nat m = show_nat n \<longleftrightarrow> m = n"
  by (metis digits_value_show_nat)

lemma show_nat_nonempty [simp]: "show_nat n \<noteq> []"
  by (subst show_nat.simps) simp

text \<open>\<open>str::parse::<u64>\<close> and \<open>::<usize>\<close>: an optional plus sign, then at least one digit and
  nothing else, in range.\<close>

definition parse_u64 :: "string \<Rightarrow> nat option" where
  "parse_u64 s =
     (let ds = (case s of [] \<Rightarrow> [] | c # cs \<Rightarrow> if c = CHR ''+'' then cs else s) in
      if ds \<noteq> [] \<and> list_all is_ascii_digit ds \<and> digits_value ds \<le> usize_max
      then Some (digits_value ds) else None)"

lemma parse_u64_show_nat: "n \<le> usize_max \<Longrightarrow> parse_u64 (show_nat n) = Some n"
proof -
  assume n: "n \<le> usize_max"
  obtain c cs where s: "show_nat n = c # cs" by (cases "show_nat n") simp_all
  then have "is_ascii_digit c" using show_nat_digits [of c n] by simp
  then have "c \<noteq> CHR ''+''" by (auto simp: is_ascii_digit_def)
  then show ?thesis
    using n digits_value_show_nat [of n] show_nat_digits [of _ n]
    by (simp add: parse_u64_def s list_all_iff)
qed

text \<open>
  Strings are byte strings. \<open>str::trim\<close> removes white space at both ends; the model knows the
  ASCII white space of Rust's \<open>char::is_whitespace\<close> (tab, line feed, vertical tab, form feed,
  carriage return and space).
\<close>

definition is_whitespace :: "char \<Rightarrow> bool" where
  "is_whitespace c \<longleftrightarrow>
     (9 \<le> (of_char c :: nat) \<and> (of_char c :: nat) \<le> 13) \<or> (of_char c :: nat) = 32"

definition trim_start :: "string \<Rightarrow> string" where
  "trim_start s = dropWhile is_whitespace s"

definition trim :: "string \<Rightarrow> string" where
  "trim s = rev (dropWhile is_whitespace (rev (dropWhile is_whitespace s)))"

lemma trim_Nil [simp]: "trim [] = []"
  by (simp add: trim_def)

lemma trim_eq_Nil_iff: "trim s = [] \<longleftrightarrow> (\<forall>c \<in> set s. is_whitespace c)"
proof -
  have "trim s = [] \<longleftrightarrow> (\<forall>c \<in> set (dropWhile is_whitespace s). is_whitespace c)"
    by (simp add: trim_def)
  also have "\<dots> \<longleftrightarrow> (\<forall>c \<in> set s. is_whitespace c)"
    by (induction s) auto
  finally show ?thesis .
qed

lemma trim_show_nat [simp]: "trim (show_nat n) = show_nat n"
proof -
  have d: "\<And>c. c \<in> set (show_nat n) \<Longrightarrow> \<not> is_whitespace c"
    using show_nat_digits by (fastforce simp: is_ascii_digit_def is_whitespace_def)
  then have "dropWhile is_whitespace (show_nat n) = show_nat n"
    "dropWhile is_whitespace (rev (show_nat n)) = rev (show_nat n)"
    by (simp_all add: dropWhile_eq_self_iff hd_rev)
  then show ?thesis by (simp add: trim_def)
qed

text \<open>\<open>str::strip_prefix\<close>.\<close>

definition strip_prefix :: "string \<Rightarrow> string \<Rightarrow> string option" where
  "strip_prefix p s = (if take (length p) s = p then Some (drop (length p) s) else None)"

lemma strip_prefix_append [simp]: "strip_prefix p (p @ s) = Some s"
  by (simp add: strip_prefix_def)

lemma strip_prefix_Some_iff: "strip_prefix p s = Some r \<longleftrightarrow> s = p @ r"
  by (auto simp: strip_prefix_def) (metis append_take_drop_id)

text \<open>\<open>str::split\<close> with a character: the pieces between separators, at least one.\<close>

fun split_on :: "char \<Rightarrow> string \<Rightarrow> string list" where
  "split_on sep [] = [[]]"
| "split_on sep (c # cs) =
     (if c = sep then [] # split_on sep cs
      else case split_on sep cs of [] \<Rightarrow> [[c]] | t # ts \<Rightarrow> (c # t) # ts)"

lemma split_on_nonempty [simp]: "split_on sep s \<noteq> []"
  by (induction s) (auto split: list.splits)

lemma split_on_plain: "sep \<notin> set s \<Longrightarrow> split_on sep s = [s]"
  by (induction s) auto

lemma split_on_append: "sep \<notin> set s \<Longrightarrow> split_on sep (s @ sep # r) = s # split_on sep r"
  by (induction s) auto

lemma split_on_no_sep: "t \<in> set (split_on sep s) \<Longrightarrow> sep \<notin> set t"
  by (induction s arbitrary: t) (auto split: list.splits if_splits)

section \<open>Ordered maps\<close>

text \<open>The contract of \<open>BTreeMap\<close> the clients use: lookups after an update, and iteration in key order.\<close>

locale ordered_map =
  fixes get :: "'m \<Rightarrow> 'k::linorder \<Rightarrow> 'v option"
    and insert :: "'k \<Rightarrow> 'v \<Rightarrow> 'm \<Rightarrow> 'm"
    and remove :: "'k \<Rightarrow> 'm \<Rightarrow> 'm"
    and keys :: "'m \<Rightarrow> 'k list"
    and empty :: 'm
    and wf :: "'m \<Rightarrow> bool"
  assumes get_empty: "get empty k = None"
    and get_insert: "get (insert k v m) = (get m)(k \<mapsto> v)"
    and get_remove: "get (remove k m) = (get m)(k := None)"
    and set_keys: "set (keys m) = dom (get m)"
    and sorted_keys: "wf m \<Longrightarrow> sorted (keys m) \<and> distinct (keys m)"
    and wf_empty: "wf empty"
    and wf_insert: "wf m \<Longrightarrow> wf (insert k v m)"
    and wf_remove: "wf m \<Longrightarrow> wf (remove k m)"
begin

text \<open>A map built by inserting from a list: later entries win.\<close>

lemma wf_fold_insert: "wf m \<Longrightarrow> wf (fold (\<lambda>x. insert (f x) (g x)) xs m)"
  by (induction xs arbitrary: m) (simp_all add: wf_insert)

lemma get_fold_insert_notin:
  "k \<notin> f ` set xs \<Longrightarrow> get (fold (\<lambda>x. insert (f x) (g x)) xs m) k = get m k"
  by (induction xs arbitrary: m) (auto simp: get_insert)

lemma dom_fold_insert: "dom (get (fold (\<lambda>x. insert (f x) (g x)) xs m)) = f ` set xs \<union> dom (get m)"
  by (induction xs arbitrary: m) (auto simp: get_insert)

lemma get_fold_insert_Some:
  "get (fold (\<lambda>x. insert (f x) (g x)) xs m) k = Some v \<Longrightarrow>
   get m k = Some v \<or> (\<exists>x \<in> set xs. f x = k \<and> g x = v)"
proof (induction xs arbitrary: m)
  case (Cons x xs)
  then have "get (insert (f x) (g x) m) k = Some v \<or> (\<exists>x \<in> set xs. f x = k \<and> g x = v)"
    by simp
  then show ?case
    by (cases "k = f x") (auto simp: get_insert)
qed simp

lemma keys_eq_sorted_list_of_set:
  assumes "wf m"
  shows "keys m = sorted_list_of_set (dom (get m))"
proof -
  have "sorted_list_of_set (set (keys m)) = keys m"
    using sorted_keys [OF assms] sorted_distinct_set_unique [of "keys m" "sorted_list_of_set (set (keys m))"]
    by simp
  then show ?thesis by (simp add: set_keys)
qed

end

type_synonym ('k, 'v) btree = "('k \<times> 'v) list"

fun bt_insert :: "'k::linorder \<Rightarrow> 'v \<Rightarrow> ('k, 'v) btree \<Rightarrow> ('k, 'v) btree" where
  "bt_insert k v [] = [(k, v)]"
| "bt_insert k v ((k', v') # m) =
     (if k < k' then (k, v) # (k', v') # m
      else if k = k' then (k, v) # m
      else (k', v') # bt_insert k v m)"

definition bt_remove :: "'k::linorder \<Rightarrow> ('k, 'v) btree \<Rightarrow> ('k, 'v) btree" where
  "bt_remove k m = filter (\<lambda>p. fst p \<noteq> k) m"

definition bt_get :: "('k, 'v) btree \<Rightarrow> 'k \<Rightarrow> 'v option" where
  "bt_get m k = map_of m k"

definition bt_keys :: "('k, 'v) btree \<Rightarrow> 'k list" where
  "bt_keys m = map fst m"

definition bt_wf :: "('k::linorder, 'v) btree \<Rightarrow> bool" where
  "bt_wf m \<longleftrightarrow> sorted_wrt (<) (map fst m)"

lemma bt_get_Nil [simp, bt_simps]: "bt_get [] = Map.empty"
  by (rule ext) (simp add: bt_get_def)

lemma bt_get_insert [simp, bt_simps]: "bt_get (bt_insert k v m) = (bt_get m)(k \<mapsto> v)"
  by (induction k v m rule: bt_insert.induct) (auto simp: bt_get_def)

lemma bt_get_remove [simp, bt_simps]: "bt_get (bt_remove k m) = (bt_get m)(k := None)"
  by (rule ext, induction m) (auto simp: bt_get_def bt_remove_def)

lemma fst_set_bt_insert: "fst ` set (bt_insert k v m) = Set.insert k (fst ` set m)"
  by (induction k v m rule: bt_insert.induct) auto

lemma bt_wf_Nil [simp]: "bt_wf []"
  by (simp add: bt_wf_def)

lemma bt_wf_insert [simp, intro]: "bt_wf m \<Longrightarrow> bt_wf (bt_insert k v m)"
proof (induction k v m rule: bt_insert.induct)
  case (2 k v k' v' m)
  then have IH: "\<not> k < k' \<Longrightarrow> k \<noteq> k' \<Longrightarrow> bt_wf (bt_insert k v m)"
    by (simp add: bt_wf_def)
  have "\<forall>x \<in> fst ` set (bt_insert k v m). k' < x" if "\<not> k < k'" "k \<noteq> k'"
    using 2 that by (auto simp: fst_set_bt_insert bt_wf_def)
  with 2 IH show ?case by (auto simp: bt_wf_def)
qed (simp add: bt_wf_def)

lemma bt_wf_remove [simp, intro]: "bt_wf m \<Longrightarrow> bt_wf (bt_remove k m)"
  by (induction m) (auto simp: bt_wf_def bt_remove_def)

lemma set_bt_keys: "set (bt_keys m) = dom (bt_get m)"
proof -
  have "bt_get m = map_of m" by (rule ext) (simp add: bt_get_def)
  then show ?thesis by (simp add: bt_keys_def dom_map_of_conv_image_fst)
qed

lemma bt_keys_sorted: "bt_wf m \<Longrightarrow> sorted (bt_keys m) \<and> distinct (bt_keys m)"
  by (simp add: bt_wf_def bt_keys_def strict_sorted_iff)

lemma bt_list_of_get:
  assumes "bt_wf m"
  shows "m = map (\<lambda>k. (k, the (bt_get m k))) (sorted_list_of_set (dom (bt_get m)))"
proof -
  have keys: "sorted_list_of_set (dom (bt_get m)) = map fst m"
    using bt_keys_sorted [OF assms] sorted_list_of_set.idem_if_sorted_distinct [of "map fst m"]
    by (simp add: bt_keys_def set_bt_keys [symmetric])
  have "the (bt_get m (fst p)) = snd p" if "p \<in> set m" for p
    using assms that by (cases p) (simp add: bt_get_def bt_wf_def strict_sorted_iff)
  then show ?thesis by (simp add: keys map_idI)
qed

lemma bt_eqI:
  assumes "bt_wf m" "bt_wf m'" "bt_get m = bt_get m'"
  shows "m = m'"
  using bt_list_of_get [OF assms(1)] bt_list_of_get [OF assms(2)] by (simp only: assms(3))

lemma map_of_distinct_map:
  assumes "distinct (map f xs)"
  shows "map_of (map (\<lambda>x. (f x, g x)) xs) k = (if k \<in> f ` set xs then Some (g (the_inv_into (set xs) f k)) else None)"
proof -
  have inj: "inj_on f (set xs)" using assms by (simp add: distinct_map)
  have "map_of (map (\<lambda>x. (f x, g x)) xs) (f x) = Some (g x)" if "x \<in> set xs" for x
    using assms that by (simp add: map_of_eq_Some_iff comp_def)
  then show ?thesis
    by (auto simp: the_inv_into_f_f [OF inj] map_of_eq_None_iff comp_def image_image)
qed

lemma bt_get_map: "distinct (map f xs) \<Longrightarrow> x \<in> set xs \<Longrightarrow> bt_get (map (\<lambda>x. (f x, g x)) xs) (f x) = Some (g x)"
  by (auto simp: bt_get_def map_of_eq_Some_iff comp_def)

text \<open>Inserting the entries of a list with distinct keys sorts it by key.\<close>

lemma fold_bt_insert_sort:
  assumes "distinct (map f xs)"
  shows "fold (\<lambda>x. bt_insert (f x) (g x)) xs [] = map (\<lambda>x. (f x, g x)) (sort_key f xs)"
proof (rule bt_eqI)
  have wf: "bt_wf (fold (\<lambda>x. bt_insert (f x) (g x)) xs m)" if "bt_wf m" for m
    using that by (induction xs arbitrary: m) auto
  then show "bt_wf (fold (\<lambda>x. bt_insert (f x) (g x)) xs [])" by simp
  have d: "distinct (map f (sort_key f xs))" using assms by (simp add: distinct_map)
  then show "bt_wf (map (\<lambda>x. (f x, g x)) (sort_key f xs))"
    by (simp add: bt_wf_def strict_sorted_iff comp_def)
  have get: "bt_get (fold (\<lambda>x. bt_insert (f x) (g x)) ys m) k =
      (case map_of (rev (map (\<lambda>x. (f x, g x)) ys)) k of None \<Rightarrow> bt_get m k | Some v \<Rightarrow> Some v)" for ys m k
    by (induction ys arbitrary: m) (auto split: option.split simp: map_add_def)
  have rd: "distinct (map f (rev xs))" using assms by (simp add: rev_map [symmetric])
  have same: "map_of (rev (map (\<lambda>x. (f x, g x)) xs)) k = map_of (map (\<lambda>x. (f x, g x)) (sort_key f xs)) k" for k
    using map_of_distinct_map [OF rd, of g k] map_of_distinct_map [OF d, of g k] by (simp add: rev_map)
  show "bt_get (fold (\<lambda>x. bt_insert (f x) (g x)) xs []) = bt_get (map (\<lambda>x. (f x, g x)) (sort_key f xs))"
    by (rule ext) (simp add: get [of xs "[]"] same split: option.split, simp add: bt_get_def)
qed

interpretation bt: ordered_map bt_get bt_insert bt_remove bt_keys "[]" bt_wf
  by unfold_locales (simp_all add: set_bt_keys bt_keys_sorted)

section \<open>State machines\<close>

text \<open>
  A labelled transition system with an initial predicate; \<open>reachable\<close> is the least set of states
  that holds the initial ones and is closed under steps. A property kept by every step holds in
  every reachable state.
\<close>

inductive reachable :: "('s \<Rightarrow> bool) \<Rightarrow> ('s \<Rightarrow> 'l \<Rightarrow> 's \<Rightarrow> bool) \<Rightarrow> 's \<Rightarrow> bool"
  for init :: "'s \<Rightarrow> bool" and step :: "'s \<Rightarrow> 'l \<Rightarrow> 's \<Rightarrow> bool" where
  reach_init: "init s \<Longrightarrow> reachable init step s"
| reach_step: "reachable init step s \<Longrightarrow> step s l t \<Longrightarrow> reachable init step t"

inductive path :: "('s \<Rightarrow> 'l \<Rightarrow> 's \<Rightarrow> bool) \<Rightarrow> 's \<Rightarrow> 'l list \<Rightarrow> 's \<Rightarrow> bool"
  for step :: "'s \<Rightarrow> 'l \<Rightarrow> 's \<Rightarrow> bool" where
  path_nil: "path step s [] s"
| path_cons: "step s l t \<Longrightarrow> path step t ls u \<Longrightarrow> path step s (l # ls) u"

inductive_cases path_nilE [elim!]: "path step s [] t"
inductive_cases path_consE [elim]: "path step s (l # ls) t"

locale invariant_system =
  fixes init :: "'s \<Rightarrow> bool"
    and step :: "'s \<Rightarrow> 'l \<Rightarrow> 's \<Rightarrow> bool"
    and inv :: "'s \<Rightarrow> bool"
  assumes inv_init: "init s \<Longrightarrow> inv s"
    and inv_step: "inv s \<Longrightarrow> step s l t \<Longrightarrow> inv t"
begin

lemma reachable_inv: "reachable init step s \<Longrightarrow> inv s"
  by (induction rule: reachable.induct) (auto intro: inv_init inv_step)

lemma path_inv: "path step s ls t \<Longrightarrow> inv s \<Longrightarrow> inv t"
  by (induction rule: path.induct) (auto intro: inv_step)

end

text \<open>
  A forward simulation: \<open>abs\<close> maps concrete to abstract states and \<open>lab\<close> a concrete step to the
  abstract steps it performs (none for a step the abstraction does not see).
\<close>

locale simulation = invariant_system init step inv
  for init :: "'s \<Rightarrow> bool" and step :: "'s \<Rightarrow> 'l \<Rightarrow> 's \<Rightarrow> bool" and inv :: "'s \<Rightarrow> bool" +
  fixes abs :: "'s \<Rightarrow> 'a"
    and ainit :: "'a \<Rightarrow> bool"
    and astep :: "'a \<Rightarrow> 'm \<Rightarrow> 'a \<Rightarrow> bool"
  assumes sim_init: "init s \<Longrightarrow> ainit (abs s)"
    and sim_step: "inv s \<Longrightarrow> step s l t \<Longrightarrow> abs t = abs s \<or> (\<exists>m. astep (abs s) m (abs t))"
begin

lemma sim_reachable: "reachable init step s \<Longrightarrow> reachable ainit astep (abs s)"
proof (induction rule: reachable.induct)
  case (reach_init s)
  then show ?case by (intro reachable.reach_init sim_init)
next
  case (reach_step s l t)
  then show ?case
    using sim_step [OF reachable_inv [OF reach_step.hyps(1)] reach_step.hyps(2)]
    by (metis reachable.reach_step)
qed

end

end
