(* ===== verification/Json.thy ===== *)
theory Json
  imports Prelude
begin

text \<open>
  JSON values as the code sees them (\<open>serde_json::Value\<close>, whose objects are ordered maps), and
  the canonical rendering and digests of \<open>lab-core/src/lib.rs\<close>. The number and string printers of
  \<open>serde_json\<close> and the SHA-256 function are parameters of the definitions that use them.
\<close>

section \<open>Values\<close>

datatype json_number = PosInt nat | NegInt int | Float u64

datatype json =
    JNull
  | JBool bool
  | JNumber json_number
  | JString string
  | JArray "json list"
  | JObject "(string \<times> json) list"

fun as_str :: "json \<Rightarrow> string option" where
  "as_str (JString s) = Some s"
| "as_str _ = None"

fun as_u64 :: "json \<Rightarrow> nat option" where
  "as_u64 (JNumber (PosInt n)) = Some n"
| "as_u64 _ = None"

fun as_bool :: "json \<Rightarrow> bool option" where
  "as_bool (JBool b) = Some b"
| "as_bool _ = None"

fun as_array :: "json \<Rightarrow> json list option" where
  "as_array (JArray xs) = Some xs"
| "as_array _ = None"

fun as_object :: "json \<Rightarrow> (string, json) btree option" where
  "as_object (JObject m) = Some m"
| "as_object _ = None"

text \<open>\<open>Value::get\<close> with a string key.\<close>

fun json_get :: "string \<Rightarrow> json \<Rightarrow> json option" where
  "json_get k (JObject m) = bt_get m k"
| "json_get k _ = None"

abbreviation jnat :: "nat \<Rightarrow> json" where
  "jnat n \<equiv> JNumber (PosInt n)"

text \<open>The \<open>json!\<close> macro and derived serialisers build objects by insertion.\<close>

definition json_object :: "(string \<times> json) list \<Rightarrow> json" where
  "json_object fields = JObject (fold (\<lambda>field. bt_insert (fst field) (snd field)) fields [])"

text \<open>
  \<open>Value::pointer\<close> is a parameter \<open>pointer\<close> of the operations that use it. What they rely on: a
  pointer of one plain token looks the token up, one of two plain tokens looks it up twice.
\<close>

type_synonym json_pointer = "json \<Rightarrow> string \<Rightarrow> json option"

definition plain_token :: "string \<Rightarrow> bool" where
  "plain_token k \<longleftrightarrow> CHR ''/'' \<notin> set k \<and> CHR ''~'' \<notin> set k"

definition pointer_laws :: "json_pointer \<Rightarrow> bool" where
  "pointer_laws pointer \<longleftrightarrow>
     (\<forall>m k. plain_token k \<longrightarrow> pointer (JObject m) (CHR ''/'' # k) = bt_get m k) \<and>
     (\<forall>m k l. plain_token k \<longrightarrow> plain_token l \<longrightarrow>
        pointer (JObject m) (CHR ''/'' # k @ CHR ''/'' # l) =
        (case bt_get m k of None \<Rightarrow> None | Some v \<Rightarrow> pointer v (CHR ''/'' # l)))"

section \<open>Canonical rendering\<close>

fun join_comma :: "string list \<Rightarrow> string" where
  "join_comma [] = []"
| "join_comma [x] = x"
| "join_comma (x # xs) = x @ CHR '','' # join_comma xs"

fun show_number :: "(u64 \<Rightarrow> string) \<Rightarrow> json_number \<Rightarrow> string" where
  "show_number show_float (PosInt n) = show_nat n"
| "show_number show_float (NegInt i) = CHR ''-'' # show_nat (nat (- i))"
| "show_number show_float (Float w) = show_float w"

text \<open>
  The object case renders each entry and then walks the sorted keys, looking each one up.
\<close>

fun canonical_json :: "(string \<Rightarrow> string) \<Rightarrow> (u64 \<Rightarrow> string) \<Rightarrow> json \<Rightarrow> string" where
  "canonical_json quote show_float JNull = ''null''"
| "canonical_json quote show_float (JBool b) = (if b then ''true'' else ''false'')"
| "canonical_json quote show_float (JNumber n) = show_number show_float n"
| "canonical_json quote show_float (JString s) = quote s"
| "canonical_json quote show_float (JArray xs) =
     CHR ''['' # join_comma (map (canonical_json quote show_float) xs) @ [CHR '']'']"
| "canonical_json quote show_float (JObject m) =
     (let rendered = map (\<lambda>(k, v). (k, canonical_json quote show_float v)) m;
          keys = sort (map fst m)
      in CHR ''{'' #
         join_comma (map (\<lambda>k. quote k @ CHR '':'' # the (map_of rendered k)) keys) @ [CHR ''}''])"

definition sha256_bytes :: "(string \<Rightarrow> string) \<Rightarrow> string \<Rightarrow> string" where
  "sha256_bytes sha256_hex bytes = ''sha256:'' @ sha256_hex bytes"

definition canonical_json_digest ::
  "(string \<Rightarrow> string) \<Rightarrow> (string \<Rightarrow> string) \<Rightarrow> (u64 \<Rightarrow> string) \<Rightarrow> json \<Rightarrow> string" where
  "canonical_json_digest sha256_hex quote show_float value =
     sha256_bytes sha256_hex (canonical_json quote show_float value)"

definition hashchain :: "(string \<Rightarrow> string) \<Rightarrow> string option \<Rightarrow> string \<Rightarrow> string" where
  "hashchain sha256_hex prev line =
     ''sha256:'' @ sha256_hex ((case prev of None \<Rightarrow> [] | Some p \<Rightarrow> p) @ line)"

section \<open>The artifact store\<close>

text \<open>
  Content-addressed blobs: the directory tree \<open>sha256/<hex>/blob\<close> under the root is a map from
  digests to contents.
\<close>

datatype artifact_error = InvalidArtifactRef | InvalidArtifactDigest | BlobNotFound

definition is_ascii_hexdigit :: "char \<Rightarrow> bool" where
  "is_ascii_hexdigit c \<longleftrightarrow>
     is_ascii_digit c \<or> (97 \<le> (of_char c :: nat) \<and> (of_char c :: nat) \<le> 102) \<or>
     (65 \<le> (of_char c :: nat) \<and> (of_char c :: nat) \<le> 70)"

definition artifact_prefix :: string where
  "artifact_prefix = ''artifact://sha256/''"

definition parse_artifact_sha256_ref :: "string \<Rightarrow> (artifact_error, string) result" where
  "parse_artifact_sha256_ref artifact_ref =
     rbind (ok_or InvalidArtifactRef (strip_prefix artifact_prefix artifact_ref)) (\<lambda>hex.
     if length hex \<noteq> 64 \<or> \<not> list_all is_ascii_hexdigit hex then Err InvalidArtifactDigest
     else Ok hex)"

definition put_bytes ::
  "(string \<Rightarrow> string) \<Rightarrow> string \<Rightarrow> (string \<rightharpoonup> string) \<Rightarrow> string \<times> (string \<rightharpoonup> string)" where
  "put_bytes sha256_hex bytes store =
     (let hex = the (strip_prefix ''sha256:'' (sha256_bytes sha256_hex bytes));
          store = (if store hex = None then store(hex \<mapsto> bytes) else store)
      in (artifact_prefix @ hex, store))"

definition read_ref ::
  "string \<Rightarrow> (string \<rightharpoonup> string) \<Rightarrow> (artifact_error, string) result" where
  "read_ref artifact_ref store =
     rbind (parse_artifact_sha256_ref artifact_ref) (\<lambda>hex. ok_or BlobNotFound (store hex))"

section \<open>Injectivity of the canonical rendering\<close>

text \<open>What the rendering relies on: quoted strings are self-delimiting and open with a quotation
  mark; a printed float is built from number characters, is no integer and determines the float.\<close>

definition finite_float :: "u64 \<Rightarrow> bool" where
  "finite_float w \<longleftrightarrow> drop_bit 52 w mod 2048 \<noteq> 2047"

definition quote_laws :: "(string \<Rightarrow> string) \<Rightarrow> bool" where
  "quote_laws quote \<longleftrightarrow>
     (\<forall>s r s' r'. quote s @ r = quote s' @ r' \<longrightarrow> s = s' \<and> r = r') \<and>
     (\<forall>s. \<exists>t. quote s = CHR 0x22 # t)"

definition is_number_char :: "char \<Rightarrow> bool" where
  "is_number_char c \<longleftrightarrow> is_ascii_digit c \<or> c \<in> {CHR ''-'', CHR ''+'', CHR ''.'', CHR ''e''}"

definition float_laws :: "(u64 \<Rightarrow> string) \<Rightarrow> bool" where
  "float_laws show_float \<longleftrightarrow>
     (\<forall>w. finite_float w \<longrightarrow>
        list_all is_number_char (show_float w) \<and> show_float w \<noteq> [] \<and>
        (CHR ''.'' \<in> set (show_float w) \<or> CHR ''e'' \<in> set (show_float w))) \<and>
     (\<forall>v w. finite_float v \<longrightarrow> finite_float w \<longrightarrow> show_float v = show_float w \<longrightarrow> v = w)"

fun number_wf :: "json_number \<Rightarrow> bool" where
  "number_wf (PosInt n) = True"
| "number_wf (NegInt i) \<longleftrightarrow> i < 0"
| "number_wf (Float w) = finite_float w"

fun json_wf :: "json \<Rightarrow> bool" where
  "json_wf (JNumber n) = number_wf n"
| "json_wf (JArray xs) = list_all json_wf xs"
| "json_wf (JObject m) \<longleftrightarrow> bt_wf m \<and> list_all json_wf (map snd m)"
| "json_wf _ = True"

definition closes :: "string \<Rightarrow> bool" where
  "closes r \<longleftrightarrow> (case r of [] \<Rightarrow> True | c # _ \<Rightarrow> c \<in> {CHR '','', CHR '']'', CHR ''}''})"

lemma quote_inject: "quote_laws quote \<Longrightarrow> quote s @ r = quote s' @ r' \<Longrightarrow> s = s' \<and> r = r'"
  unfolding quote_laws_def by blast

lemma quote_head: "quote_laws quote \<Longrightarrow> \<exists>t. quote s = CHR 0x22 # t"
  unfolding quote_laws_def by blast

lemma is_number_char_digit: "is_ascii_digit c \<Longrightarrow> is_number_char c"
  by (simp add: is_number_char_def)

lemma closes_not_number: "closes (c # r) \<Longrightarrow> \<not> is_number_char c"
  by (auto simp: closes_def is_number_char_def is_ascii_digit_def)

lemma number_text_delimited:
  assumes "list_all is_number_char a" "list_all is_number_char b"
    and "closes r" "closes s" and "a @ r = b @ s"
  shows "a = b \<and> r = s"
proof -
  have "takeWhile is_number_char (x @ t) = x" if "list_all is_number_char x" "closes t" for x t
    using that closes_not_number
    by (cases t) (auto simp: list_all_iff takeWhile_tail)
  with assms show ?thesis by (metis same_append_eq)
qed

lemma show_number_chars:
  assumes "float_laws show_float" and "number_wf n"
  shows "list_all is_number_char (show_number show_float n)" and "show_number show_float n \<noteq> []"
  using assms
  by (cases n; simp add: list_all_iff show_nat_digits is_number_char_digit float_laws_def
      is_number_char_def [of "CHR ''-''"])+

lemma show_nat_plain: "c \<in> set (show_nat n) \<Longrightarrow> c \<noteq> CHR ''-'' \<and> c \<noteq> CHR ''.'' \<and> c \<noteq> CHR ''e''"
  using show_nat_digits by (fastforce simp: is_ascii_digit_def)

lemma show_number_inject:
  assumes f: "float_laws show_float" and wf: "number_wf m" "number_wf n"
    and eq: "show_number show_float m = show_number show_float n"
  shows "m = n"
proof -
  have float: "CHR ''.'' \<in> set (show_float w) \<or> CHR ''e'' \<in> set (show_float w)" if "finite_float w" for w
    using f that by (simp add: float_laws_def)
  have minus: "show_nat k \<noteq> CHR ''-'' # s" for k s
    using show_nat_plain [of "CHR ''-''" k] by auto
  have ints: "show_nat k \<noteq> show_float w" "CHR ''-'' # show_nat k \<noteq> show_float w"
    if "finite_float w" for k w
  proof -
    have "CHR ''.'' \<notin> set (show_nat k)" "CHR ''e'' \<notin> set (show_nat k)"
      using show_nat_plain [of _ k] by blast+
    moreover from this have "CHR ''.'' \<notin> set (CHR ''-'' # show_nat k)" "CHR ''e'' \<notin> set (CHR ''-'' # show_nat k)"
      by simp_all
    ultimately show "show_nat k \<noteq> show_float w" "CHR ''-'' # show_nat k \<noteq> show_float w"
      using float [OF that] by metis+
  qed
  show ?thesis
  proof (cases m; cases n)
    fix v w assume "m = Float v" "n = Float w"
    with assms show ?thesis by (simp add: float_laws_def)
  qed (use wf eq minus minus [symmetric] ints ints [symmetric] in simp_all)
qed

lemma join_comma_Cons: "join_comma (x # xs) = x @ (if xs = [] then [] else CHR '','' # join_comma xs)"
  by (cases xs) simp_all

definition closer :: "char \<Rightarrow> bool" where
  "closer c \<longleftrightarrow> c \<in> {CHR '']'', CHR ''}''}"

definition opens :: "string \<Rightarrow> bool" where
  "opens s \<longleftrightarrow> s \<noteq> [] \<and> \<not> closes s"

lemma opens_append: "opens s \<Longrightarrow> opens (s @ t)"
  by (cases s) (simp_all add: opens_def closes_def)

lemma join_comma_opens: "\<forall>x \<in> set xs. opens x \<Longrightarrow> xs \<noteq> [] \<Longrightarrow> opens (join_comma xs @ r)"
  by (cases xs) (auto simp: join_comma_Cons opens_append)

lemma closer_closes: "closer c \<Longrightarrow> closes (c # r)" "closes (CHR '','' # r)"
  by (auto simp: closer_def closes_def)

text \<open>Comma-separated items up to a closing bracket can be read back one by one.\<close>

lemma join_comma_inject:
  assumes item: "\<And>x y r r'. x \<in> set xs \<Longrightarrow> y \<in> set ys \<Longrightarrow> closes r \<Longrightarrow> closes r' \<Longrightarrow>
      g x @ r = g y @ r' \<Longrightarrow> x = y \<and> r = r'"
    and opens: "\<forall>x \<in> set xs. opens (g x)" "\<forall>y \<in> set ys. opens (g y)" and c: "closer c"
    and eq: "join_comma (map g xs) @ c # r = join_comma (map g ys) @ c # r'"
  shows "xs = ys \<and> r = r'"
  using item opens eq
proof (induction xs arbitrary: ys)
  case Nil
  then show ?case
    using join_comma_opens [of "map g ys" "c # r'"] closer_closes(1) [OF c, of r]
    by (cases "ys = []") (auto simp: opens_def)
next
  case (Cons x xs)
  let ?rest = "\<lambda>zs r. (if zs = [] then [] else CHR '','' # join_comma (map g zs)) @ c # r"
  have closes: "closes (?rest zs r)" for zs r
    by (simp add: closer_closes c)
  obtain y ys' where ys: "ys = y # ys'"
    using Cons.prems(2,4) join_comma_opens [of "map g (x # xs)" "c # r"] closer_closes(1) [OF c, of r']
    by (cases ys) (auto simp: opens_def)
  with Cons.prems(4) have "g x @ ?rest xs r = g y @ ?rest ys' r'"
    by (simp add: join_comma_Cons split: if_splits)
  then have "x = y \<and> ?rest xs r = ?rest ys' r'"
    by (intro Cons.prems(1) [OF _ _ closes closes]) (simp_all add: ys)
  then have xy: "x = y" and rest: "?rest xs r = ?rest ys' r'" by blast+
  have "c \<noteq> CHR '',''" using c by (auto simp: closer_def)
  moreover have "join_comma (map g xs) @ c # r = join_comma (map g ys') @ c # r' \<Longrightarrow> xs = ys' \<and> r = r'"
  proof (rule Cons.IH [of ys'])
    show "x = y \<and> t = t'" if "x \<in> set xs" "y \<in> set ys'" "closes t" "closes t'" "g x @ t = g y @ t'"
      for x y t t'
      by (rule Cons.prems(1)) (simp_all add: that ys)
  qed (use Cons.prems(2,3) ys in simp_all)
  ultimately have "xs = ys' \<and> r = r'"
    using rest by (cases "xs = []"; cases "ys' = []"; simp)
  with xy ys show ?case by simp
qed

lemma bt_get_json_fields:
  "bt_get (fold (\<lambda>field. bt_insert (fst field) (snd field)) entries m) k =
     (case map_of (rev entries) k of None \<Rightarrow> bt_get m k | Some v \<Rightarrow> Some v)"
  by (induction entries arbitrary: m) (auto simp: map_add_def split: option.split)

lemma pointer_json_object:
  assumes "pointer_laws pointer" "plain_token k"
  shows "pointer (json_object entries) (CHR ''/'' # k) = map_of (rev entries) k"
  using assms by (simp add: pointer_laws_def json_object_def bt_get_json_fields split: option.split)

lemma canonical_json_object:
  assumes "bt_wf m"
  shows "canonical_json quote show_float (JObject m) =
    CHR ''{'' # join_comma (map (\<lambda>(k, v). quote k @ CHR '':'' # canonical_json quote show_float v) m)
      @ [CHR ''}'']"
proof -
  let ?r = "map (\<lambda>(k, v). (k, canonical_json quote show_float v)) m"
  have d: "distinct (map fst m)" and s: "sort (map fst m) = map fst m"
    using assms by (simp_all add: bt_wf_def strict_sorted_iff sorted_sort_id)
  have "map_of ?r k = Some (canonical_json quote show_float v)" if "(k, v) \<in> set m" for k v
    using d that by (intro map_of_is_SomeI) (force simp: comp_def split_def)+
  then have "map (\<lambda>k. quote k @ CHR '':'' # the (map_of ?r k)) (map fst m) =
      map (\<lambda>(k, v). quote k @ CHR '':'' # canonical_json quote show_float v) m"
    by (auto simp: split_def)
  then show ?thesis by (simp add: s Let_def del: map_map)
qed

lemma canonical_json_opens:
  assumes "quote_laws quote" "float_laws show_float" "json_wf v"
  shows "opens (canonical_json quote show_float v)"
proof (cases v)
  case (JNumber n)
  with assms have "list_all is_number_char (show_number show_float n)" "show_number show_float n \<noteq> []"
    using show_number_chars by simp_all
  with JNumber show ?thesis
    using closes_not_number by (cases "show_number show_float n") (auto simp: opens_def)
next
  case (JString s)
  moreover obtain t where "quote s = CHR 0x22 # t" using quote_head [OF assms(1)] by blast
  ultimately show ?thesis by (simp add: opens_def closes_def)
qed (simp_all add: opens_def closes_def Let_def)

text \<open>The first character of a text tells which kind of value it renders.\<close>

fun json_kind :: "json \<Rightarrow> nat" where
  "json_kind JNull = 0"
| "json_kind (JBool b) = (if b then 1 else 2)"
| "json_kind (JNumber n) = 3"
| "json_kind (JString s) = 4"
| "json_kind (JArray xs) = 5"
| "json_kind (JObject m) = 6"

definition char_kind :: "char \<Rightarrow> nat" where
  "char_kind c =
     (if c = CHR ''n'' then 0 else if c = CHR ''t'' then 1 else if c = CHR ''f'' then 2
      else if c = CHR 0x22 then 4 else if c = CHR ''['' then 5 else if c = CHR ''{'' then 6 else 3)"

lemma char_kind_number: "is_number_char c \<Longrightarrow> char_kind c = 3"
  by (auto simp: is_number_char_def is_ascii_digit_def char_kind_def)

lemma canonical_json_kind:
  assumes q: "quote_laws quote" and f: "float_laws show_float" and wf: "json_wf v"
  shows "canonical_json quote show_float v \<noteq> []"
    and "char_kind (hd (canonical_json quote show_float v @ r)) = json_kind v"
proof -
  show ne: "canonical_json quote show_float v \<noteq> []"
    using canonical_json_opens [OF assms] by (simp add: opens_def)
  show "char_kind (hd (canonical_json quote show_float v @ r)) = json_kind v"
  proof (cases v)
    case (JNumber n)
    with show_number_chars [OF f, of n] wf have "is_number_char (hd (show_number show_float n))"
      by (simp add: list_all_iff)
    with JNumber ne show ?thesis by (simp add: char_kind_number)
  next
    case (JString s)
    moreover obtain t where "quote s = CHR 0x22 # t" using quote_head [OF q] by blast
    ultimately show ?thesis by (simp add: char_kind_def)
  qed (simp_all add: char_kind_def Let_def)
qed

text \<open>Reading one value off the front of a text, by induction on the value.\<close>

lemma canonical_json_prefix:
  assumes q: "quote_laws quote" and f: "float_laws show_float"
  shows "json_wf v \<Longrightarrow> json_wf v' \<Longrightarrow> closes r \<Longrightarrow> closes r' \<Longrightarrow>
    canonical_json quote show_float v @ r = canonical_json quote show_float v' @ r' \<Longrightarrow> v = v' \<and> r = r'"
proof (induction v arbitrary: v' r r')
  case (JNumber n)
  then have "json_kind v' = 3" using canonical_json_kind(2) [OF q f] by (metis json_kind.simps(3))
  then obtain n' where n': "v' = JNumber n'" by (cases v') (auto split: if_splits)
  have "show_number show_float n = show_number show_float n' \<and> r = r'"
    using JNumber.prems show_number_chars(1) [OF f] by (intro number_text_delimited) (simp_all add: n')
  with n' JNumber.prems show ?case by (simp add: show_number_inject [OF f])
next
  case (JString s)
  then have "json_kind v' = 4" using canonical_json_kind(2) [OF q f] by (metis json_kind.simps(4))
  then obtain s' where s': "v' = JString s'" by (cases v') (auto split: if_splits)
  with JString.prems(5) have "quote s @ r = quote s' @ r'" by simp
  from quote_inject [OF q this] s' show ?case by simp
next
  case (JArray xs)
  then have "json_kind v' = 5" using canonical_json_kind(2) [OF q f] by (metis json_kind.simps(5))
  then obtain ys where ys: "v' = JArray ys" by (cases v') (auto split: if_splits)
  have "xs = ys \<and> r = r'"
  proof (rule join_comma_inject [where g = "canonical_json quote show_float" and c = "CHR '']''"])
    show "x = y \<and> t = t'" if "x \<in> set xs" "y \<in> set ys" "closes t" "closes t'"
      "canonical_json quote show_float x @ t = canonical_json quote show_float y @ t'" for x y t t'
      by (rule JArray.IH [OF that(1) _ _ that(3-5)])
        (use JArray.prems(1,2) that(1,2) ys in \<open>simp_all add: list_all_iff\<close>)
  qed (use JArray.prems ys canonical_json_opens [OF q f] in \<open>auto simp: list_all_iff closer_def\<close>)
  with ys show ?case by simp
next
  case (JObject m)
  then have "json_kind v' = 6" using canonical_json_kind(2) [OF q f] by (metis json_kind.simps(6))
  then obtain n where n: "v' = JObject n" by (cases v') (auto split: if_splits)
  let ?g = "\<lambda>(k, v). quote k @ CHR '':'' # canonical_json quote show_float v"
  have "m = n \<and> r = r'"
  proof (rule join_comma_inject [where g = ?g and c = "CHR ''}''"])
    show "x = y \<and> t = t'" if "x \<in> set m" "y \<in> set n" "closes t" "closes t'" "?g x @ t = ?g y @ t'"
      for x y t t'
    proof -
      obtain k v l w where xy: "x = (k, v)" "y = (l, w)" by (cases x, cases y)
      with that(5) have "k = l \<and>
          CHR '':'' # canonical_json quote show_float v @ t = CHR '':'' # canonical_json quote show_float w @ t'"
        by (intro quote_inject [OF q]) simp
      moreover have "json_wf v" "json_wf w"
        using that(1,2) JObject.prems(1,2) n xy by (auto simp: list_all_iff)
      ultimately show ?thesis
        using JObject.IH [of x v] that xy by simp
    qed
    have "opens (?g x)" for x
      using quote_head [OF q, of "fst x"] by (auto simp: split_def opens_def closes_def)
    then show "\<forall>x \<in> set m. opens (?g x)" "\<forall>x \<in> set n. opens (?g x)" by blast+
  qed (use JObject.prems n in \<open>auto simp: canonical_json_object closer_def simp del: canonical_json.simps\<close>)
  with n show ?case by simp
next
  case JNull
  then have "json_kind v' = 0" using canonical_json_kind(2) [OF q f] by (metis json_kind.simps(1))
  then have "v' = JNull" by (cases v') (auto split: if_splits)
  with JNull.prems(5) show ?case by simp
next
  case (JBool b)
  then have "json_kind v' = json_kind (JBool b)" using canonical_json_kind(2) [OF q f] by metis
  then have "v' = JBool b" by (cases v') (auto split: if_splits)
  with JBool.prems(5) show ?case by simp
qed

section \<open>Properties\<close>

text \<open>A pointer lookup that obeys the laws, for the witnesses.\<close>

definition sample_pointer :: json_pointer where
  "sample_pointer v p =
     (case p of
        [] \<Rightarrow> Some v
      | c # cs \<Rightarrow>
          if c = CHR ''/''
          then fold (\<lambda>t acc. Option.bind acc (json_get t)) (split_on (CHR ''/'') cs) (Some v)
          else None)"

lemma sample_pointer_laws: "pointer_laws sample_pointer"
  by (auto simp: pointer_laws_def sample_pointer_def plain_token_def split_on_plain split_on_append
      split: option.split)

text \<open>A printer of strings and one of floats that obey the laws, for the witnesses.\<close>

definition sample_escape :: "char \<Rightarrow> string" where
  "sample_escape c = (if c = CHR 0x22 \<or> c = CHR 0x5C then [CHR 0x5C, c] else [c])"

definition sample_quote :: "string \<Rightarrow> string" where
  "sample_quote s = CHR 0x22 # concat (map sample_escape s) @ [CHR 0x22]"

definition sample_show_float :: "u64 \<Rightarrow> string" where
  "sample_show_float w = show_nat (unat w) @ ''.0''"

lemma sample_escape_concat_inject:
  "concat (map sample_escape s) @ CHR 0x22 # r = concat (map sample_escape s') @ CHR 0x22 # r' \<Longrightarrow>
   s = s' \<and> r = r'"
proof (induction s arbitrary: s')
  case Nil
  then show ?case by (cases s') (auto simp: sample_escape_def split: if_splits)
next
  case (Cons c s)
  then show ?case
    by (cases s') (auto simp: sample_escape_def split: if_splits)
qed

lemma sample_quote_laws: "quote_laws sample_quote"
proof -
  have "s = s' \<and> r = r'" if "sample_quote s @ r = sample_quote s' @ r'" for s r s' r'
    by (rule sample_escape_concat_inject) (use that in \<open>simp add: sample_quote_def\<close>)
  moreover have "\<exists>t. sample_quote s = CHR 0x22 # t" for s by (simp add: sample_quote_def)
  ultimately show ?thesis unfolding quote_laws_def by blast
qed

lemma sample_float_laws: "float_laws sample_show_float"
proof -
  have "list_all is_number_char (sample_show_float w)" for w
    using show_nat_digits [of _ "unat w"]
    by (auto simp: sample_show_float_def list_all_iff is_number_char_digit)
      (simp_all add: is_number_char_def is_ascii_digit_def)
  then show ?thesis
    by (auto simp: float_laws_def sample_show_float_def intro: unsigned_word_eqI)
qed



text \<open>
  What is put into the artifact store is read back under the returned reference (no stored blob
  having a colliding digest); no earlier blob is overwritten, and every blob stays filed under its
  own digest.
\<close>

lemma artifact_store_roundtrip:
  assumes "\<forall>x. length (sha256_hex x) = 64 \<and> list_all is_ascii_hexdigit (sha256_hex x)"
    and "\<forall>hex b. store hex = Some b \<longrightarrow> sha256_hex b = hex"
    and "\<forall>b \<in> ran store. sha256_hex b = sha256_hex bytes \<longrightarrow> b = bytes"
    and "put_bytes sha256_hex bytes store = (artifact_ref, store')"
  shows "read_ref artifact_ref store' = Ok bytes \<and> store \<subseteq>\<^sub>m store' \<and>
    (\<forall>hex b. store' hex = Some b \<longrightarrow> sha256_hex b = hex)"
proof -
  let ?hex = "sha256_hex bytes"
  from assms(4) have r: "artifact_ref = artifact_prefix @ ?hex"
      and s: "store' = (if store ?hex = None then store(?hex \<mapsto> bytes) else store)"
    by (auto simp: put_bytes_def Let_def sha256_bytes_def strip_prefix_def)
  have "read_ref artifact_ref store' = ok_or BlobNotFound (store' ?hex)"
    using assms(1) by (simp add: read_ref_def parse_artifact_sha256_ref_def r)
  moreover have "store' ?hex = Some bytes"
    using s assms(2,3) by (auto simp: ran_def)
  moreover have "store \<subseteq>\<^sub>m store'" using s by (auto simp: map_le_def)
  ultimately show ?thesis using s assms(2) by simp
qed

end
