(* ===== verification/Trial_State.thy ===== *)
theory Trial_State
  imports Json
begin

text \<open>
  The runtime state of trial attempts: its phases (\<open>lab-runner/src/trial/state.rs\<close>), its two copies,
  a file in the trial directory and rows of the run store (\<open>persistence/store.rs\<close>,
  \<open>trial/execution.rs\<close>), and the removal of the containers it names
  (\<open>trial/execution/local_docker.rs\<close>). The paths of a run directory are identified by the trial id
  they end in. Every file, database and Docker call has its own outcome, given by a \<open>trial_env\<close>;
  calls to Docker are kept as a trace.
\<close>

section \<open>Phases\<close>

datatype TrialPhase =
    PhPending | PhAgentMaterializing | PhAgentRunning | PhAgentFinished | PhGraderMaterializing
  | PhGraderRunning | PhGraderMapping | PhPaused | PhCommitPending | PhCommitted | PhKilled | PhAbandoned

fun trial_phase_text :: "TrialPhase \<Rightarrow> string" where
  "trial_phase_text PhPending = ''pending''"
| "trial_phase_text PhAgentMaterializing = ''agent_materializing''"
| "trial_phase_text PhAgentRunning = ''agent_running''"
| "trial_phase_text PhAgentFinished = ''agent_finished''"
| "trial_phase_text PhGraderMaterializing = ''grader_materializing''"
| "trial_phase_text PhGraderRunning = ''grader_running''"
| "trial_phase_text PhGraderMapping = ''grader_mapping''"
| "trial_phase_text PhPaused = ''paused''"
| "trial_phase_text PhCommitPending = ''commit_pending''"
| "trial_phase_text PhCommitted = ''committed''"
| "trial_phase_text PhKilled = ''killed''"
| "trial_phase_text PhAbandoned = ''abandoned''"

definition trial_phase_requires_recovery_release :: "TrialPhase \<Rightarrow> bool" where
  "trial_phase_requires_recovery_release phase \<longleftrightarrow>
     \<not> (phase = PhPaused \<or> phase = PhCommitted \<or> phase = PhKilled \<or> phase = PhAbandoned)"

section \<open>The attempt state\<close>

record attempt_slot_ref =
  asr_variant_id :: string
  asr_task_id :: string
  asr_repl_idx :: nat

record trial_attempt_key =
  tak_schedule_idx :: nat
  tak_attempt :: nat

record attempt_fs_layout =
  afl_attempt_dir :: string
  afl_in_dir :: string
  afl_out_dir :: string
  afl_telemetry_mounts :: "json list"
  afl_logs_dir :: string

record task_sandbox_state =
  tss_container_id :: string
  tss_image :: string
  tss_workdir :: string
  tss_platform :: "string option"
  tss_materialization :: json

datatype GradingStrategy = GradeNone | GradeInTaskRuntime | GradeInjected | GradeSeparate | GradeHost

record grading_sandbox_state =
  gss_container_id :: string
  gss_strategy :: GradingStrategy
  gss_workdir :: string

record ephemeral_sandbox_state =
  ess_id :: string
  ess_container_id :: string
  ess_image :: string
  ess_lifecycle :: string

record ephemeral_network_state =
  ens_name :: string
  ens_internal :: bool

record container_cleanup_record =
  ccr_container_id :: string
  ccr_role :: string
  ccr_status :: string
  ccr_error :: "string option"

text \<open>The records of the finished stages and the candidate artifact are carried along unread.\<close>

record trial_attempt_state =
  tas_key :: trial_attempt_key
  tas_slot :: attempt_slot_ref
  tas_phase :: TrialPhase
  tas_paused_from_phase :: "TrialPhase option"
  tas_fs :: attempt_fs_layout
  tas_task_sandbox :: "task_sandbox_state option"
  tas_grading_sandbox :: "grading_sandbox_state option"
  tas_ephemerals :: "ephemeral_sandbox_state list"
  tas_ephemeral_networks :: "ephemeral_network_state list"
  tas_agent_phase :: "json option"
  tas_grading_phase :: "json option"
  tas_mapping_phase :: "json option"
  tas_candidate_artifact :: "json option"
  tas_cleanup :: "container_cleanup_record list"

definition new_trial_attempt_state ::
  "string \<times> string \<times> string \<Rightarrow> nat \<Rightarrow> nat \<Rightarrow> string \<times> string \<times> nat \<Rightarrow> trial_attempt_state" where
  "new_trial_attempt_state fs_paths schedule_idx attempt_no slot =
     (case fs_paths of (trial_dir, in_dir, out_dir) \<Rightarrow>
      case slot of (task_id, variant_id, repl_idx) \<Rightarrow>
        \<lparr>tas_key = \<lparr>tak_schedule_idx = schedule_idx, tak_attempt = attempt_no\<rparr>,
         tas_slot = \<lparr>asr_variant_id = variant_id, asr_task_id = task_id, asr_repl_idx = repl_idx\<rparr>,
         tas_phase = PhPending, tas_paused_from_phase = None,
         tas_fs = \<lparr>afl_attempt_dir = trial_dir, afl_in_dir = in_dir, afl_out_dir = out_dir,
           afl_telemetry_mounts = [], afl_logs_dir = trial_dir @ ''/logs''\<rparr>,
         tas_task_sandbox = None, tas_grading_sandbox = None, tas_ephemerals = [],
         tas_ephemeral_networks = [], tas_agent_phase = None, tas_grading_phase = None,
         tas_mapping_phase = None, tas_candidate_artifact = None, tas_cleanup = []\<rparr>)"

definition push_new :: "string list \<Rightarrow> string \<Rightarrow> string list" where
  "push_new ids cid = (if cid \<in> set ids then ids else ids @ [cid])"

definition trial_attempt_container_ids :: "trial_attempt_state \<Rightarrow> string list" where
  "trial_attempt_container_ids state =
     (let ids = (case tas_task_sandbox state of None \<Rightarrow> [] | Some task \<Rightarrow> [tss_container_id task]);
          ids = (case tas_grading_sandbox state of None \<Rightarrow> ids | Some g \<Rightarrow> push_new ids (gss_container_id g))
      in foldl (\<lambda>ids e. push_new ids (ess_container_id e)) ids (tas_ephemerals state))"

section \<open>Files, rows and containers\<close>

record trial_attempt_record =
  tar_trial_id :: string
  tar_schedule_idx :: nat
  tar_phase :: TrialPhase
  tar_state :: trial_attempt_state

record attempt_container_row =
  acr_status :: string
  acr_image :: "string option"
  acr_workdir :: "string option"

record trial_state_file =
  tsf_status :: string
  tsf_pause_label :: "string option"
  tsf_checkpoint_selected :: "string option"
  tsf_exit_reason :: "string option"

datatype docker_call =
    PauseContainer string
  | UnpauseContainer string
  | KillContainer string
  | RemoveContainer string
  | RemoveNetwork string

text \<open>
  Rows are keyed by run, trial and attempt, and container rows also by role and container.
\<close>

record trial_world =
  tw_attempts :: "string \<times> string \<times> nat \<rightharpoonup> trial_attempt_record"
  tw_containers :: "string \<times> string \<times> nat \<times> string \<times> string \<rightharpoonup> attempt_container_row"
  tw_dirs :: "string set"
  tw_runtime_files :: "string \<rightharpoonup> trial_attempt_state"
  tw_trial_states :: "string \<rightharpoonup> trial_state_file"
  tw_docker :: "docker_call list"

datatype db_site = SiteUpsert nat | SiteLatest | SiteContainers | SiteRecovery

datatype db_fault = DbBusy | DbFailed

datatype file_site = RuntimeRead | RuntimeWrite | TrialStateWrite

datatype docker_reply = DockerDone | DockerNotFound | DockerError

text \<open>
  The label queries list the containers or networks of one trial or of the whole run (\<open>None\<close>), with or
  without the digest of the run directory among the labels.
\<close>

record trial_env =
  te_db :: "string \<Rightarrow> db_site \<Rightarrow> db_fault option"
  te_file :: "string \<Rightarrow> file_site \<Rightarrow> bool"
  te_docker_connect :: bool
  te_docker :: "docker_call \<Rightarrow> docker_reply"
  te_labeled_containers :: "string option \<Rightarrow> bool \<Rightarrow> string list option"
  te_labeled_networks :: "string option \<Rightarrow> bool \<Rightarrow> string list option"

datatype trial_error =
    DbError db_site db_fault
  | FileFault file_site
  | RuntimeFileMissing
  | DockerFault
  | MissingRuntimeContainer string
  | MissingDbAttempt string
  | TrialNotPaused TrialPhase
  | MissingPausedFromPhase
  | MissingRuntimeWorker string

type_synonym 'a trial_op = "(trial_world, trial_error, 'a) op"

definition db_call :: "trial_env \<Rightarrow> string \<Rightarrow> db_site \<Rightarrow> unit trial_op" where
  "db_call env trial_id site =
     (case te_db env trial_id site of None \<Rightarrow> oreturn () | Some f \<Rightarrow> ofail (DbError site f))"

definition file_call :: "trial_env \<Rightarrow> string \<Rightarrow> file_site \<Rightarrow> unit trial_op" where
  "file_call env trial_id site =
     (if te_file env trial_id site then oreturn () else ofail (FileFault site))"

section \<open>The attempt tables\<close>

definition SQLITE_BUSY_RETRY_ATTEMPTS :: nat where
  "SQLITE_BUSY_RETRY_ATTEMPTS = 80"

fun is_sqlite_busy_error :: "trial_error \<Rightarrow> bool" where
  "is_sqlite_busy_error (DbError _ f) = (f = DbBusy)"
| "is_sqlite_busy_error _ = False"

text \<open>The loop of \<open>retry_sqlite_busy\<close>, at its counter; the delays between attempts are left out.\<close>

function retry_sqlite_busy :: "(nat \<Rightarrow> 'a trial_op) \<Rightarrow> nat \<Rightarrow> 'a trial_op" where
  "retry_sqlite_busy operation attempt s =
     (case operation attempt s of
        (Inr value, t) \<Rightarrow> (Ok value, t)
      | (Inl err, t) \<Rightarrow>
          if attempt < SQLITE_BUSY_RETRY_ATTEMPTS \<and> is_sqlite_busy_error err
          then retry_sqlite_busy operation (attempt + 1) t
          else (Err err, t))"
  by pat_completeness auto

termination
  by (relation "measure (\<lambda>(operation, attempt, s). SQLITE_BUSY_RETRY_ATTEMPTS - attempt)") auto

declare retry_sqlite_busy.simps [simp del]

definition upsert_trial_attempt_container ::
  "string \<Rightarrow> string \<Rightarrow> nat \<Rightarrow> string \<Rightarrow> string \<Rightarrow> string option \<Rightarrow> string option \<Rightarrow> trial_world \<Rightarrow> trial_world" where
  "upsert_trial_attempt_container run_id trial_id attempt role cid img workdir w =
     (let k = (run_id, trial_id, attempt, role, cid);
          status = (case tw_containers w k of
                      None \<Rightarrow> ''active''
                    | Some row \<Rightarrow>
                        if acr_status row = ''removed'' \<or> acr_status row = ''killed'' then acr_status row
                        else ''active'')
      in w\<lparr>tw_containers := (tw_containers w)(k \<mapsto>
             \<lparr>acr_status = status, acr_image = img, acr_workdir = workdir\<rparr>)\<rparr>)"

definition mark_container_cleanup ::
  "string \<Rightarrow> string \<Rightarrow> nat \<Rightarrow> container_cleanup_record \<Rightarrow> trial_world \<Rightarrow> trial_world" where
  "mark_container_cleanup run_id trial_id attempt cleanup w =
     (let k = (run_id, trial_id, attempt, ccr_role cleanup, ccr_container_id cleanup)
      in case tw_containers w k of
           None \<Rightarrow> w
         | Some row \<Rightarrow>
             w\<lparr>tw_containers := (tw_containers w)(k \<mapsto> row\<lparr>acr_status := ccr_status cleanup\<rparr>)\<rparr>)"

text \<open>The statements of the transaction.\<close>

definition upsert_attempt_rows :: "string \<Rightarrow> string \<Rightarrow> trial_attempt_state \<Rightarrow> trial_world \<Rightarrow> trial_world" where
  "upsert_attempt_rows run_id trial_id state w =
     (let attempt = tak_attempt (tas_key state);
          w = w\<lparr>tw_attempts := (tw_attempts w)((run_id, trial_id, attempt) \<mapsto>
                \<lparr>tar_trial_id = trial_id, tar_schedule_idx = tak_schedule_idx (tas_key state),
                 tar_phase = tas_phase state, tar_state = state\<rparr>)\<rparr>;
          w = (case tas_task_sandbox state of
                 None \<Rightarrow> w
               | Some task \<Rightarrow> upsert_trial_attempt_container run_id trial_id attempt ''task''
                   (tss_container_id task) (Some (tss_image task)) (Some (tss_workdir task)) w);
          w = (case tas_grading_sandbox state of
                 None \<Rightarrow> w
               | Some grading \<Rightarrow> upsert_trial_attempt_container run_id trial_id attempt ''grading''
                   (gss_container_id grading) None (Some (gss_workdir grading)) w)
      in fold (mark_container_cleanup run_id trial_id attempt) (tas_cleanup state) w)"

definition upsert_trial_attempt_state ::
  "trial_env \<Rightarrow> string \<Rightarrow> string \<Rightarrow> trial_attempt_state \<Rightarrow> unit trial_op" where
  "upsert_trial_attempt_state env run_id trial_id state =
     retry_sqlite_busy (\<lambda>n.
       transactional
         (obind (db_call env trial_id (SiteUpsert n)) (\<lambda>_.
          omodify (upsert_attempt_rows run_id trial_id state)))) 0"

text \<open>\<open>ORDER BY attempt DESC LIMIT 1\<close>.\<close>

definition attempt_numbers :: "trial_world \<Rightarrow> string \<Rightarrow> string \<Rightarrow> nat set" where
  "attempt_numbers w run_id trial_id = {a. tw_attempts w (run_id, trial_id, a) \<noteq> None}"

definition latest_attempt :: "trial_world \<Rightarrow> string \<Rightarrow> string \<Rightarrow> trial_attempt_record option" where
  "latest_attempt w run_id trial_id =
     (if attempt_numbers w run_id trial_id = {} then None
      else tw_attempts w (run_id, trial_id, Max (attempt_numbers w run_id trial_id)))"

definition load_latest_trial_attempt ::
  "trial_env \<Rightarrow> string \<Rightarrow> string \<Rightarrow> trial_attempt_record option trial_op" where
  "load_latest_trial_attempt env run_id trial_id =
     obind (db_call env trial_id SiteLatest) (\<lambda>_.
     oget (\<lambda>w. latest_attempt w run_id trial_id))"

text \<open>
  \<open>status NOT IN ('removed','killed') AND container_id != 'host' ORDER BY attempt DESC, role\<close>; rows of
  one attempt and role come in the order of the container ids, which the query leaves open.
\<close>

definition live_container_rows :: "trial_world \<Rightarrow> string \<Rightarrow> string \<Rightarrow> (nat \<times> string \<times> string) set" where
  "live_container_rows w run_id trial_id =
     {(a, role, cid). \<exists>row. tw_containers w (run_id, trial_id, a, role, cid) = Some row \<and>
        acr_status row \<noteq> ''removed'' \<and> acr_status row \<noteq> ''killed'' \<and> cid \<noteq> ''host''}"

definition db_container_ids :: "trial_world \<Rightarrow> string \<Rightarrow> string \<Rightarrow> string list" where
  "db_container_ids w run_id trial_id =
     (let rows = live_container_rows w run_id trial_id;
          attempts = rev (sorted_list_of_set (fst ` rows));
          ordered = concat (map (\<lambda>a. map snd (sorted_list_of_set {(role, cid). (a, role, cid) \<in> rows})) attempts)
      in foldl push_new [] ordered)"

definition load_db_container_ids :: "trial_env \<Rightarrow> string \<Rightarrow> string \<Rightarrow> string list trial_op" where
  "load_db_container_ids env run_id trial_id =
     obind (db_call env trial_id SiteContainers) (\<lambda>_.
     oget (\<lambda>w. db_container_ids w run_id trial_id))"

section \<open>The runtime state file\<close>

definition write_trial_attempt_state :: "trial_env \<Rightarrow> string \<Rightarrow> trial_attempt_state \<Rightarrow> unit trial_op" where
  "write_trial_attempt_state env trial_id state =
     obind (file_call env trial_id RuntimeWrite) (\<lambda>_.
     omodify (\<lambda>w. w\<lparr>tw_runtime_files := (tw_runtime_files w)(trial_id \<mapsto> state)\<rparr>))"

definition trial_attempt_state_exists :: "string \<Rightarrow> trial_world \<Rightarrow> bool" where
  "trial_attempt_state_exists trial_id w \<longleftrightarrow> tw_runtime_files w trial_id \<noteq> None"

definition load_trial_attempt_state :: "trial_env \<Rightarrow> string \<Rightarrow> trial_attempt_state trial_op" where
  "load_trial_attempt_state env trial_id =
     obind (file_call env trial_id RuntimeRead) (\<lambda>_.
     obind (oget (\<lambda>w. tw_runtime_files w trial_id)) (\<lambda>file.
     olift (ok_or RuntimeFileMissing file)))"

definition load_trial_attempt_container_ids :: "trial_env \<Rightarrow> string \<Rightarrow> string list trial_op" where
  "load_trial_attempt_container_ids env trial_id =
     obind (oget (trial_attempt_state_exists trial_id)) (\<lambda>exists.
     if \<not> exists then oreturn []
     else obind (load_trial_attempt_state env trial_id) (\<lambda>state.
          oreturn (trial_attempt_container_ids state)))"

definition update_trial_attempt_state ::
  "trial_env \<Rightarrow> string \<Rightarrow> (trial_attempt_state \<Rightarrow> trial_attempt_state) \<Rightarrow> trial_attempt_state option trial_op" where
  "update_trial_attempt_state env trial_id mutate =
     obind (oget (trial_attempt_state_exists trial_id)) (\<lambda>exists.
     if \<not> exists then oreturn None
     else obind (load_trial_attempt_state env trial_id) (\<lambda>state.
          obind (write_trial_attempt_state env trial_id (mutate state)) (\<lambda>_.
          oreturn (Some (mutate state)))))"

definition set_phase :: "TrialPhase \<Rightarrow> trial_attempt_state \<Rightarrow> trial_attempt_state" where
  "set_phase phase state =
     (let state = state\<lparr>tas_phase := phase\<rparr>
      in if phase \<noteq> PhPaused then state\<lparr>tas_paused_from_phase := None\<rparr> else state)"

definition abandon :: "trial_attempt_state \<Rightarrow> trial_attempt_state" where
  "abandon state =
     (if tas_phase state = PhCommitted \<or> tas_phase state = PhPaused \<or> tas_phase state = PhKilled then state
      else state\<lparr>tas_phase := PhAbandoned, tas_paused_from_phase := None\<rparr>)"

definition reconcile_trial_attempt_phase ::
  "trial_env \<Rightarrow> string \<Rightarrow> TrialPhase \<Rightarrow> trial_attempt_state option trial_op" where
  "reconcile_trial_attempt_phase env trial_id phase =
     update_trial_attempt_state env trial_id (set_phase phase)"

definition reconcile_trial_attempt_as_abandoned ::
  "trial_env \<Rightarrow> string \<Rightarrow> trial_attempt_state option trial_op" where
  "reconcile_trial_attempt_as_abandoned env trial_id = update_trial_attempt_state env trial_id abandon"

definition reconcile_trial_attempt_as_committed ::
  "trial_env \<Rightarrow> string \<Rightarrow> trial_attempt_state option trial_op" where
  "reconcile_trial_attempt_as_committed env trial_id =
     reconcile_trial_attempt_phase env trial_id PhCommitted"

definition write_trial_state ::
  "trial_env \<Rightarrow> string \<Rightarrow> string \<Rightarrow> string option \<Rightarrow> string option \<Rightarrow> string option \<Rightarrow> unit trial_op" where
  "write_trial_state env trial_id status pause_label checkpoint_selected exit_reason =
     obind (file_call env trial_id TrialStateWrite) (\<lambda>_.
     omodify (\<lambda>w. w\<lparr>tw_trial_states := (tw_trial_states w)(trial_id \<mapsto>
       \<lparr>tsf_status = status, tsf_pause_label = pause_label,
        tsf_checkpoint_selected = checkpoint_selected, tsf_exit_reason = exit_reason\<rparr>)\<rparr>))"

text \<open>
  The guard of a running trial: completing it writes the final status; dropping it unfinished marks the
  trial as failed, where a write error only prints a warning.
\<close>

record trial_state_guard =
  tsg_trial_id :: string
  tsg_done :: bool

definition trial_state_guard_complete ::
  "trial_env \<Rightarrow> string \<Rightarrow> string option \<Rightarrow> trial_state_guard \<Rightarrow> trial_state_guard trial_op" where
  "trial_state_guard_complete env status exit_reason g =
     obind (write_trial_state env (tsg_trial_id g) status None None exit_reason) (\<lambda>_.
     oreturn (g\<lparr>tsg_done := True\<rparr>))"

definition trial_state_guard_drop :: "trial_env \<Rightarrow> trial_state_guard \<Rightarrow> trial_world \<Rightarrow> trial_world" where
  "trial_state_guard_drop env g w =
     (if tsg_done g then w
      else snd (write_trial_state env (tsg_trial_id g) ''failed'' None None (Some ''aborted'') w))"

section \<open>Both copies\<close>

text \<open>
  \<open>persist_attempt_state_with_writer\<close>: the file and the rows are both written, whatever the other's
  outcome; an error of the rows comes first.
\<close>

definition persist_attempt_state ::
  "trial_env \<Rightarrow> string \<Rightarrow> string \<Rightarrow> trial_attempt_state \<Rightarrow> unit trial_op" where
  "persist_attempt_state env run_id trial_id state w =
     (case write_trial_attempt_state env trial_id state w of
        (file_result, w) \<Rightarrow>
          case upsert_trial_attempt_state env run_id trial_id state w of
            (db_result, w) \<Rightarrow>
              (case (file_result, db_result) of
                 (Inr _, Inr _) \<Rightarrow> (Ok (), w)
               | (Inl file_err, Inr _) \<Rightarrow> (Err file_err, w)
               | (_, Inl db_err) \<Rightarrow> (Err db_err, w)))"

text \<open>\<open>set_attempt_phase\<close> and \<open>reconcile_attempt_as_abandoned\<close> of \<open>trial/execution.rs\<close> change the
  caller's copy of the state; the new copy is the value returned.\<close>

definition set_attempt_phase ::
  "trial_env \<Rightarrow> string \<Rightarrow> string \<Rightarrow> TrialPhase \<Rightarrow> trial_attempt_state \<Rightarrow> trial_attempt_state trial_op" where
  "set_attempt_phase env run_id trial_id phase state =
     obind (persist_attempt_state env run_id trial_id (set_phase phase state)) (\<lambda>_.
     oreturn (set_phase phase state))"

definition reconcile_attempt_as_abandoned ::
  "trial_env \<Rightarrow> string \<Rightarrow> string \<Rightarrow> trial_attempt_state \<Rightarrow> trial_attempt_state trial_op" where
  "reconcile_attempt_as_abandoned env run_id trial_id state =
     (if tas_phase state = PhCommitted \<or> tas_phase state = PhPaused \<or> tas_phase state = PhKilled
      then oreturn state
      else obind (persist_attempt_state env run_id trial_id (abandon state)) (\<lambda>_.
           oreturn (abandon state)))"

section \<open>Removing the containers of an attempt\<close>

definition docker_call_op :: "trial_env \<Rightarrow> docker_call \<Rightarrow> unit trial_op" where
  "docker_call_op env c w =
     (case te_docker env c of
        DockerDone \<Rightarrow> (Ok (), w\<lparr>tw_docker := tw_docker w @ [c]\<rparr>)
      | DockerNotFound \<Rightarrow> (Ok (), w)
      | DockerError \<Rightarrow> (Err DockerFault, w))"

definition docker_connect :: "trial_env \<Rightarrow> unit trial_op" where
  "docker_connect env = olift (ensure (te_docker_connect env) DockerFault)"

definition docker_list :: "trial_env \<Rightarrow> string list option \<Rightarrow> string list trial_op" where
  "docker_list env reply =
     obind (docker_connect env) (\<lambda>_. olift (ok_or DockerFault reply))"

definition remove_docker_container_handles_required :: "trial_env \<Rightarrow> string list \<Rightarrow> unit trial_op" where
  "remove_docker_container_handles_required env handles =
     (if handles = [] then oreturn ()
      else obind (docker_connect env) (\<lambda>_.
           oforeach handles (\<lambda>h.
             obind (docker_call_op env (KillContainer h)) (\<lambda>_.
             docker_call_op env (RemoveContainer h)))))"

definition remove_docker_network_handles_required :: "trial_env \<Rightarrow> string list \<Rightarrow> unit trial_op" where
  "remove_docker_network_handles_required env handles =
     (if handles = [] then oreturn ()
      else obind (docker_connect env) (\<lambda>_.
           oforeach handles (\<lambda>h. docker_call_op env (RemoveNetwork h))))"

definition dedupe_handles :: "string list \<Rightarrow> string list" where
  "dedupe_handles handles = foldl push_new [] handles"

definition file_network_handles :: "trial_env \<Rightarrow> string \<Rightarrow> string list trial_op" where
  "file_network_handles env trial_id =
     obind (oget (trial_attempt_state_exists trial_id)) (\<lambda>exists.
     if \<not> exists then oreturn []
     else obind (load_trial_attempt_state env trial_id) (\<lambda>state.
          oreturn (map ens_name (tas_ephemeral_networks state))))"

definition otry :: "('s, 'e, 'a) op \<Rightarrow> ('s, 'e, ('e, 'a) result) op" where
  "otry m s = (case m s of (r, t) \<Rightarrow> (Ok r, t))"

text \<open>A busy database is not an error here: the lookup is skipped and its error kept.\<close>

definition db_handles_if_needed ::
  "trial_env \<Rightarrow> string \<Rightarrow> string \<Rightarrow> string list \<Rightarrow> (string list \<times> trial_error option) trial_op" where
  "db_handles_if_needed env run_id trial_id handles =
     (if handles \<noteq> [] then oreturn (handles, None)
      else obind (otry (load_db_container_ids env run_id trial_id)) (\<lambda>r.
           case r of
             Inr db_handles \<Rightarrow> oreturn (handles @ db_handles, None)
           | Inl err \<Rightarrow> if is_sqlite_busy_error err then oreturn (handles, Some err) else ofail err))"

definition active_state_known :: "trial_env \<Rightarrow> string \<Rightarrow> string \<Rightarrow> bool trial_op" where
  "active_state_known env run_id trial_id =
     obind (oget (trial_attempt_state_exists trial_id)) (\<lambda>exists.
     if exists then oreturn True
     else obind (otry (load_latest_trial_attempt env run_id trial_id)) (\<lambda>r.
          case r of
            Inr attempt \<Rightarrow> oreturn (attempt \<noteq> None)
          | Inl err \<Rightarrow> if is_sqlite_busy_error err then oreturn False else ofail err))"

definition cleanup_local_docker_attempt_runtime :: "trial_env \<Rightarrow> string \<Rightarrow> string \<Rightarrow> nat trial_op" where
  "cleanup_local_docker_attempt_runtime env run_id trial_id =
     obind (load_trial_attempt_container_ids env trial_id) (\<lambda>handles.
     obind (file_network_handles env trial_id) (\<lambda>networks.
     obind (db_handles_if_needed env run_id trial_id handles) (\<lambda>(handles, lookup_error).
     obind (docker_list env (te_labeled_containers env (Some trial_id) True)) (\<lambda>labeled.
     obind (docker_list env (te_labeled_networks env (Some trial_id) True)) (\<lambda>labeled_networks.
     obind (active_state_known env run_id trial_id) (\<lambda>active_state_exists.
     let handles = handles @ labeled; networks = networks @ labeled_networks
     in obind (if handles = [] \<and> networks = [] \<and> \<not> active_state_exists
               then obind (docker_list env (te_labeled_containers env (Some trial_id) False)) (\<lambda>h.
                    obind (docker_list env (te_labeled_networks env (Some trial_id) False)) (\<lambda>n.
                    oreturn (h, n)))
               else oreturn (handles, networks)) (\<lambda>(handles, networks).
        let handles = dedupe_handles handles; networks = dedupe_handles networks
        in if handles = [] \<and> networks = [] then
             (if active_state_exists then ofail (MissingRuntimeContainer trial_id)
              else case lookup_error of Some err \<Rightarrow> ofail err | None \<Rightarrow> oreturn 0)
           else
             obind (remove_docker_container_handles_required env handles) (\<lambda>_.
             obind (remove_docker_network_handles_required env networks) (\<lambda>_.
             oreturn (length handles))))))))))"

definition cleanup_local_docker_run_runtime :: "trial_env \<Rightarrow> nat trial_op" where
  "cleanup_local_docker_run_runtime env =
     obind (docker_list env (te_labeled_containers env None False)) (\<lambda>handles.
     obind (docker_list env (te_labeled_networks env None False)) (\<lambda>networks.
     obind (remove_docker_container_handles_required env (dedupe_handles handles)) (\<lambda>_.
     obind (remove_docker_network_handles_required env (dedupe_handles networks)) (\<lambda>_.
     oreturn (length (dedupe_handles handles))))))"

section \<open>Lemmas\<close>

lemma trial_phase_text_inject [simp]: "trial_phase_text p = trial_phase_text q \<longleftrightarrow> p = q"
  by (cases p; cases q) simp_all

lemma set_push_new [simp]: "set (push_new ids cid) = insert cid (set ids)"
  by (auto simp: push_new_def)

lemma distinct_push_new: "distinct ids \<Longrightarrow> distinct (push_new ids cid)"
  by (simp add: push_new_def)

lemma foldl_push_new:
  "set (foldl push_new ids cids) = set ids \<union> set cids"
  "distinct ids \<Longrightarrow> distinct (foldl push_new ids cids)"
  by (induction cids arbitrary: ids) (auto simp: distinct_push_new)

lemma set_dedupe_handles [simp]: "set (dedupe_handles handles) = set handles"
  by (simp add: dedupe_handles_def foldl_push_new)

lemma dedupe_handles_Nil [simp]: "dedupe_handles handles = [] \<longleftrightarrow> handles = []"
  using set_dedupe_handles [of handles] by (metis set_empty)

lemma set_trial_attempt_container_ids:
  "set (trial_attempt_container_ids state) =
     set_option (map_option tss_container_id (tas_task_sandbox state)) \<union>
     set_option (map_option gss_container_id (tas_grading_sandbox state)) \<union>
     ess_container_id ` set (tas_ephemerals state)"
proof -
  have f: "set (foldl (\<lambda>ids e. push_new ids (ess_container_id e)) ids es) = set ids \<union> ess_container_id ` set es" for ids es
    by (induction es arbitrary: ids) auto
  show ?thesis
    by (cases "tas_task_sandbox state"; cases "tas_grading_sandbox state")
      (auto simp: trial_attempt_container_ids_def Let_def f)
qed

text \<open>The retry loop, when failed attempts leave the state as it was.\<close>

lemma retry_sqlite_busy_until:
  assumes "\<And>k. start \<le> k \<Longrightarrow> k < n \<Longrightarrow> \<exists>e. operation k s = (Err e, s) \<and> is_sqlite_busy_error e"
    and "start \<le> n" "n \<le> SQLITE_BUSY_RETRY_ATTEMPTS" "operation n s = (r, t)"
    and "n = SQLITE_BUSY_RETRY_ATTEMPTS \<or> (\<forall>e. r = Err e \<longrightarrow> \<not> is_sqlite_busy_error e)"
  shows "retry_sqlite_busy operation start s = (r, t)"
  using assms(1,2)
proof (induction "n - start" arbitrary: start)
  case 0
  then have "start = n" using assms(2) by simp
  with assms(4,5) show ?case by (cases r) (auto simp: retry_sqlite_busy.simps [of operation n s])
next
  case (Suc m)
  then have "start < n" by simp
  then obtain e where e: "operation start s = (Err e, s)" "is_sqlite_busy_error e" using Suc.prems(1) [of start] by auto
  have "retry_sqlite_busy operation (start + 1) s = (r, t)"
    using Suc.hyps(2) \<open>start < n\<close> by (intro Suc.hyps(1)) (auto intro: Suc.prems(1))
  with e \<open>start < n\<close> assms(3) show ?case by (simp add: retry_sqlite_busy.simps [of operation start s])
qed

text \<open>One attempt of the upsert.\<close>

lemma upsert_attempt_once:
  "transactional (obind (db_call env trial_id site) (\<lambda>_. omodify f)) w =
     (case te_db env trial_id site of None \<Rightarrow> (Ok (), f w) | Some fault \<Rightarrow> (Err (DbError site fault), w))"
  by (simp add: transactional_def db_call_def op_defs split: option.split)

lemma otry_eq [simp]: "otry m s = (Ok (fst (m s)), snd (m s))"
  by (simp add: otry_def split: prod.split)

lemma docker_calls_grow:
  assumes "remove_docker_container_handles_required env handles w = (r, w')"
  shows "set (tw_docker w) \<subseteq> set (tw_docker w')"
proof -
  have "set (tw_docker w) \<subseteq> set (tw_docker (snd (oforeach handles (\<lambda>h.
      obind (docker_call_op env (KillContainer h)) (\<lambda>_. docker_call_op env (RemoveContainer h))) w)))"
    by (rule oforeach_invariant [where P = "\<lambda>s. set (tw_docker w) \<subseteq> set (tw_docker s)"])
      (auto simp: obind_def docker_call_op_def split: docker_reply.splits)
  with assms show ?thesis
    by (auto simp: remove_docker_container_handles_required_def docker_connect_def obind_def olift_def oreturn_def
        ensure_def split: if_splits)
qed

lemma remove_each_Ok:
  assumes "oforeach handles (\<lambda>h. obind (docker_call_op env (KillContainer h)) (\<lambda>_.
      docker_call_op env (RemoveContainer h))) w = (Ok (), w')"
  shows "set (tw_docker w) \<subseteq> set (tw_docker w') \<and>
    (\<forall>h \<in> set handles. RemoveContainer h \<in> set (tw_docker w') \<or> te_docker env (RemoveContainer h) = DockerNotFound)"
  using assms
proof (induction handles arbitrary: w)
  case (Cons h handles)
  then obtain w1 where 1: "obind (docker_call_op env (KillContainer h)) (\<lambda>_. docker_call_op env (RemoveContainer h)) w =
      (Ok (), w1)" and 2: "oforeach handles (\<lambda>h. obind (docker_call_op env (KillContainer h)) (\<lambda>_.
      docker_call_op env (RemoveContainer h))) w1 = (Ok (), w')"
    by (auto simp: obind_eq_Ok)
  from 1 have "set (tw_docker w) \<subseteq> set (tw_docker w1)"
      "RemoveContainer h \<in> set (tw_docker w1) \<or> te_docker env (RemoveContainer h) = DockerNotFound"
    by (auto simp: obind_eq_Ok docker_call_op_def split: docker_reply.splits)
  with Cons.IH [OF 2] show ?case by auto
qed (simp add: oreturn_def)

lemma remove_containers_Ok:
  assumes "remove_docker_container_handles_required env handles w = (Ok (), w')" "h \<in> set handles"
  shows "RemoveContainer h \<in> set (tw_docker w') \<or> te_docker env (RemoveContainer h) = DockerNotFound"
proof -
  have "oforeach handles (\<lambda>h. obind (docker_call_op env (KillContainer h)) (\<lambda>_.
      docker_call_op env (RemoveContainer h))) w = (Ok (), w')"
    using assms by (auto simp: remove_docker_container_handles_required_def docker_connect_def obind_def olift_def
        ensure_def split: if_splits)
  from remove_each_Ok [OF this] assms(2) show ?thesis by blast
qed

lemma remove_networks_grow:
  assumes "remove_docker_network_handles_required env handles w = (r, w')"
  shows "set (tw_docker w) \<subseteq> set (tw_docker w')"
proof -
  have "set (tw_docker w) \<subseteq> set (tw_docker (snd (oforeach handles (\<lambda>h. docker_call_op env (RemoveNetwork h)) w)))"
    by (rule oforeach_invariant [where P = "\<lambda>s. set (tw_docker w) \<subseteq> set (tw_docker s)"])
      (auto simp: docker_call_op_def split: docker_reply.splits)
  with assms show ?thesis
    by (auto simp: remove_docker_network_handles_required_def docker_connect_def obind_def olift_def oreturn_def
        ensure_def split: if_splits)
qed

text \<open>Reads leave the world alone.\<close>

lemma trial_reads:
  "snd (db_call env t site w) = w" "snd (load_db_container_ids env run_id t w) = w"
  "snd (load_latest_trial_attempt env run_id t w) = w" "snd (load_trial_attempt_state env t w) = w"
  "snd (load_trial_attempt_container_ids env t w) = w" "snd (file_network_handles env t w) = w"
  "snd (docker_list env reply w) = w" "snd (db_handles_if_needed env run_id t handles w) = w"
  "snd (active_state_known env run_id t w) = w"
  by (auto simp: db_call_def load_db_container_ids_def load_latest_trial_attempt_def load_trial_attempt_state_def
      load_trial_attempt_container_ids_def file_network_handles_def docker_list_def docker_connect_def
      db_handles_if_needed_def active_state_known_def file_call_def op_defs split: option.splits sum.splits)

lemma obind_read:
  "snd (m s) = s \<Longrightarrow> obind m f s = (case fst (m s) of Inl e \<Rightarrow> (Inl e, s) | Inr x \<Rightarrow> f x s)"
  by (cases "m s") (simp add: obind_def)

lemma obind_oreturn: "obind (oreturn x) f = f x"
  by (rule ext) (simp add: op_defs)

text \<open>What a successful cleanup gathered before it removed anything.\<close>

lemma cleanup_Ok:
  assumes "cleanup_local_docker_attempt_runtime env run_id trial_id w = (Ok n, w')"
  shows "\<exists>ids handles lookup labeled. load_trial_attempt_container_ids env trial_id w = (Ok ids, w) \<and>
    db_handles_if_needed env run_id trial_id ids w = (Ok (handles, lookup), w) \<and>
    te_labeled_containers env (Some trial_id) True = Some labeled \<and>
    (handles @ labeled \<noteq> [] \<longrightarrow> n = length (dedupe_handles (handles @ labeled)) \<and>
      (\<exists>w1. remove_docker_container_handles_required env (dedupe_handles (handles @ labeled)) w = (Ok (), w1) \<and>
        set (tw_docker w1) \<subseteq> set (tw_docker w')))"
proof -
  note reads = obind_read [OF trial_reads(5)] obind_read [OF trial_reads(6)] obind_read [OF trial_reads(7)]
    obind_read [OF trial_reads(8)] obind_read [OF trial_reads(9)]
  obtain ids where ids: "fst (load_trial_attempt_container_ids env trial_id w) = Ok ids"
    using assms by (auto simp: cleanup_local_docker_attempt_runtime_def reads split: sum.splits)
  obtain networks where networks: "fst (file_network_handles env trial_id w) = Ok networks"
    using assms ids by (auto simp: cleanup_local_docker_attempt_runtime_def reads split: sum.splits)
  obtain handles lookup where handles: "fst (db_handles_if_needed env run_id trial_id ids w) = Ok (handles, lookup)"
    using assms ids networks by (auto simp: cleanup_local_docker_attempt_runtime_def reads split: sum.splits)
  obtain labeled where labeled: "fst (docker_list env (te_labeled_containers env (Some trial_id) True) w) = Ok labeled"
    using assms ids networks handles by (auto simp: cleanup_local_docker_attempt_runtime_def reads split: sum.splits)
  obtain more where more: "fst (docker_list env (te_labeled_networks env (Some trial_id) True) w) = Ok more"
    using assms ids networks handles labeled
    by (auto simp: cleanup_local_docker_attempt_runtime_def reads split: sum.splits)
  obtain active where active: "fst (active_state_known env run_id trial_id w) = Ok active"
    using assms ids networks handles labeled more
    by (auto simp: cleanup_local_docker_attempt_runtime_def reads split: sum.splits)
  have "n = length (dedupe_handles (handles @ labeled)) \<and>
      (\<exists>w1. remove_docker_container_handles_required env (dedupe_handles (handles @ labeled)) w = (Ok (), w1) \<and>
        set (tw_docker w1) \<subseteq> set (tw_docker w'))" if "handles @ labeled \<noteq> []"
  proof -
    have "obind (remove_docker_container_handles_required env (dedupe_handles (handles @ labeled))) (\<lambda>_.
        obind (remove_docker_network_handles_required env (dedupe_handles (networks @ more))) (\<lambda>_.
        oreturn (length (dedupe_handles (handles @ labeled))))) w = (Ok n, w')"
      using assms ids networks handles labeled more active that
      by (cases "handles = []") (simp_all add: cleanup_local_docker_attempt_runtime_def reads Let_def obind_oreturn)
    then show ?thesis by (auto simp: obind_eq_Ok oreturn_def dest: remove_networks_grow)
  qed
  moreover have "te_labeled_containers env (Some trial_id) True = Some labeled"
    using labeled by (auto simp: docker_list_def docker_connect_def op_defs ensure_def ok_or_eq_Inr split: if_splits sum.splits)
  moreover have "load_trial_attempt_container_ids env trial_id w = (Ok ids, w)"
      "db_handles_if_needed env run_id trial_id ids w = (Ok (handles, lookup), w)"
    by (rule prod_eqI; simp add: ids handles trial_reads)+
  ultimately show ?thesis by blast
qed

text \<open>A successful write of an attempt wrote its rows once, and the row of the attempt is its state.\<close>

lemma retry_sqlite_busy_Ok:
  assumes "\<And>k. (\<exists>e. operation k s = (Err e, s)) \<or> operation k s = (Ok x, t)"
    and "retry_sqlite_busy operation start s = (Ok y, u)"
  shows "y = x \<and> u = t"
  using assms
proof (induction operation start s rule: retry_sqlite_busy.induct)
  case (1 operation attempt s)
  show ?case
  proof (cases "operation attempt s")
    case (Pair r s')
    with "1.prems"(1) [of attempt] have c: "(\<exists>e. r = Err e \<and> s' = s) \<or> r = Ok x \<and> s' = t" by auto
    show ?thesis
    proof (cases r)
      case (Inl e)
      with c have s': "s' = s" by auto
      with "1.prems"(2) Pair Inl have go: "attempt < SQLITE_BUSY_RETRY_ATTEMPTS \<and> is_sqlite_busy_error e"
          "retry_sqlite_busy operation (attempt + 1) s = (Ok y, u)"
        by (auto simp: retry_sqlite_busy.simps [of operation attempt s] split: if_splits)
      show ?thesis
        using "1.IH" [OF Pair [symmetric] Inl go(1)] "1.prems"(1) go(2) by (simp add: s')
    next
      case (Inr z)
      with c "1.prems"(2) Pair show ?thesis by (auto simp: retry_sqlite_busy.simps [of operation attempt s])
    qed
  qed
qed

lemma upsert_trial_attempt_state_Ok:
  assumes "upsert_trial_attempt_state env run_id trial_id state w = (Ok (), w')"
  shows "w' = upsert_attempt_rows run_id trial_id state w"
  using assms unfolding upsert_trial_attempt_state_def
  by (intro conjunct2 [OF retry_sqlite_busy_Ok]) (auto simp: upsert_attempt_once split: option.splits)

definition attempt_record :: "string \<Rightarrow> trial_attempt_state \<Rightarrow> trial_attempt_record" where
  "attempt_record trial_id state =
     \<lparr>tar_trial_id = trial_id, tar_schedule_idx = tak_schedule_idx (tas_key state),
      tar_phase = tas_phase state, tar_state = state\<rparr>"

lemma container_rows_frame [simp]:
  "tw_attempts (upsert_trial_attempt_container run_id trial_id attempt role cid img workdir w) = tw_attempts w"
  "tw_runtime_files (upsert_trial_attempt_container run_id trial_id attempt role cid img workdir w) = tw_runtime_files w"
  "tw_trial_states (upsert_trial_attempt_container run_id trial_id attempt role cid img workdir w) = tw_trial_states w"
  "tw_dirs (upsert_trial_attempt_container run_id trial_id attempt role cid img workdir w) = tw_dirs w"
  "tw_docker (upsert_trial_attempt_container run_id trial_id attempt role cid img workdir w) = tw_docker w"
  by (simp_all add: upsert_trial_attempt_container_def Let_def)

lemma cleanup_rows_frame [simp]:
  "tw_attempts (fold (mark_container_cleanup run_id trial_id attempt) cs w) = tw_attempts w"
  "tw_runtime_files (fold (mark_container_cleanup run_id trial_id attempt) cs w) = tw_runtime_files w"
  "tw_trial_states (fold (mark_container_cleanup run_id trial_id attempt) cs w) = tw_trial_states w"
  "tw_dirs (fold (mark_container_cleanup run_id trial_id attempt) cs w) = tw_dirs w"
  "tw_docker (fold (mark_container_cleanup run_id trial_id attempt) cs w) = tw_docker w"
  by (induction cs arbitrary: w) (simp_all add: mark_container_cleanup_def Let_def split: option.split)

lemma upsert_attempt_rows_frame [simp]:
  "tw_attempts (upsert_attempt_rows run_id trial_id state w) =
     (tw_attempts w)((run_id, trial_id, tak_attempt (tas_key state)) \<mapsto> attempt_record trial_id state)"
  "tw_runtime_files (upsert_attempt_rows run_id trial_id state w) = tw_runtime_files w"
  "tw_trial_states (upsert_attempt_rows run_id trial_id state w) = tw_trial_states w"
  "tw_dirs (upsert_attempt_rows run_id trial_id state w) = tw_dirs w"
  "tw_docker (upsert_attempt_rows run_id trial_id state w) = tw_docker w"
  by (cases "tas_task_sandbox state"; cases "tas_grading_sandbox state";
      simp add: upsert_attempt_rows_def attempt_record_def Let_def)+

text \<open>
  The attempt table of a run: finitely many rows, each under the attempt number its state carries.
\<close>

definition attempts_wf :: "trial_world \<Rightarrow> bool" where
  "attempts_wf w \<longleftrightarrow>
     finite (dom (tw_attempts w)) \<and>
     (\<forall>run_id trial_id a r. tw_attempts w (run_id, trial_id, a) = Some r \<longrightarrow>
        r = attempt_record trial_id (tar_state r) \<and> tak_attempt (tas_key (tar_state r)) = a)"

lemma finite_attempt_numbers: "attempts_wf w \<Longrightarrow> finite (attempt_numbers w run_id trial_id)"
proof -
  assume "attempts_wf w"
  then have "finite (dom (tw_attempts w))" by (simp add: attempts_wf_def)
  then have "finite ((\<lambda>k. snd (snd k)) ` dom (tw_attempts w))" by simp
  moreover have "attempt_numbers w run_id trial_id \<subseteq> (\<lambda>k. snd (snd k)) ` dom (tw_attempts w)"
    by (force simp: attempt_numbers_def)
  ultimately show ?thesis by (rule rev_finite_subset)
qed

lemma latest_attempt_Some:
  assumes "attempts_wf w" "latest_attempt w run_id trial_id = Some r"
  shows "tw_attempts w (run_id, trial_id, tak_attempt (tas_key (tar_state r))) = Some r \<and>
    tak_attempt (tas_key (tar_state r)) = Max (attempt_numbers w run_id trial_id) \<and>
    r = attempt_record trial_id (tar_state r)"
  using assms by (auto simp: latest_attempt_def attempts_wf_def split: if_splits)

text \<open>Rewriting the latest attempt keeps it the latest one.\<close>

lemma latest_attempt_rewrite:
  assumes "attempts_wf w" "latest_attempt w run_id trial_id = Some r" "tas_key state = tas_key (tar_state r)"
    and "tw_attempts w' = (tw_attempts w)((run_id, trial_id, tak_attempt (tas_key state)) \<mapsto> attempt_record trial_id state)"
  shows "latest_attempt w' run_id trial_id = Some (attempt_record trial_id state) \<and> attempts_wf w'"
proof -
  note r = latest_attempt_Some [OF assms(1,2)]
  have same: "attempt_numbers w' run_id trial_id = attempt_numbers w run_id trial_id"
    using r assms(3,4) by (auto simp: attempt_numbers_def split: if_splits)
  have "attempt_numbers w run_id trial_id \<noteq> {}" using assms(2) by (auto simp: latest_attempt_def)
  then have "latest_attempt w' run_id trial_id = Some (attempt_record trial_id state)"
    using r assms(3,4) by (simp add: latest_attempt_def same)
  moreover have "attempts_wf w'"
    using assms(1,4) by (auto simp: attempts_wf_def attempt_record_def)
  ultimately show ?thesis by blast
qed

lemma persist_attempt_state_Ok:
  assumes "persist_attempt_state env run_id trial_id state w = (Ok (), w')"
  shows "w' = upsert_attempt_rows run_id trial_id state
    (w\<lparr>tw_runtime_files := (tw_runtime_files w)(trial_id \<mapsto> state)\<rparr>)"
  using assms upsert_trial_attempt_state_Ok
  by (auto simp: persist_attempt_state_def write_trial_attempt_state_def file_call_def op_defs
      split: if_splits prod.splits sum.splits)

section \<open>Properties\<close>



definition sample_trial_env :: trial_env where
  "sample_trial_env = \<lparr>te_db = (\<lambda>_ _. None), te_file = (\<lambda>_ _. True), te_docker_connect = True,
     te_docker = (\<lambda>_. DockerDone), te_labeled_containers = (\<lambda>_ _. Some []),
     te_labeled_networks = (\<lambda>_ _. Some [])\<rparr>"

definition sample_attempt :: trial_attempt_state where
  "sample_attempt = (new_trial_attempt_state (''trials/trial_1'', ''in'', ''out'') 0 1 (''task'', ''variant'', 0))
     \<lparr>tas_phase := PhAgentRunning,
      tas_task_sandbox := Some \<lparr>tss_container_id = ''c1'', tss_image = ''image'', tss_workdir = ''work'',
        tss_platform = None, tss_materialization = JNull\<rparr>\<rparr>"

definition sample_world :: trial_world where
  "sample_world = \<lparr>tw_attempts = Map.empty, tw_containers = Map.empty, tw_dirs = {''trial_1''},
     tw_runtime_files = [''trial_1'' \<mapsto> sample_attempt], tw_trial_states = Map.empty, tw_docker = []\<rparr>"


end
