(* ===== verification/Schedule.thy ===== *)
theory Schedule
  imports Prelude
begin

text \<open>
  The trial schedule (\<open>lab-runner/src/config.rs\<close>, \<open>experiment/runner.rs\<close>): the slots of an
  experiment, in the order the scheduling policy fixes, with the seeded shuffle of the randomized
  policy on 64-bit words.
\<close>

record trial_slot =
  ts_variant_idx :: nat
  ts_task_idx :: nat
  ts_repl_idx :: nat

datatype SchedulingPolicy = PairedInterleaved | VariantSequential | Randomized

definition mk_slot :: "nat \<Rightarrow> nat \<Rightarrow> nat \<Rightarrow> trial_slot" where
  "mk_slot v t r = \<lparr>ts_variant_idx = v, ts_task_idx = t, ts_repl_idx = r\<rparr>"

text \<open>The three nested loops of each policy; every body pushes one slot.\<close>

definition variant_sequential_slots :: "nat \<Rightarrow> nat \<Rightarrow> nat \<Rightarrow> trial_slot list" where
  "variant_sequential_slots variant_count task_count replications =
     concat (map (\<lambda>v. concat (map (\<lambda>t. map (\<lambda>r. mk_slot v t r) [0..<replications])
       [0..<task_count])) [0..<variant_count])"

definition paired_interleaved_slots :: "nat \<Rightarrow> nat \<Rightarrow> nat \<Rightarrow> trial_slot list" where
  "paired_interleaved_slots variant_count task_count replications =
     concat (map (\<lambda>t. concat (map (\<lambda>r. map (\<lambda>v. mk_slot v t r) [0..<variant_count])
       [0..<replications])) [0..<task_count])"

definition lcg_next :: "u64 \<Rightarrow> u64" where
  "lcg_next rng_state = rng_state * 6364136223846793005 + 1442695040888963407"

definition lcg_sample :: "u64 \<Rightarrow> nat" where
  "lcg_sample rng_state = unat (drop_bit 33 rng_state)"

text \<open>The loop \<open>for i in (1..slots.len()).rev()\<close>; \<open>None\<close> is the panic of an out-of-range swap.\<close>

fun shuffle_loop :: "nat \<Rightarrow> u64 \<Rightarrow> 'a list \<Rightarrow> 'a list option" where
  "shuffle_loop 0 rng_state slots = Some slots"
| "shuffle_loop (Suc i) rng_state slots =
     (let rng_state = lcg_next rng_state;
          sample = lcg_sample rng_state;
          j = sample mod (Suc i + 1)
      in case vec_swap slots (Suc i) j of
           None \<Rightarrow> None
         | Some slots \<Rightarrow> shuffle_loop i rng_state slots)"

definition build_trial_schedule ::
  "nat \<Rightarrow> nat \<Rightarrow> nat \<Rightarrow> SchedulingPolicy \<Rightarrow> u64 \<Rightarrow> trial_slot list option" where
  "build_trial_schedule variant_count task_count replications policy random_seed =
     (case policy of
        VariantSequential \<Rightarrow>
          Some (variant_sequential_slots variant_count task_count replications)
      | PairedInterleaved \<Rightarrow>
          Some (paired_interleaved_slots variant_count task_count replications)
      | Randomized \<Rightarrow>
          (let slots = variant_sequential_slots variant_count task_count replications
           in shuffle_loop (length slots - 1) random_seed slots))"

datatype schedule_error = SmokeTestRequiresTask | SchedulePanic

definition build_schedule_for_run_behavior ::
  "bool \<Rightarrow> nat \<Rightarrow> nat \<Rightarrow> nat \<Rightarrow> SchedulingPolicy \<Rightarrow> u64 \<Rightarrow>
   (schedule_error, trial_slot list) result" where
  "build_schedule_for_run_behavior smoke_test variant_count task_count replications scheduling random_seed =
     (if smoke_test then
        (if task_count = 0 then Err SmokeTestRequiresTask
         else Ok (map (\<lambda>variant_idx. mk_slot variant_idx 0 0) [0..<variant_count]))
      else ok_or SchedulePanic
        (build_trial_schedule variant_count task_count replications scheduling random_seed))"

section \<open>Properties\<close>

lemma mk_slot_inject [simp]: "mk_slot v t r = mk_slot v' t' r' \<longleftrightarrow> v = v' \<and> t = t' \<and> r = r'"
  by (simp add: mk_slot_def)

lemma mk_slot_sel [simp]:
  "ts_variant_idx (mk_slot v t r) = v" "ts_task_idx (mk_slot v t r) = t"
  "ts_repl_idx (mk_slot v t r) = r"
  by (simp_all add: mk_slot_def)

text \<open>The slots of the experiment matrix.\<close>

definition matrix_slots :: "nat \<Rightarrow> nat \<Rightarrow> nat \<Rightarrow> trial_slot set" where
  "matrix_slots V T R = {mk_slot v t r | v t r. v < V \<and> t < T \<and> r < R}"

lemma set_variant_sequential_slots: "set (variant_sequential_slots V T R) = matrix_slots V T R"
  by (fastforce simp: variant_sequential_slots_def matrix_slots_def)

lemma set_paired_interleaved_slots: "set (paired_interleaved_slots V T R) = matrix_slots V T R"
  by (fastforce simp: paired_interleaved_slots_def matrix_slots_def)

text \<open>Lists of equally long blocks.\<close>

lemma length_concat_blocks:
  "(\<And>i. i < n \<Longrightarrow> length (f i) = k) \<Longrightarrow> length (concat (map f [0..<n])) = n * k"
  by (induction n) simp_all

lemma distinct_concat_blocks:
  assumes "\<And>i. i < n \<Longrightarrow> distinct (f i)"
    and "\<And>i j. i < n \<Longrightarrow> j < n \<Longrightarrow> i \<noteq> j \<Longrightarrow> set (f i) \<inter> set (f j) = {}"
  shows "distinct (concat (map f [0..<n]))"
  using assms by (induction n) (fastforce simp: less_Suc_eq)+

lemma length_variant_sequential_slots: "length (variant_sequential_slots V T R) = V * T * R"
  unfolding variant_sequential_slots_def
  by (subst length_concat_blocks [where k = "T * R"])
    (simp_all add: length_concat_blocks [where k = R])

lemma length_paired_interleaved_slots: "length (paired_interleaved_slots V T R) = V * T * R"
  unfolding paired_interleaved_slots_def
  by (subst length_concat_blocks [where k = "R * V"])
    (simp_all add: length_concat_blocks [where k = V])

lemma distinct_variant_sequential_slots: "distinct (variant_sequential_slots V T R)"
  unfolding variant_sequential_slots_def
  by (intro distinct_concat_blocks) (auto simp: distinct_map inj_on_def)

lemma distinct_paired_interleaved_slots: "distinct (paired_interleaved_slots V T R)"
  unfolding paired_interleaved_slots_def
  by (intro distinct_concat_blocks) (auto simp: distinct_map inj_on_def)

text \<open>The shuffle never swaps out of range and only permutes.\<close>

lemma lcg_sample_31_bits: "lcg_sample rng < 2 ^ 31"
proof -
  have "unat rng < 2 ^ 64" using unsigned_less [of rng, where 'a = nat] by simp
  then show ?thesis by (simp add: lcg_sample_def drop_bit_eq_div unat_div less_mult_imp_div_less)
qed

lemma shuffle_loop_permutes:
  "i < length xs \<or> i = 0 \<Longrightarrow>
   \<exists>ys. shuffle_loop i rng xs = Some ys \<and> mset ys = mset xs \<and> length ys = length xs"
proof (induction i arbitrary: rng xs)
  case (Suc i)
  let ?rng = "lcg_next rng" and ?j = "lcg_sample (lcg_next rng) mod (Suc i + 1)"
  have "?j < Suc i + 1" by (rule mod_less_divisor) simp
  with Suc.prems have "Suc i < length xs" "?j < length xs" by linarith+
  then obtain zs where zs: "vec_swap xs (Suc i) ?j = Some zs" "mset zs = mset xs"
      "length zs = length xs"
    using vec_swap_Some by blast
  with Suc.prems have "i < length zs \<or> i = 0" by auto
  from Suc.IH [OF this, of ?rng] zs show ?case by (simp add: Let_def)
qed simp

lemma build_trial_schedule_Some:
  "\<exists>slots. build_trial_schedule V T R policy seed = Some slots \<and>
     mset slots = mset (variant_sequential_slots V T R)"
proof (cases policy)
  case PairedInterleaved
  have "mset (paired_interleaved_slots V T R) = mset (variant_sequential_slots V T R)"
    by (simp add: set_eq_iff_mset_eq_distinct [symmetric] distinct_variant_sequential_slots
      distinct_paired_interleaved_slots set_variant_sequential_slots set_paired_interleaved_slots)
  with PairedInterleaved show ?thesis by (simp add: build_trial_schedule_def)
next
  case Randomized
  let ?xs = "variant_sequential_slots V T R"
  have "length ?xs - 1 < length ?xs \<or> length ?xs - 1 = 0" by linarith
  from shuffle_loop_permutes [OF this, of seed] Randomized show ?thesis
    by (auto simp: build_trial_schedule_def Let_def)
qed (simp add: build_trial_schedule_def)

text \<open>
  C5: Under every scheduling policy and every seed the schedule is built without a panic, and it
  holds each (variant, task, replication) triple of the experiment matrix exactly once.
\<close>

theorem build_trial_schedule_complete:
  "\<exists>slots. build_trial_schedule V T R policy seed = Some slots \<and> distinct slots \<and>
     set slots = matrix_slots V T R \<and> length slots = V * T * R"
proof -
  obtain slots where s: "build_trial_schedule V T R policy seed = Some slots"
      and m: "mset slots = mset (variant_sequential_slots V T R)"
    using build_trial_schedule_Some by blast
  from m have "set slots = matrix_slots V T R" "length slots = V * T * R" "distinct slots"
    using mset_eq_setD [OF m] mset_eq_length [OF m] mset_eq_imp_distinct_iff [OF m]
    by (simp_all add: set_variant_sequential_slots length_variant_sequential_slots
      distinct_variant_sequential_slots)
  with s show ?thesis by blast
qed

lemma concat_blocks_map:
  "concat (map (\<lambda>a. map (g a) [0..<k]) [0..<n]) = map (\<lambda>i. g (i div k) (i mod k)) [0..<n * k]"
proof (induction n)
  case (Suc n)
  have "[0..<Suc n * k] = [0..<n * k] @ map (\<lambda>j. n * k + j) [0..<k]"
    by (rule nth_equalityI) (auto simp: nth_append)
  then show ?case using Suc by simp
qed simp

lemma nested_blocks_map:
  "concat (map (\<lambda>a. concat (map (\<lambda>b. map (g a b) [0..<k]) [0..<m])) [0..<n]) =
   map (\<lambda>i. g (i div (k * m)) (i div k mod m) (i mod k)) [0..<n * (k * m)]"
proof -
  have digit: "i mod (k * m) div k = i div k mod m" for i
    by (cases "k = 0") (simp_all add: mod_mult2_eq)
  have "concat (map (\<lambda>a. concat (map (\<lambda>b. map (g a b) [0..<k]) [0..<m])) [0..<n]) =
      map (\<lambda>i. g (i div (m * k)) (i mod (m * k) div k) (i mod (m * k) mod k)) [0..<n * (m * k)]"
    by (simp only: concat_blocks_map)
  then show ?thesis by (simp add: digit mod_mod_cancel mult.commute [of m])
qed

text \<open>
  C6: The nested loops of the two fixed policies are index arithmetic: slot \<open>i\<close> of the paired-interleaved schedule is the
  number \<open>i\<close> written with the digits task, replication, variant, so that all variants of one task and replication stand
  next to each other; the variant-sequential schedule has the digits variant, task, replication.
\<close>

theorem schedule_closed_form:
  "build_trial_schedule V T R PairedInterleaved seed =
     Some (map (\<lambda>i. mk_slot (i mod V) (i div (V * R)) (i div V mod R)) [0..<T * (V * R)]) \<and>
   build_trial_schedule V T R VariantSequential seed =
     Some (map (\<lambda>i. mk_slot (i div (R * T)) (i div R mod T) (i mod R)) [0..<V * (R * T)])"
  unfolding build_trial_schedule_def paired_interleaved_slots_def variant_sequential_slots_def
  by (simp only: nested_blocks_map SchedulingPolicy.case simp_thms)

text \<open>
  A smoke test runs every variant once, on task 0 and replication 0, and is refused exactly
  when there is no task; a normal run never fails to build its schedule.
\<close>

lemma build_schedule_for_run_behavior_spec:
  "build_schedule_for_run_behavior True V T R policy seed =
     (if T = 0 then Err SmokeTestRequiresTask else Ok (map (\<lambda>v. mk_slot v 0 0) [0..<V])) \<and>
   (\<exists>slots. build_schedule_for_run_behavior False V T R policy seed = Ok slots \<and>
     set slots = matrix_slots V T R)"
proof -
  obtain slots where "build_trial_schedule V T R policy seed = Some slots"
      and "set slots = matrix_slots V T R"
    using build_trial_schedule_Some mset_eq_setD set_variant_sequential_slots by metis
  then show ?thesis by (simp add: build_schedule_for_run_behavior_def)
qed

end
