(* ===== verification/Run_State.thy ===== *)
theory Run_State
  imports Schedule
begin

text \<open>
  The persisted run state (\<open>lab-runner/src/experiment/state.rs\<close>, parts of \<open>model.rs\<close>): execution
  options, slot completions, schedule progress and the slot commit journal records, with the
  operations that normalise, validate and index them. Time stamps are arguments (the clock is
  outside the model). A run directory only appears in error messages of these operations and is
  left out of them.
\<close>

section \<open>Execution options\<close>

datatype ExecutorKind = LocalDocker | Modal | Remote

datatype MaterializationMode = MatNone | MatMetadataOnly | MatOutputsOnly | MatFull

fun executor_kind_as_str :: "ExecutorKind \<Rightarrow> string" where
  "executor_kind_as_str LocalDocker = ''local_docker''"
| "executor_kind_as_str Modal = ''modal''"
| "executor_kind_as_str Remote = ''remote''"

fun materialization_mode_as_str :: "MaterializationMode \<Rightarrow> string" where
  "materialization_mode_as_str MatNone = ''none''"
| "materialization_mode_as_str MatMetadataOnly = ''metadata_only''"
| "materialization_mode_as_str MatOutputsOnly = ''outputs_only''"
| "materialization_mode_as_str MatFull = ''full''"

record run_execution_options =
  reo_executor :: "ExecutorKind option"
  reo_materialize :: "MaterializationMode option"
  reo_run_root :: "string option"
  reo_runtime_env :: "(string, string) btree"
  reo_runtime_env_files :: "string list"
  reo_secret_files :: "(string, string) btree"
  reo_stdout_progress :: bool

datatype state_error =
    UnknownComputeBackend string
  | SessionExecutorRequired
  | ExecutorRequired
  | NoRemoteExecutor string
  | SlotCommitIdMissing nat string
  | ProgressNotFound
  | UnsupportedProgressSchema string

definition resolved_materialization_mode :: "run_execution_options \<Rightarrow> MaterializationMode" where
  "resolved_materialization_mode execution =
     (case reo_materialize execution of None \<Rightarrow> MatOutputsOnly | Some m \<Rightarrow> m)"

definition normalize_execution_options :: "run_execution_options \<Rightarrow> run_execution_options" where
  "normalize_execution_options execution =
     \<lparr>reo_executor = reo_executor execution,
      reo_materialize = Some (resolved_materialization_mode execution),
      reo_run_root = reo_run_root execution,
      reo_runtime_env = reo_runtime_env execution,
      reo_runtime_env_files = reo_runtime_env_files execution,
      reo_secret_files = reo_secret_files execution,
      reo_stdout_progress = reo_stdout_progress execution\<rparr>"

definition executor_kind_from_compute_backend :: "string \<Rightarrow> (state_error, ExecutorKind) result" where
  "executor_kind_from_compute_backend backend =
     (if backend = ''local-docker'' then Ok LocalDocker
      else if backend = ''modal'' then Ok Modal
      else Err (UnknownComputeBackend backend))"

definition execution_options_for_session_state ::
  "run_execution_options \<Rightarrow> (state_error, run_execution_options) result" where
  "execution_options_for_session_state execution =
     rbind (ok_or SessionExecutorRequired (reo_executor execution)) (\<lambda>executor.
     Ok \<lparr>reo_executor = Some executor,
         reo_materialize = Some (resolved_materialization_mode execution),
         reo_run_root = None,
         reo_runtime_env = [],
         reo_runtime_env_files = [],
         reo_secret_files = [],
         reo_stdout_progress = False\<rparr>)"

definition resolved_executor_kind :: "run_execution_options \<Rightarrow> (state_error, ExecutorKind) result" where
  "resolved_executor_kind execution = ok_or ExecutorRequired (reo_executor execution)"

definition ensure_supported_executor :: "run_execution_options \<Rightarrow> (state_error, ExecutorKind) result" where
  "ensure_supported_executor execution =
     rbind (resolved_executor_kind execution) (\<lambda>executor.
     case executor of
       Remote \<Rightarrow> Err (NoRemoteExecutor (executor_kind_as_str executor))
     | _ \<Rightarrow> Ok executor)"

section \<open>Slot completions and schedule progress\<close>

record slot_commit_row_counts =
  rc_trials :: nat
  rc_metrics :: nat
  rc_events :: nat
  rc_contract_stages :: nat
  rc_variant_snapshots :: nat
  rc_evidence :: nat
  rc_chain_states :: nat
  rc_conclusions :: nat
  rc_predictions :: nat
  rc_scores :: nat

record slot_commit_record =
  scr_schema_version :: string
  scr_record_type :: string
  scr_run_id :: string
  scr_schedule_idx :: nat
  scr_slot_commit_id :: string
  scr_trial_id :: string
  scr_slot_status :: string
  scr_attempt :: nat
  scr_recorded_at :: string
  scr_expected_rows :: "slot_commit_row_counts option"
  scr_payload_digest :: "string option"
  scr_written_rows :: "slot_commit_row_counts option"
  scr_facts_fsync_completed :: "bool option"
  scr_runtime_fsync_completed :: "bool option"

record slot_completion =
  sc_schedule_index :: nat
  sc_trial_id :: string
  sc_status :: string
  sc_slot_commit_id :: string
  sc_attempt :: nat

record schedule_progress =
  sp_schema_version :: string
  sp_run_id :: string
  sp_total_slots :: nat
  sp_next_schedule_index :: nat
  sp_next_trial_index :: nat
  sp_schedule :: "trial_slot list"
  sp_completed_slots :: "slot_completion list"
  sp_pruned_variants :: "nat list"
  sp_consecutive_failures :: "(nat, nat) btree"
  sp_updated_at :: string

definition new_schedule_progress :: "string \<Rightarrow> trial_slot list \<Rightarrow> string \<Rightarrow> schedule_progress" where
  "new_schedule_progress run_id schedule now =
     \<lparr>sp_schema_version = ''schedule_progress_v2'',
      sp_run_id = run_id,
      sp_total_slots = length schedule,
      sp_next_schedule_index = 0,
      sp_next_trial_index = 0,
      sp_schedule = schedule,
      sp_completed_slots = [],
      sp_pruned_variants = [],
      sp_consecutive_failures = [],
      sp_updated_at = now\<rparr>"

definition normalize_schedule_progress :: "schedule_progress \<Rightarrow> schedule_progress" where
  "normalize_schedule_progress progress =
     progress\<lparr>sp_schema_version := ''schedule_progress_v2'',
       sp_completed_slots :=
         map (\<lambda>slot. if sc_attempt slot = 0 then slot\<lparr>sc_attempt := 1\<rparr> else slot)
           (sp_completed_slots progress)\<rparr>"

fun validate_completed_slots :: "slot_completion list \<Rightarrow> (state_error, unit) result" where
  "validate_completed_slots [] = Ok ()"
| "validate_completed_slots (slot # slots) =
     (if trim (sc_slot_commit_id slot) = []
      then Err (SlotCommitIdMissing (sc_schedule_index slot) (sc_trial_id slot))
      else validate_completed_slots slots)"

definition validate_schedule_progress :: "schedule_progress \<Rightarrow> (state_error, unit) result" where
  "validate_schedule_progress progress = validate_completed_slots (sp_completed_slots progress)"

text \<open>The runtime store holds at most one schedule progress value per run.\<close>

definition load_schedule_progress ::
  "schedule_progress option \<Rightarrow> (state_error, schedule_progress) result" where
  "load_schedule_progress stored =
     rbind (ok_or ProgressNotFound stored) (\<lambda>progress.
     rbind (ensure (sp_schema_version progress = ''schedule_progress_v2'')
             (UnsupportedProgressSchema (sp_schema_version progress))) (\<lambda>_.
     let progress = normalize_schedule_progress progress in
     rbind (validate_schedule_progress progress) (\<lambda>_. Ok progress)))"

definition write_schedule_progress ::
  "schedule_progress \<Rightarrow> (state_error, schedule_progress option) result" where
  "write_schedule_progress progress =
     (let next = normalize_schedule_progress progress in
      rbind (validate_schedule_progress next) (\<lambda>_. Ok (Some next)))"

section \<open>The commit journal\<close>

text \<open>\<open>entry(i).or_insert(0)\<close>, raised to \<open>a\<close> when \<open>a\<close> is larger.\<close>

definition attempt_of :: "(nat \<rightharpoonup> nat) \<Rightarrow> nat \<Rightarrow> nat" where
  "attempt_of m i = (case m i of None \<Rightarrow> 0 | Some a \<Rightarrow> a)"

definition raise_attempt :: "nat \<Rightarrow> nat \<Rightarrow> (nat \<rightharpoonup> nat) \<Rightarrow> (nat \<rightharpoonup> nat)" where
  "raise_attempt i a m =
     (let entry = attempt_of m i in m(i \<mapsto> (if a > entry then a else entry)))"

definition highest_attempt_by_schedule :: "slot_commit_record list \<Rightarrow> (nat \<rightharpoonup> nat)" where
  "highest_attempt_by_schedule records =
     fold (\<lambda>record. raise_attempt (scr_schedule_idx record) (scr_attempt record)) records Map.empty"

definition commit_record_by_schedule ::
  "slot_commit_record list \<Rightarrow> (nat, slot_commit_record) btree" where
  "commit_record_by_schedule records =
     foldl (\<lambda>by_schedule record.
       if scr_record_type record = ''commit''
       then bt_insert (scr_schedule_idx record) record by_schedule
       else by_schedule)
       [] records"

section \<open>Lemmas\<close>

lemma validate_completed_slots_Ok:
  "validate_completed_slots slots = Ok u \<longleftrightarrow> (\<forall>slot \<in> set slots. trim (sc_slot_commit_id slot) \<noteq> [])"
  by (induction slots) auto

lemma normalize_schedule_progress_idem [simp]:
  "normalize_schedule_progress (normalize_schedule_progress p) = normalize_schedule_progress p"
  by (simp add: normalize_schedule_progress_def)

lemma normalize_schedule_progress_frame [simp]:
  "sp_run_id (normalize_schedule_progress p) = sp_run_id p"
  "sp_total_slots (normalize_schedule_progress p) = sp_total_slots p"
  "sp_next_schedule_index (normalize_schedule_progress p) = sp_next_schedule_index p"
  "sp_next_trial_index (normalize_schedule_progress p) = sp_next_trial_index p"
  "sp_schedule (normalize_schedule_progress p) = sp_schedule p"
  "sp_pruned_variants (normalize_schedule_progress p) = sp_pruned_variants p"
  "sp_consecutive_failures (normalize_schedule_progress p) = sp_consecutive_failures p"
  "sp_updated_at (normalize_schedule_progress p) = sp_updated_at p"
  by (simp_all add: normalize_schedule_progress_def)

lemma normalize_completed_slots_index [simp]:
  "map sc_schedule_index (sp_completed_slots (normalize_schedule_progress p)) =
   map sc_schedule_index (sp_completed_slots p)"
  by (simp add: normalize_schedule_progress_def)

lemma normalize_completed_slots_commit_id [simp]:
  "map sc_slot_commit_id (sp_completed_slots (normalize_schedule_progress p)) =
   map sc_slot_commit_id (sp_completed_slots p)"
  by (simp add: normalize_schedule_progress_def)

lemma normalize_completed_slots_attempt:
  "slot \<in> set (sp_completed_slots (normalize_schedule_progress p)) \<Longrightarrow> 1 \<le> sc_attempt slot"
  by (auto simp: normalize_schedule_progress_def)

text \<open>The journal indices, as folds over the records that count.\<close>

lemma commit_record_by_schedule_fold:
  "commit_record_by_schedule records =
   fold (\<lambda>record. bt_insert (scr_schedule_idx record) record)
     (filter (\<lambda>record. scr_record_type record = ''commit'') records) []"
proof -
  have "foldl (\<lambda>m record. if scr_record_type record = ''commit''
            then bt_insert (scr_schedule_idx record) record m else m) m records =
        fold (\<lambda>record. bt_insert (scr_schedule_idx record) record)
          (filter (\<lambda>record. scr_record_type record = ''commit'') records) m" for m
    by (induction records arbitrary: m) simp_all
  then show ?thesis by (simp add: commit_record_by_schedule_def)
qed

lemma commit_record_by_schedule_wf: "bt_wf (commit_record_by_schedule records)"
  by (simp add: commit_record_by_schedule_fold bt.wf_fold_insert)

lemma dom_commit_record_by_schedule:
  "dom (bt_get (commit_record_by_schedule records)) =
   scr_schedule_idx ` {r \<in> set records. scr_record_type r = ''commit''}"
  by (simp add: commit_record_by_schedule_fold bt.dom_fold_insert)

lemma commit_record_by_schedule_Some:
  assumes "bt_get (commit_record_by_schedule records) i = Some r"
  shows "r \<in> set records \<and> scr_record_type r = ''commit'' \<and> scr_schedule_idx r = i"
proof -
  have "bt_get [] i = Some r \<or>
      (\<exists>x \<in> set (filter (\<lambda>record. scr_record_type record = ''commit'') records).
        scr_schedule_idx x = i \<and> x = r)"
    by (rule bt.get_fold_insert_Some [where g = "\<lambda>r. r"])
      (use assms in \<open>simp add: commit_record_by_schedule_fold\<close>)
  then show ?thesis by auto
qed

lemma attempt_of_raise [simp]:
  "attempt_of (raise_attempt i a m) j = (if j = i then max (attempt_of m i) a else attempt_of m j)"
  by (simp add: raise_attempt_def attempt_of_def Let_def)

lemma attempt_of_upd [simp]:
  "attempt_of (m(i \<mapsto> a)) j = (if j = i then a else attempt_of m j)"
  by (simp add: attempt_of_def)

lemma attempt_of_empty [simp]: "attempt_of Map.empty i = 0"
  by (simp add: attempt_of_def)

lemma attempt_of_fold_raise:
  "attempt_of (fold (\<lambda>x. raise_attempt (f x) (g x)) xs m) i =
   Max (insert (attempt_of m i) (g ` {x \<in> set xs. f x = i}))"
proof (induction xs arbitrary: m)
  case (Cons x xs)
  have "{y \<in> set (x # xs). f y = i} =
      (if f x = i then insert x {y \<in> set xs. f y = i} else {y \<in> set xs. f y = i})" by auto
  with Cons show ?case by (simp add: Max_insert_max)
qed simp

text \<open>The highest attempt is the largest recorded one.\<close>

lemma attempt_of_highest:
  "attempt_of (highest_attempt_by_schedule records) i =
   Max (insert 0 (scr_attempt ` {r \<in> set records. scr_schedule_idx r = i}))"
  by (simp add: highest_attempt_by_schedule_def attempt_of_fold_raise)

lemma attempt_of_fold_raise_ge:
  "attempt_of m i \<le> attempt_of (fold (\<lambda>x. raise_attempt (f x) (g x)) xs m) i"
  "x \<in> set xs \<Longrightarrow> f x = i \<Longrightarrow> g x \<le> attempt_of (fold (\<lambda>x. raise_attempt (f x) (g x)) xs m) i"
  by (auto simp: attempt_of_fold_raise intro!: Max_ge)

end
