(* ===== verification/Rows.thy ===== *)
theory Rows
  imports Run_State Json
begin

text \<open>
  The durable rows of a trial (\<open>lab-runner/src/persistence/rows.rs\<close>), the result a worker hands to
  the committer (\<open>model.rs\<close>) and the way \<open>experiment/commit.rs\<close> stamps the rows with the identity
  of the slot commit. The five typed rows share their identity columns: each is an extension of
  \<open>slot_row\<close>.
\<close>

section \<open>Typed rows\<close>

record slot_row =
  sr_run_id :: string
  sr_trial_id :: string
  sr_schedule_idx :: nat
  sr_slot_commit_id :: string
  sr_attempt :: nat
  sr_row_seq :: nat

record trial_record = slot_row +
  tr_baseline_id :: string
  tr_workload_type :: string
  tr_variant_id :: string
  tr_task_index :: nat
  tr_task_id :: string
  tr_repl_idx :: nat
  tr_outcome :: string
  tr_success :: bool
  tr_status_code :: string
  tr_integration_level :: string
  tr_network_mode_requested :: string
  tr_network_mode_effective :: string
  tr_primary_metric_name :: string
  tr_primary_metric_value :: json
  tr_metrics :: json
  tr_bindings :: json
  tr_events_total :: nat
  tr_has_events :: bool

record metric_row = slot_row +
  mr_variant_id :: string
  mr_task_id :: string
  mr_repl_idx :: nat
  mr_outcome :: string
  mr_metric_name :: string
  mr_metric_value :: json
  mr_metric_source :: "string option"

record event_row = slot_row +
  er_variant_id :: string
  er_task_id :: string
  er_repl_idx :: nat
  er_seq :: nat
  er_event_type :: string
  er_ts :: "string option"
  er_payload :: json

record contract_stage_row = slot_row +
  cs_variant_id :: string
  cs_task_id :: string
  cs_repl_idx :: nat
  cs_stage :: string
  cs_status :: string
  cs_recorded_at :: string
  cs_detail :: json

record variant_snapshot_row = slot_row +
  vs_variant_id :: string
  vs_baseline_id :: string
  vs_task_id :: string
  vs_repl_idx :: nat
  vs_binding_name :: string
  vs_binding_value :: json
  vs_binding_value_text :: string

text \<open>The derived serialisers; an absent \<open>Option\<close> field marked \<open>skip_serializing_if\<close> is left out.\<close>

definition slot_row_fields :: "'a slot_row_scheme \<Rightarrow> (string \<times> json) list" where
  "slot_row_fields r =
     [(''run_id'', JString (sr_run_id r)), (''trial_id'', JString (sr_trial_id r)),
      (''schedule_idx'', jnat (sr_schedule_idx r)),
      (''slot_commit_id'', JString (sr_slot_commit_id r)), (''attempt'', jnat (sr_attempt r)),
      (''row_seq'', jnat (sr_row_seq r))]"

definition optional_field :: "string \<Rightarrow> string option \<Rightarrow> (string \<times> json) list" where
  "optional_field k v = (case v of None \<Rightarrow> [] | Some s \<Rightarrow> [(k, JString s)])"

definition trial_record_json :: "trial_record \<Rightarrow> json" where
  "trial_record_json r = json_object (slot_row_fields r @
     [(''baseline_id'', JString (tr_baseline_id r)),
      (''workload_type'', JString (tr_workload_type r)),
      (''variant_id'', JString (tr_variant_id r)),
      (''task_index'', jnat (tr_task_index r)),
      (''task_id'', JString (tr_task_id r)),
      (''repl_idx'', jnat (tr_repl_idx r)),
      (''outcome'', JString (tr_outcome r)),
      (''success'', JBool (tr_success r)),
      (''status_code'', JString (tr_status_code r)),
      (''integration_level'', JString (tr_integration_level r)),
      (''network_mode_requested'', JString (tr_network_mode_requested r)),
      (''network_mode_effective'', JString (tr_network_mode_effective r)),
      (''primary_metric_name'', JString (tr_primary_metric_name r)),
      (''primary_metric_value'', tr_primary_metric_value r),
      (''metrics'', tr_metrics r),
      (''bindings'', tr_bindings r),
      (''events_total'', jnat (tr_events_total r)),
      (''has_events'', JBool (tr_has_events r))])"

definition metric_row_json :: "metric_row \<Rightarrow> json" where
  "metric_row_json r = json_object (slot_row_fields r @
     [(''variant_id'', JString (mr_variant_id r)),
      (''task_id'', JString (mr_task_id r)),
      (''repl_idx'', jnat (mr_repl_idx r)),
      (''outcome'', JString (mr_outcome r)),
      (''metric_name'', JString (mr_metric_name r)),
      (''metric_value'', mr_metric_value r)] @
     optional_field ''metric_source'' (mr_metric_source r))"

definition event_row_json :: "event_row \<Rightarrow> json" where
  "event_row_json r = json_object (slot_row_fields r @
     [(''variant_id'', JString (er_variant_id r)),
      (''task_id'', JString (er_task_id r)),
      (''repl_idx'', jnat (er_repl_idx r)),
      (''seq'', jnat (er_seq r)),
      (''event_type'', JString (er_event_type r))] @
     optional_field ''ts'' (er_ts r) @
     [(''payload'', er_payload r)])"

definition contract_stage_row_json :: "contract_stage_row \<Rightarrow> json" where
  "contract_stage_row_json r = json_object (slot_row_fields r @
     [(''variant_id'', JString (cs_variant_id r)),
      (''task_id'', JString (cs_task_id r)),
      (''repl_idx'', jnat (cs_repl_idx r)),
      (''stage'', JString (cs_stage r)),
      (''status'', JString (cs_status r)),
      (''recorded_at'', JString (cs_recorded_at r)),
      (''detail'', cs_detail r)])"

definition variant_snapshot_row_json :: "variant_snapshot_row \<Rightarrow> json" where
  "variant_snapshot_row_json r = json_object (slot_row_fields r @
     [(''variant_id'', JString (vs_variant_id r)),
      (''baseline_id'', JString (vs_baseline_id r)),
      (''task_id'', JString (vs_task_id r)),
      (''repl_idx'', jnat (vs_repl_idx r)),
      (''binding_name'', JString (vs_binding_name r)),
      (''binding_value'', vs_binding_value r),
      (''binding_value_text'', JString (vs_binding_value_text r))])"

section \<open>Trial results\<close>

record trial_execution_result =
  ter_trial_id :: string
  ter_slot_status :: string
  ter_variant_idx :: "nat option"
  ter_deferred_trial_records :: "trial_record list"
  ter_deferred_metric_rows :: "metric_row list"
  ter_deferred_event_rows :: "event_row list"
  ter_deferred_contract_stage_rows :: "contract_stage_row list"
  ter_deferred_variant_snapshot_rows :: "variant_snapshot_row list"
  ter_deferred_evidence_records :: "json list"
  ter_deferred_chain_state_records :: "json list"
  ter_deferred_trial_conclusion_records :: "json list"
  ter_failure_classification :: "string option"

definition trial_execution_result_minimal ::
  "string \<Rightarrow> string \<Rightarrow> nat option \<Rightarrow> trial_execution_result" where
  "trial_execution_result_minimal trial_id slot_status variant_idx =
     \<lparr>ter_trial_id = trial_id, ter_slot_status = slot_status, ter_variant_idx = variant_idx,
      ter_deferred_trial_records = [], ter_deferred_metric_rows = [], ter_deferred_event_rows = [],
      ter_deferred_contract_stage_rows = [], ter_deferred_variant_snapshot_rows = [],
      ter_deferred_evidence_records = [], ter_deferred_chain_state_records = [],
      ter_deferred_trial_conclusion_records = [], ter_failure_classification = None\<rparr>"

record pending_trial_completion_record =
  ptc_schema_version :: string
  ptc_schedule_idx :: nat
  ptc_trial_result :: trial_execution_result

definition trial_execution_result_worker_lost ::
  "string \<Rightarrow> nat option \<Rightarrow> string option \<Rightarrow> trial_execution_result" where
  "trial_execution_result_worker_lost trial_id variant_idx classification =
     (trial_execution_result_minimal trial_id ''failed'' variant_idx)
       \<lparr>ter_failure_classification := classification\<rparr>"

section \<open>Slot commit identity\<close>

text \<open>
  The code outside the sources that the row operations call: SHA-256, the number and string
  printers of \<open>serde_json\<close> and its pointer lookup.
\<close>

record externs =
  ex_sha256_hex :: "string \<Rightarrow> string"
  ex_quote :: "string \<Rightarrow> string"
  ex_show_float :: "u64 \<Rightarrow> string"
  ex_pointer :: json_pointer

definition json_digest :: "externs \<Rightarrow> json \<Rightarrow> string" where
  "json_digest ex value = canonical_json_digest (ex_sha256_hex ex) (ex_quote ex) (ex_show_float ex) value"

text \<open>\<open>&digest[..24]\<close> slices the digest string, whose first seven bytes are \<open>sha256:\<close>.\<close>

definition make_slot_commit_id :: "externs \<Rightarrow> string \<Rightarrow> nat \<Rightarrow> nat \<Rightarrow> string \<Rightarrow> string" where
  "make_slot_commit_id ex run_id schedule_idx attempt payload_digest =
     (let raw = run_id @ '':'' @ show_nat schedule_idx @ '':'' @ show_nat attempt @ '':'' @ payload_digest;
          digest = sha256_bytes (ex_sha256_hex ex) raw
      in ''slot_'' @ take 24 digest)"

definition slot_commit_payload :: "nat \<Rightarrow> trial_execution_result \<Rightarrow> json" where
  "slot_commit_payload schedule_idx trial_result =
     json_object
       [(''schedule_idx'', jnat schedule_idx),
        (''trial_id'', JString (ter_trial_id trial_result)),
        (''slot_status'', JString (ter_slot_status trial_result)),
        (''trial_rows'', JArray (map trial_record_json (ter_deferred_trial_records trial_result))),
        (''metric_rows'', JArray (map metric_row_json (ter_deferred_metric_rows trial_result))),
        (''event_rows'', JArray (map event_row_json (ter_deferred_event_rows trial_result))),
        (''contract_stage_rows'',
          JArray (map contract_stage_row_json (ter_deferred_contract_stage_rows trial_result))),
        (''variant_snapshot_rows'',
          JArray (map variant_snapshot_row_json (ter_deferred_variant_snapshot_rows trial_result))),
        (''evidence_rows'', JArray (ter_deferred_evidence_records trial_result)),
        (''chain_state_rows'', JArray (ter_deferred_chain_state_records trial_result)),
        (''trial_conclusion_rows'', JArray (ter_deferred_trial_conclusion_records trial_result))]"

definition slot_commit_payload_digest_for_result ::
  "externs \<Rightarrow> nat \<Rightarrow> trial_execution_result \<Rightarrow> string" where
  "slot_commit_payload_digest_for_result ex schedule_idx trial_result =
     json_digest ex (slot_commit_payload schedule_idx trial_result)"

fun annotate_row_identity ::
  "string \<Rightarrow> nat \<Rightarrow> string \<Rightarrow> nat \<Rightarrow> nat \<Rightarrow> json \<Rightarrow> json" where
  "annotate_row_identity run_id schedule_idx slot_commit_id attempt row_seq (JObject obj) =
     JObject (bt_insert ''row_seq'' (jnat row_seq)
       (bt_insert ''attempt'' (jnat attempt)
       (bt_insert ''slot_commit_id'' (JString slot_commit_id)
       (bt_insert ''schedule_idx'' (jnat schedule_idx)
       (bt_insert ''run_id'' (JString run_id) obj)))))"
| "annotate_row_identity run_id schedule_idx slot_commit_id attempt row_seq value = value"

definition enumerate_rows :: "'a list \<Rightarrow> (nat \<times> 'a) list" where
  "enumerate_rows rows = zip [0..<length rows] rows"

definition annotate_value_rows :: "json list \<Rightarrow> string \<Rightarrow> nat \<Rightarrow> string \<Rightarrow> nat \<Rightarrow> json list" where
  "annotate_value_rows rows run_id schedule_idx slot_commit_id attempt =
     map (\<lambda>(row_seq, row). annotate_row_identity run_id schedule_idx slot_commit_id attempt row_seq row)
       (enumerate_rows rows)"

definition annotate_slot :: "nat \<Rightarrow> string \<Rightarrow> nat \<Rightarrow> nat \<Rightarrow> 'a slot_row_scheme \<Rightarrow> 'a slot_row_scheme" where
  "annotate_slot schedule_idx slot_commit_id attempt row_seq row =
     row\<lparr>sr_schedule_idx := schedule_idx, sr_slot_commit_id := slot_commit_id,
         sr_attempt := attempt, sr_row_seq := row_seq\<rparr>"

definition annotate_slot_rows ::
  "'a slot_row_scheme list \<Rightarrow> nat \<Rightarrow> string \<Rightarrow> nat \<Rightarrow> 'a slot_row_scheme list" where
  "annotate_slot_rows rows schedule_idx slot_commit_id attempt =
     map (\<lambda>(row_seq, row). annotate_slot schedule_idx slot_commit_id attempt row_seq row)
       (enumerate_rows rows)"

section \<open>Fields of JSON rows\<close>

datatype row_error =
    MissingStringField string
  | MissingIntegerField string
  | IntegerFieldNotUnsigned string
  | MissingEvidenceRunId
  | MissingChainField string

definition pointer_str :: "externs \<Rightarrow> json \<Rightarrow> string \<Rightarrow> string option" where
  "pointer_str ex value ptr = Option.bind (ex_pointer ex value ptr) as_str"

definition required_json_str :: "externs \<Rightarrow> json \<Rightarrow> string \<Rightarrow> (row_error, string) result" where
  "required_json_str ex value ptr = ok_or (MissingStringField ptr) (pointer_str ex value ptr)"

definition required_json_usize :: "externs \<Rightarrow> json \<Rightarrow> string \<Rightarrow> (row_error, nat) result" where
  "required_json_usize ex value ptr =
     ok_or (MissingIntegerField ptr) (Option.bind (ex_pointer ex value ptr) as_u64)"

definition optional_json_usize :: "externs \<Rightarrow> json \<Rightarrow> string \<Rightarrow> (row_error, nat option) result" where
  "optional_json_usize ex value ptr =
     (case ex_pointer ex value ptr of
        None \<Rightarrow> Ok None
      | Some raw \<Rightarrow>
          rbind (ok_or (IntegerFieldNotUnsigned ptr) (as_u64 raw)) (\<lambda>n. Ok (Some n)))"

definition evidence_attempt_object_roles :: "(string \<times> string) list" where
  "evidence_attempt_object_roles =
     [(''trial_input_ref'', ''trial_input''),
      (''trial_output_ref'', ''trial_output''),
      (''events_ref'', ''events''),
      (''stdout_ref'', ''stdout''),
      (''stderr_ref'', ''stderr''),
      (''workspace_pre_ref'', ''workspace_pre''),
      (''workspace_post_ref'', ''workspace_post''),
      (''diff_incremental_ref'', ''diff_incremental''),
      (''diff_cumulative_ref'', ''diff_cumulative''),
      (''patch_incremental_ref'', ''patch_incremental''),
      (''patch_cumulative_ref'', ''patch_cumulative''),
      (''workspace_bundle_ref'', ''workspace_bundle'')]"

record evidence_attempt_objects_record =
  eao_run_id :: string
  eao_trial_id :: string
  eao_schedule_idx :: nat
  eao_attempt :: nat
  eao_refs :: "(string \<times> string) list"

definition or_else :: "'a option \<Rightarrow> 'a option \<Rightarrow> 'a option" where
  "or_else a b = (case a of None \<Rightarrow> b | Some x \<Rightarrow> Some x)"

definition row_run_id :: "externs \<Rightarrow> json \<Rightarrow> string option" where
  "row_run_id ex row =
     Option.bind (or_else (ex_pointer ex row ''/run_id'') (ex_pointer ex row ''/ids/run_id'')) as_str"

definition evidence_attempt_objects ::
  "externs \<Rightarrow> json \<Rightarrow> (row_error, evidence_attempt_objects_record option) result" where
  "evidence_attempt_objects ex row =
     rbind (ok_or MissingEvidenceRunId (row_run_id ex row)) (\<lambda>run_id.
     case pointer_str ex row ''/ids/trial_id'' of None \<Rightarrow> Ok None | Some trial_id \<Rightarrow>
     rbind (optional_json_usize ex row ''/schedule_idx'') (\<lambda>schedule_idx.
     case schedule_idx of None \<Rightarrow> Ok None | Some schedule_idx \<Rightarrow>
     rbind (optional_json_usize ex row ''/attempt'') (\<lambda>attempt.
     case attempt of None \<Rightarrow> Ok None | Some attempt \<Rightarrow>
     case Option.bind (ex_pointer ex row ''/evidence'') as_object of
       None \<Rightarrow> Ok None
     | Some evidence \<Rightarrow>
         Ok (Some
           \<lparr>eao_run_id = run_id, eao_trial_id = trial_id, eao_schedule_idx = schedule_idx,
            eao_attempt = attempt,
            eao_refs = List.map_filter (\<lambda>(field, role).
              map_option (\<lambda>object_ref. (role, object_ref))
                (Option.bind (bt_get evidence field) as_str))
              evidence_attempt_object_roles\<rparr>))))"

record chain_state_lineage_record =
  csl_run_id :: string
  csl_trial_id :: string
  csl_chain_key :: string
  csl_step_index :: nat
  csl_pre_snapshot_ref :: "string option"
  csl_post_snapshot_ref :: "string option"
  csl_diff_incremental_ref :: "string option"
  csl_diff_cumulative_ref :: "string option"
  csl_patch_incremental_ref :: "string option"
  csl_patch_cumulative_ref :: "string option"
  csl_workspace_ref :: "string option"
  csl_checkpoint_labels :: "json option"

definition lineage_version_id :: "externs \<Rightarrow> chain_state_lineage_record \<Rightarrow> string" where
  "lineage_version_id ex l =
     sha256_bytes (ex_sha256_hex ex)
       (csl_run_id l @ ''|'' @ csl_chain_key l @ ''|'' @ show_nat (csl_step_index l) @ ''|'' @
        csl_trial_id l)"

definition chain_state_lineage ::
  "externs \<Rightarrow> json \<Rightarrow> (row_error, chain_state_lineage_record) result" where
  "chain_state_lineage ex row =
     rbind (ok_or (MissingChainField ''run_id'') (row_run_id ex row)) (\<lambda>run_id.
     rbind (ok_or (MissingChainField ''/ids/trial_id'') (pointer_str ex row ''/ids/trial_id'')) (\<lambda>trial_id.
     rbind (ok_or (MissingChainField ''/chain_id'') (pointer_str ex row ''/chain_id'')) (\<lambda>chain_key.
     rbind (ok_or (MissingIntegerField ''/step_index'')
       (Option.bind (ex_pointer ex row ''/step_index'') as_u64)) (\<lambda>step_index.
     Ok \<lparr>csl_run_id = run_id, csl_trial_id = trial_id, csl_chain_key = chain_key,
         csl_step_index = step_index,
         csl_pre_snapshot_ref = pointer_str ex row ''/snapshots/prev_ref'',
         csl_post_snapshot_ref = pointer_str ex row ''/snapshots/post_ref'',
         csl_diff_incremental_ref = pointer_str ex row ''/diffs/incremental_ref'',
         csl_diff_cumulative_ref = pointer_str ex row ''/diffs/cumulative_ref'',
         csl_patch_incremental_ref = pointer_str ex row ''/diffs/patch_incremental_ref'',
         csl_patch_cumulative_ref = pointer_str ex row ''/diffs/patch_cumulative_ref'',
         csl_workspace_ref = or_else (pointer_str ex row ''/ext/latest_workspace_ref'')
           (pointer_str ex row ''/ext/workspace_ref''),
         csl_checkpoint_labels = ex_pointer ex row ''/checkpoint_labels''\<rparr>))))"

section \<open>Lemmas\<close>

lemma length_enumerate_rows [simp]: "length (enumerate_rows rows) = length rows"
  by (simp add: enumerate_rows_def)

lemma nth_enumerate_rows [simp]: "i < length rows \<Longrightarrow> enumerate_rows rows ! i = (i, rows ! i)"
  by (simp add: enumerate_rows_def)

lemma length_annotate [simp]:
  "length (annotate_value_rows rows run_id i sid a) = length rows"
  "length (annotate_slot_rows srows i sid a) = length srows"
  by (simp_all add: annotate_value_rows_def annotate_slot_rows_def)

lemma nth_annotate_value_rows:
  "k < length rows \<Longrightarrow> annotate_value_rows rows run_id i sid a ! k = annotate_row_identity run_id i sid a k (rows ! k)"
  by (simp add: annotate_value_rows_def)

lemma nth_annotate_slot_rows:
  "k < length rows \<Longrightarrow> annotate_slot_rows rows i sid a ! k = annotate_slot i sid a k (rows ! k)"
  by (simp add: annotate_slot_rows_def)

lemma annotate_slot_sel [simp]:
  "sr_run_id (annotate_slot i sid a k r) = sr_run_id r"
  "sr_trial_id (annotate_slot i sid a k r) = sr_trial_id r"
  "sr_schedule_idx (annotate_slot i sid a k r) = i"
  "sr_slot_commit_id (annotate_slot i sid a k r) = sid"
  "sr_attempt (annotate_slot i sid a k r) = a"
  "sr_row_seq (annotate_slot i sid a k r) = k"
  by (simp_all add: annotate_slot_def)

definition sample_externs :: externs where
  "sample_externs =
     \<lparr>ex_sha256_hex = (\<lambda>s. take 64 (s @ replicate 64 (CHR ''0''))), ex_quote = sample_quote,
      ex_show_float = sample_show_float, ex_pointer = sample_pointer\<rparr>"

end
