(* ===== verification/Lease.thy ===== *)
theory Lease
  imports Rows
begin

text \<open>
  The two leases of a run (\<open>lab-runner/src/experiment/lease.rs\<close>). The operation lease is a file that
  serialises control operations (continue, recover, pause, kill, ...); the engine lease is a value in
  the runtime store that names the process executing the schedule and is refreshed by its heartbeat
  thread. Time is a number of nanoseconds; printing and parsing RFC 3339 time stamps is the code of
  the chrono package and a parameter.
\<close>

section \<open>Time stamps\<close>

record chrono =
  ch_show :: "int \<Rightarrow> string"
  ch_parse :: "string \<Rightarrow> int option"

definition seconds :: "int \<Rightarrow> int" where
  "seconds n = n * 1000000000"

text \<open>Time stamps of the years 1970 to 9999 survive printing and parsing.\<close>

definition in_era :: "int \<Rightarrow> bool" where
  "in_era t \<longleftrightarrow> 0 \<le> t \<and> t < seconds 253402300800"

definition chrono_laws :: "chrono \<Rightarrow> bool" where
  "chrono_laws c \<longleftrightarrow> (\<forall>t. in_era t \<longrightarrow> ch_parse c (ch_show c t) = Some t)"

definition OPERATION_LEASE_TTL_SECONDS :: int where
  "OPERATION_LEASE_TTL_SECONDS = 30"

definition ENGINE_LEASE_HEARTBEAT_SECONDS :: int where
  "ENGINE_LEASE_HEARTBEAT_SECONDS = 2"

definition ENGINE_LEASE_TTL_SECONDS :: int where
  "ENGINE_LEASE_TTL_SECONDS = 6"

section \<open>Records\<close>

datatype RunOperationType = OpContinue | OpRecover | OpPause | OpKill | OpResume | OpFork | OpReplay

fun operation_type_as_str :: "RunOperationType \<Rightarrow> string" where
  "operation_type_as_str OpContinue = ''continue''"
| "operation_type_as_str OpRecover = ''recover''"
| "operation_type_as_str OpPause = ''pause''"
| "operation_type_as_str OpKill = ''kill''"
| "operation_type_as_str OpResume = ''resume''"
| "operation_type_as_str OpFork = ''fork''"
| "operation_type_as_str OpReplay = ''replay''"

record operation_lease_record =
  olr_schema_version :: string
  olr_operation_id :: string
  olr_op_type :: string
  olr_owner_pid :: nat
  olr_owner_host :: string
  olr_acquired_at :: string
  olr_expires_at :: string
  olr_stale_takeover_of :: "string option"

record engine_lease_record =
  elr_schema_version :: string
  elr_run_id :: string
  elr_owner_id :: string
  elr_pid :: nat
  elr_hostname :: string
  elr_started_at :: string
  elr_heartbeat_at :: string
  elr_expires_at :: string
  elr_epoch :: u64

text \<open>
  The process that calls: its environment, host name and process id. Every file and database call can
  fail (\<open>le_io\<close>).
\<close>

datatype lease_point =
    AtResolve | AtLeaseDir | AtOpen | AtRead | AtWrite | AtSync | AtDirSync | AtContract | AtReplace | AtRemove
  | AtStoreRead | AtStoreWrite

record lease_env =
  le_externs :: externs
  le_chrono :: chrono
  le_var :: "string \<Rightarrow> string option"
  le_system_hostname :: "string option"
  le_pid :: nat
  le_io :: "lease_point \<Rightarrow> bool"

datatype lease_error =
    LeaseIo lease_point
  | LeaseUnparsable
  | HostUnavailable
  | OperationInProgress
  | LeaseRunMismatch string string
  | RunOwnerAlive string

definition lease_io :: "lease_env \<Rightarrow> lease_point \<Rightarrow> ('s, lease_error, unit) op" where
  "lease_io env p = olift (ensure (le_io env p) (LeaseIo p))"

section \<open>Staleness and identity\<close>

definition lease_expires_at_is_stale :: "chrono \<Rightarrow> string \<Rightarrow> int \<Rightarrow> bool" where
  "lease_expires_at_is_stale c expires_at now =
     (case ch_parse c expires_at of Some expires_at \<Rightarrow> expires_at < now | None \<Rightarrow> True)"

definition operation_lease_is_stale :: "chrono \<Rightarrow> operation_lease_record \<Rightarrow> int \<Rightarrow> bool" where
  "operation_lease_is_stale c lease now = lease_expires_at_is_stale c (olr_expires_at lease) now"

definition engine_lease_is_stale :: "chrono \<Rightarrow> engine_lease_record \<Rightarrow> int \<Rightarrow> bool" where
  "engine_lease_is_stale c lease now = lease_expires_at_is_stale c (elr_expires_at lease) now"

definition operation_owner_host :: "lease_env \<Rightarrow> (lease_error, string) result" where
  "operation_owner_host env =
     ok_or HostUnavailable
       (or_else
         (find (\<lambda>value. value \<noteq> [])
           (map trim (List.map_filter (le_var env) [''HOSTNAME'', ''COMPUTERNAME''])))
         (le_system_hostname env))"

definition show_int :: "int \<Rightarrow> string" where
  "show_int n = (if n < 0 then CHR ''-'' # show_nat (nat (- n)) else show_nat (nat n))"

text \<open>\<open>&digest[..16]\<close>: the seven bytes of \<open>sha256:\<close> and nine hexadecimal digits.\<close>

definition next_unique_id :: "lease_env \<Rightarrow> string \<Rightarrow> string \<Rightarrow> int \<Rightarrow> nat \<Rightarrow> string" where
  "next_unique_id env prefix owner_host now nonce =
     (let raw = prefix @ '':'' @ show_int (now div 1000) @ '':'' @ show_nat (le_pid env) @ '':'' @
            show_nat nonce @ '':'' @ owner_host
      in prefix @ ''_'' @ take 16 (sha256_bytes (ex_sha256_hex (le_externs env)) raw))"

text \<open>The readings of the clock and of the id counter during one call.\<close>

record lease_moment =
  lm_check :: int
  lm_now :: int
  lm_id_now :: int
  lm_nonce :: nat

section \<open>The operation lease\<close>

text \<open>The lease file: missing, present without a parsable record, or holding a record.\<close>

datatype lease_file = NoLease | TornLease | LeaseFile operation_lease_record

type_synonym 'a file_op = "(lease_file, lease_error, 'a) op"

definition make_operation_lease_record ::
  "lease_env \<Rightarrow> lease_moment \<Rightarrow> RunOperationType \<Rightarrow> string option \<Rightarrow>
   (lease_error, operation_lease_record) result" where
  "make_operation_lease_record env m op_type stale_takeover_of =
     rbind (operation_owner_host env) (\<lambda>owner_host.
     Ok \<lparr>olr_schema_version = ''operation_lease_v1'',
         olr_operation_id = next_unique_id env ''op'' owner_host (lm_id_now m) (lm_nonce m),
         olr_op_type = operation_type_as_str op_type, olr_owner_pid = le_pid env,
         olr_owner_host = owner_host, olr_acquired_at = ch_show (le_chrono env) (lm_now m),
         olr_expires_at =
           ch_show (le_chrono env) (lm_now m + seconds OPERATION_LEASE_TTL_SECONDS),
         olr_stale_takeover_of = stale_takeover_of\<rparr>)"

definition load_operation_lease_record :: "lease_env \<Rightarrow> operation_lease_record file_op" where
  "load_operation_lease_record env =
     obind (lease_io env AtRead) (\<lambda>_.
     obind (oget id) (\<lambda>file.
     case file of
       NoLease \<Rightarrow> ofail (LeaseIo AtRead)
     | TornLease \<Rightarrow> ofail LeaseUnparsable
     | LeaseFile lease \<Rightarrow> oreturn lease))"

text \<open>\<open>create_new\<close> opens the file only when it does not exist; it exists empty from then on.\<close>

definition open_new :: "lease_env \<Rightarrow> bool file_op" where
  "open_new env =
     obind (lease_io env AtOpen) (\<lambda>_.
     obind (oget id) (\<lambda>file.
     if file = NoLease then obind (omodify (\<lambda>_. TornLease)) (\<lambda>_. oreturn True) else oreturn False))"

definition write_new :: "lease_env \<Rightarrow> lease_moment \<Rightarrow> RunOperationType \<Rightarrow> string file_op" where
  "write_new env m op_type =
     obind (olift (make_operation_lease_record env m op_type None)) (\<lambda>lease.
     obind (lease_io env AtWrite) (\<lambda>_.
     obind (omodify (\<lambda>_. LeaseFile lease)) (\<lambda>_.
     obind (lease_io env AtSync) (\<lambda>_.
     obind (lease_io env AtDirSync) (\<lambda>_.
     oreturn (olr_operation_id lease))))))"

definition check_stale :: "lease_env \<Rightarrow> lease_moment \<Rightarrow> operation_lease_record file_op" where
  "check_stale env m =
     obind (load_operation_lease_record env) (\<lambda>existing.
     if operation_lease_is_stale (le_chrono env) existing (lm_check m) then oreturn existing
     else ofail OperationInProgress)"

definition replace_stale ::
  "lease_env \<Rightarrow> lease_moment \<Rightarrow> RunOperationType \<Rightarrow> operation_lease_record \<Rightarrow> string file_op" where
  "replace_stale env m op_type existing =
     obind (olift (make_operation_lease_record env m op_type (Some (olr_operation_id existing)))) (\<lambda>replacement.
     obind (lease_io env AtContract) (\<lambda>_.
     obind (lease_io env AtReplace) (\<lambda>_.
     obind (omodify (\<lambda>_. LeaseFile replacement)) (\<lambda>_.
     obind (lease_io env AtDirSync) (\<lambda>_.
     oreturn (olr_operation_id replacement))))))"

definition acquire_run_operation_lease ::
  "lease_env \<Rightarrow> lease_moment \<Rightarrow> RunOperationType \<Rightarrow> string file_op" where
  "acquire_run_operation_lease env m op_type =
     obind (lease_io env AtResolve) (\<lambda>_.
     obind (lease_io env AtLeaseDir) (\<lambda>_.
     obind (open_new env) (\<lambda>created.
     if created then write_new env m op_type
     else obind (check_stale env m) (replace_stale env m op_type))))"

text \<open>\<open>Drop\<close>: the file is removed when it still holds this operation's record.\<close>

definition drop_operation_lease :: "lease_env \<Rightarrow> string \<Rightarrow> lease_file \<Rightarrow> lease_file" where
  "drop_operation_lease env operation_id file =
     (case load_operation_lease_record env file of
        (Inr lease, _) \<Rightarrow>
          if olr_operation_id lease = operation_id \<and> le_io env AtRemove then NoLease else file
      | (Inl _, _) \<Rightarrow> file)"

section \<open>The engine lease\<close>

text \<open>The value under the key \<open>engine_lease\<close> of the runtime store.\<close>

datatype stored_lease = NoStoredLease | MalformedLease | StoredLease engine_lease_record

type_synonym 'a engine_op = "(stored_lease, lease_error, 'a) op"

definition load_engine_lease :: "lease_env \<Rightarrow> engine_lease_record option engine_op" where
  "load_engine_lease env =
     obind (lease_io env AtStoreRead) (\<lambda>_.
     obind (oget id) (\<lambda>value.
     case value of
       NoStoredLease \<Rightarrow> oreturn None
     | MalformedLease \<Rightarrow> ofail LeaseUnparsable
     | StoredLease lease \<Rightarrow> oreturn (Some lease)))"

definition write_engine_lease :: "lease_env \<Rightarrow> engine_lease_record \<Rightarrow> unit engine_op" where
  "write_engine_lease env lease =
     obind (lease_io env AtContract) (\<lambda>_.
     obind (lease_io env AtStoreWrite) (\<lambda>_.
     omodify (\<lambda>_. StoredLease lease)))"

definition make_engine_lease ::
  "lease_env \<Rightarrow> lease_moment \<Rightarrow> string \<Rightarrow> u64 \<Rightarrow> (lease_error, engine_lease_record) result" where
  "make_engine_lease env m run_id epoch =
     rbind (operation_owner_host env) (\<lambda>hostname.
     let now = lm_now m; expires = now + seconds ENGINE_LEASE_TTL_SECONDS
     in Ok \<lparr>elr_schema_version = ''engine_lease_v1'', elr_run_id = run_id,
            elr_owner_id = next_unique_id env ''owner'' hostname (lm_id_now m) (lm_nonce m),
            elr_pid = le_pid env, elr_hostname = hostname,
            elr_started_at = ch_show (le_chrono env) now,
            elr_heartbeat_at = ch_show (le_chrono env) now,
            elr_expires_at = ch_show (le_chrono env) expires, elr_epoch = epoch\<rparr>)"

definition ensure_engine_lease_for_run ::
  "lease_env \<Rightarrow> lease_moment \<Rightarrow> string \<Rightarrow> engine_lease_record engine_op" where
  "ensure_engine_lease_for_run env m run_id =
     obind (load_engine_lease env) (\<lambda>existing.
     case existing of
       Some existing \<Rightarrow>
         if elr_run_id existing \<noteq> run_id then ofail (LeaseRunMismatch (elr_run_id existing) run_id)
         else oreturn existing
     | None \<Rightarrow>
         obind (olift (make_engine_lease env m run_id 1)) (\<lambda>lease.
         obind (write_engine_lease env lease) (\<lambda>_.
         oreturn lease)))"

text \<open>
  Starting the heartbeat: the new owner's record is written and kept by its thread. The epoch is a
  \<open>u64\<close>; the addition wraps.
\<close>

definition start_engine_lease_heartbeat ::
  "lease_env \<Rightarrow> lease_moment \<Rightarrow> lease_moment \<Rightarrow> string \<Rightarrow> engine_lease_record engine_op" where
  "start_engine_lease_heartbeat env m1 m2 run_id =
     obind (ensure_engine_lease_for_run env m1 run_id) (\<lambda>existing.
     obind (olift (make_engine_lease env m2 run_id (elr_epoch existing + 1))) (\<lambda>heartbeat_lease.
     obind (write_engine_lease env heartbeat_lease) (\<lambda>_.
     oreturn heartbeat_lease)))"

text \<open>One beat: the record of the thread, renewed, and what it leaves in the store. A write error
  only prints a warning.\<close>

definition renewed :: "lease_env \<Rightarrow> int \<Rightarrow> engine_lease_record \<Rightarrow> engine_lease_record" where
  "renewed env now lease =
     lease\<lparr>elr_heartbeat_at := ch_show (le_chrono env) now,
           elr_expires_at := ch_show (le_chrono env) (now + seconds ENGINE_LEASE_TTL_SECONDS)\<rparr>"

definition heartbeat ::
  "lease_env \<Rightarrow> int \<Rightarrow> engine_lease_record \<Rightarrow> stored_lease \<Rightarrow> engine_lease_record \<times> stored_lease" where
  "heartbeat env now heartbeat_lease stored =
     (let lease = renewed env now heartbeat_lease
      in (lease, snd (write_engine_lease env lease stored)))"

definition adopt_engine_lease_for_recovery ::
  "lease_env \<Rightarrow> lease_moment \<Rightarrow> string \<Rightarrow> bool \<Rightarrow> engine_lease_record engine_op" where
  "adopt_engine_lease_for_recovery env m run_id force =
     obind (load_engine_lease env) (\<lambda>existing.
     obind (case existing of
              None \<Rightarrow> oreturn ()
            | Some lease \<Rightarrow>
                if elr_run_id lease \<noteq> run_id then ofail (LeaseRunMismatch (elr_run_id lease) run_id)
                else if \<not> force \<and> \<not> engine_lease_is_stale (le_chrono env) lease (lm_check m)
                then ofail (RunOwnerAlive (elr_owner_id lease))
                else oreturn ()) (\<lambda>_.
     let epoch = (case existing of None \<Rightarrow> 1 | Some lease \<Rightarrow> elr_epoch lease + 1)
     in obind (olift (make_engine_lease env m run_id epoch)) (\<lambda>adopted.
        obind (write_engine_lease env adopted) (\<lambda>_.
        oreturn adopted))))"

section \<open>Outcomes\<close>

lemma lease_io_outcome: "lease_io env p s = (if le_io env p then (Ok (), s) else (Err (LeaseIo p), s))"
  by (simp add: lease_io_def olift_def ensure_def)

lemmas lease_op_simps = op_defs lease_io_outcome

lemma make_operation_lease_record_fields:
  assumes "make_operation_lease_record env m op_type stale_of = Ok lease"
  shows "olr_expires_at lease = ch_show (le_chrono env) (lm_now m + seconds OPERATION_LEASE_TTL_SECONDS)"
    and "olr_stale_takeover_of lease = stale_of"
  using assms by (auto simp: make_operation_lease_record_def rbind_eq_Inr)

lemma fresh_until_expiry:
  assumes "chrono_laws c" "in_era t" "now \<le> t"
  shows "\<not> lease_expires_at_is_stale c (ch_show c t) now"
  using assms by (simp add: lease_expires_at_is_stale_def chrono_laws_def)

lemma write_new_Ok:
  assumes "write_new env m op_type cell = (Ok oid, cell2)"
  shows "\<exists>lease. make_operation_lease_record env m op_type None = Ok lease \<and> cell2 = LeaseFile lease \<and>
    oid = olr_operation_id lease"
  using assms
  by (cases "make_operation_lease_record env m op_type None")
    (auto simp: write_new_def lease_op_simps split: if_splits)

lemma replace_stale_Ok:
  assumes "replace_stale env m op_type old cell = (Ok oid, cell2)"
  shows "\<exists>lease. make_operation_lease_record env m op_type (Some (olr_operation_id old)) = Ok lease \<and>
    cell2 = LeaseFile lease \<and> oid = olr_operation_id lease"
  using assms
  by (cases "make_operation_lease_record env m op_type (Some (olr_operation_id old))")
    (auto simp: replace_stale_def lease_op_simps split: if_splits)

lemma check_stale_outcome:
  "check_stale env m cell =
     (case cell of
        LeaseFile old \<Rightarrow>
          if \<not> le_io env AtRead then (Err (LeaseIo AtRead), cell)
          else if operation_lease_is_stale (le_chrono env) old (lm_check m) then (Ok old, cell)
          else (Err OperationInProgress, cell)
      | TornLease \<Rightarrow> (Err (if le_io env AtRead then LeaseUnparsable else LeaseIo AtRead), cell)
      | NoLease \<Rightarrow> (Err (LeaseIo AtRead), cell))"
  by (simp add: check_stale_def load_operation_lease_record_def lease_op_simps split: lease_file.split)

lemma open_new_outcome:
  "open_new env cell =
     (if \<not> le_io env AtOpen then (Err (LeaseIo AtOpen), cell)
      else if cell = NoLease then (Ok True, TornLease) else (Ok False, cell))"
  by (simp add: open_new_def lease_op_simps)

lemma acquire_Ok:
  assumes "acquire_run_operation_lease env m op_type cell = (Ok oid, cell2)"
  shows "\<exists>lease taken. make_operation_lease_record env m op_type taken = Ok lease \<and> cell2 = LeaseFile lease \<and>
    oid = olr_operation_id lease \<and>
    (cell = NoLease \<and> taken = None \<or>
     (\<exists>old. cell = LeaseFile old \<and> operation_lease_is_stale (le_chrono env) old (lm_check m) \<and>
        taken = Some (olr_operation_id old)))"
proof (cases cell)
  case NoLease
  with assms have "write_new env m op_type TornLease = (Ok oid, cell2)"
    by (simp add: acquire_run_operation_lease_def lease_op_simps open_new_outcome split: if_splits)
  with NoLease write_new_Ok show ?thesis by blast
next
  case TornLease
  with assms show ?thesis
    by (simp add: acquire_run_operation_lease_def lease_op_simps open_new_outcome check_stale_outcome
        split: if_splits)
next
  case (LeaseFile old)
  with assms have "replace_stale env m op_type old cell = (Ok oid, cell2)"
    "operation_lease_is_stale (le_chrono env) old (lm_check m)"
    by (simp_all add: acquire_run_operation_lease_def lease_op_simps open_new_outcome check_stale_outcome
        split: if_splits)
  with LeaseFile replace_stale_Ok [OF this(1)] show ?thesis by blast
qed

text \<open>A lease file that is torn or held by a fresh lease is left as it is.\<close>

lemma acquire_refused:
  assumes "cell = TornLease \<or>
    (\<exists>old. cell = LeaseFile old \<and> \<not> operation_lease_is_stale (le_chrono env) old (lm_check m))"
  shows "\<exists>e. acquire_run_operation_lease env m op_type cell = (Err e, cell)"
  using assms
  by (auto simp: acquire_run_operation_lease_def lease_op_simps open_new_outcome check_stale_outcome)

lemma acquired_is_fresh:
  assumes "make_operation_lease_record env m op_type taken = Ok lease"
    and "chrono_laws (le_chrono env)" "in_era (lm_now m + seconds OPERATION_LEASE_TTL_SECONDS)"
    and "now \<le> lm_now m + seconds OPERATION_LEASE_TTL_SECONDS"
  shows "\<not> operation_lease_is_stale (le_chrono env) lease now"
  using fresh_until_expiry [OF assms(2-4)] make_operation_lease_record_fields(1) [OF assms(1)]
  by (simp add: operation_lease_is_stale_def)

section \<open>Interleaved operations\<close>

text \<open>
  Several processes run operations on one run directory. Opening, writing, inspecting and replacing
  the file are separate steps of each process.
\<close>

datatype lease_pc = Outside | Opened | SawStale operation_lease_record | Holding string

record lease_world =
  lw_file :: lease_file
  lw_pc :: "nat \<Rightarrow> lease_pc"

datatype lease_label = OpenNew nat | WriteNew nat | Inspect nat | Replace nat | Release nat

inductive lease_step :: "lease_world \<Rightarrow> lease_label \<Rightarrow> lease_world \<Rightarrow> bool" where
  step_open: "lw_pc w p = Outside \<Longrightarrow> open_new env (lw_file w) = (Ok True, cell) \<Longrightarrow>
    lease_step w (OpenNew p) \<lparr>lw_file = cell, lw_pc = (lw_pc w)(p := Opened)\<rparr>"
| step_write: "lw_pc w p = Opened \<Longrightarrow> write_new env m op_type (lw_file w) = (Ok oid, cell) \<Longrightarrow>
    lease_step w (WriteNew p) \<lparr>lw_file = cell, lw_pc = (lw_pc w)(p := Holding oid)\<rparr>"
| step_write_failed: "lw_pc w p = Opened \<Longrightarrow> write_new env m op_type (lw_file w) = (Err e, cell) \<Longrightarrow>
    lease_step w (WriteNew p) \<lparr>lw_file = cell, lw_pc = (lw_pc w)(p := Outside)\<rparr>"
| step_inspect: "lw_pc w p = Outside \<Longrightarrow> check_stale env m (lw_file w) = (Ok old, cell) \<Longrightarrow>
    lease_step w (Inspect p) \<lparr>lw_file = cell, lw_pc = (lw_pc w)(p := SawStale old)\<rparr>"
| step_replace: "lw_pc w p = SawStale old \<Longrightarrow> replace_stale env m op_type old (lw_file w) = (Ok oid, cell) \<Longrightarrow>
    lease_step w (Replace p) \<lparr>lw_file = cell, lw_pc = (lw_pc w)(p := Holding oid)\<rparr>"
| step_replace_failed: "lw_pc w p = SawStale old \<Longrightarrow> replace_stale env m op_type old (lw_file w) = (Err e, cell) \<Longrightarrow>
    lease_step w (Replace p) \<lparr>lw_file = cell, lw_pc = (lw_pc w)(p := Outside)\<rparr>"
| step_drop: "lw_pc w p = Holding oid \<Longrightarrow>
    lease_step w (Release p)
      \<lparr>lw_file = drop_operation_lease env oid (lw_file w), lw_pc = (lw_pc w)(p := Outside)\<rparr>"

inductive_simps lease_step_inspect_iff: "lease_step w (Inspect p) w'"

text \<open>Operations on leases that have not expired: no process inspects a stale one.\<close>

definition fresh_lease_step :: "lease_world \<Rightarrow> lease_label \<Rightarrow> lease_world \<Rightarrow> bool" where
  "fresh_lease_step w l w' \<longleftrightarrow> lease_step w l w' \<and> (\<forall>p. l \<noteq> Inspect p)"

definition lease_init :: "lease_world \<Rightarrow> bool" where
  "lease_init w \<longleftrightarrow> lw_file w = NoLease \<and> (\<forall>p. lw_pc w p = Outside)"

text \<open>At most one process is past the opening, and only while the file exists.\<close>

definition lease_exclusive :: "lease_world \<Rightarrow> bool" where
  "lease_exclusive w \<longleftrightarrow>
     (\<forall>p q. lw_pc w p \<noteq> Outside \<longrightarrow> lw_pc w q \<noteq> Outside \<longrightarrow> p = q) \<and>
     (\<forall>p. lw_pc w p \<noteq> Outside \<longrightarrow> lw_file w \<noteq> NoLease) \<and> (\<forall>p old. lw_pc w p \<noteq> SawStale old)"

lemma write_new_file: "write_new env m op_type cell = (r, cell2) \<Longrightarrow> cell \<noteq> NoLease \<Longrightarrow> cell2 \<noteq> NoLease"
  by (cases "make_operation_lease_record env m op_type None")
    (auto simp: write_new_def lease_op_simps split: if_splits)

lemma lease_exclusive_step:
  assumes "lease_exclusive w" "fresh_lease_step w l w'"
  shows "lease_exclusive w'"
proof -
  from assms(2) have "lease_step w l w'" and no: "\<And>p. l \<noteq> Inspect p" by (auto simp: fresh_lease_step_def)
  then show ?thesis
  proof (cases rule: lease_step.cases)
    case (step_open p env cell)
    then have "\<forall>q. lw_pc w q = Outside" "cell = TornLease"
      using assms(1) by (auto simp: lease_exclusive_def open_new_outcome split: if_splits)
    with step_open show ?thesis by (simp add: lease_exclusive_def)
  next
    case (step_write p env m op_type oid cell)
    with assms(1) write_new_file [OF step_write(4)] show ?thesis
      unfolding lease_exclusive_def by (simp, metis lease_pc.distinct(1))
  next
    case (step_write_failed p env m op_type e cell)
    with assms(1) write_new_file [OF step_write_failed(4)] show ?thesis
      unfolding lease_exclusive_def by (simp, metis lease_pc.distinct(1))
  next
    case (step_drop p oid env)
    with assms(1) have "\<forall>q. q \<noteq> p \<longrightarrow> lw_pc w q = Outside"
      unfolding lease_exclusive_def by (metis lease_pc.distinct(5))
    with step_drop assms(1) show ?thesis by (simp add: lease_exclusive_def)
  qed (use assms(1) no in \<open>auto simp: lease_exclusive_def\<close>)
qed

interpretation operation_lease: invariant_system lease_init fresh_lease_step lease_exclusive
proof
  show "lease_init w \<Longrightarrow> lease_exclusive w" for w by (simp add: lease_init_def lease_exclusive_def)
  show "lease_exclusive w \<Longrightarrow> fresh_lease_step w l w' \<Longrightarrow> lease_exclusive w'" for w l w'
    by (rule lease_exclusive_step)
qed

section \<open>Properties\<close>

text \<open>A process on a healthy file system, with a toy time format, for the witnesses.\<close>

definition sample_chrono :: chrono where
  "sample_chrono = \<lparr>ch_show = (\<lambda>t. show_nat (nat t)), ch_parse = (\<lambda>s. Some (int (digits_value s)))\<rparr>"

lemma sample_chrono_laws: "chrono_laws sample_chrono"
  by (simp add: chrono_laws_def sample_chrono_def in_era_def digits_value_show_nat)

definition sample_lease_env :: lease_env where
  "sample_lease_env = \<lparr>le_externs = sample_externs, le_chrono = sample_chrono, le_var = Map.empty,
     le_system_hostname = Some ''host'', le_pid = 1, le_io = (\<lambda>_. True)\<rparr>"

definition moment :: "int \<Rightarrow> nat \<Rightarrow> lease_moment" where
  "moment t nonce = \<lparr>lm_check = t, lm_now = t, lm_id_now = t, lm_nonce = nonce\<rparr>"

definition healthy_process :: "lease_env \<Rightarrow> bool" where
  "healthy_process env \<longleftrightarrow> (\<forall>p. le_io env p) \<and> is_ok (operation_owner_host env)"

lemma sample_lease_healthy: "healthy_process sample_lease_env"
  by (simp add: healthy_process_def sample_lease_env_def operation_owner_host_def List.map_filter_def or_else_def)

lemma healthy_make_operation_lease_record:
  assumes "healthy_process env"
  shows "\<exists>lease. make_operation_lease_record env m op_type taken = Ok lease"
  using assms by (cases "operation_owner_host env") (auto simp: healthy_process_def make_operation_lease_record_def)

lemma healthy_acquire:
  assumes "healthy_process env"
  shows "\<exists>oid lease. acquire_run_operation_lease env m op_type NoLease = (Ok oid, LeaseFile lease)"
proof -
  obtain lease where "make_operation_lease_record env m op_type None = Ok lease"
    using healthy_make_operation_lease_record [OF assms] by blast
  with assms show ?thesis
    by (simp add: acquire_run_operation_lease_def lease_op_simps open_new_outcome write_new_def healthy_process_def)
qed

text \<open>
  C21: An operation gets the lease only when there is none or the one there has expired, and then the
  file holds its record. For the thirty seconds of that lease every other operation is refused and
  leaves the file alone, unless the holder drops it, which only the holder's id can do. A file without
  a readable record, as a crash between creating and writing leaves it, refuses every operation for good.
\<close>

theorem operation_lease_contract:
  assumes "acquire_run_operation_lease env m op_type cell = (Ok oid, cell2)"
    and "chrono_laws (le_chrono env)" "in_era (lm_now m + seconds 30)"
  shows "(cell = NoLease \<or> (\<exists>old. cell = LeaseFile old \<and> operation_lease_is_stale (le_chrono env) old (lm_check m))) \<and>
    (\<exists>lease. cell2 = LeaseFile lease \<and> olr_operation_id lease = oid) \<and>
    (\<forall>env2 m2 op2. le_chrono env2 = le_chrono env \<longrightarrow> lm_check m2 \<le> lm_now m + seconds 30 \<longrightarrow>
       (\<exists>e. acquire_run_operation_lease env2 m2 op2 cell2 = (Err e, cell2))) \<and>
    (\<forall>env2 other. other \<noteq> oid \<longrightarrow> drop_operation_lease env2 other cell2 = cell2) \<and>
    (\<forall>env2. healthy_process env2 \<longrightarrow> drop_operation_lease env2 oid cell2 = NoLease) \<and>
    (\<forall>env2 m2 op2. \<exists>e. acquire_run_operation_lease env2 m2 op2 TornLease = (Err e, TornLease))"
proof -
  obtain lease taken where l: "make_operation_lease_record env m op_type taken = Ok lease"
    and c2: "cell2 = LeaseFile lease" "oid = olr_operation_id lease"
    and c: "cell = NoLease \<or> (\<exists>old. cell = LeaseFile old \<and> operation_lease_is_stale (le_chrono env) old (lm_check m))"
    using acquire_Ok [OF assms(1)] by blast
  have ttl: "OPERATION_LEASE_TTL_SECONDS = 30" by (simp add: OPERATION_LEASE_TTL_SECONDS_def)
  have "\<exists>e. acquire_run_operation_lease env2 m2 op2 cell2 = (Err e, cell2)"
    if "le_chrono env2 = le_chrono env" "lm_check m2 \<le> lm_now m + seconds 30" for env2 m2 op2
    using acquired_is_fresh [OF l assms(2)] assms(3) that by (intro acquire_refused) (simp add: c2 ttl)
  moreover have "drop_operation_lease env2 other cell2 = (if other = oid \<and> le_io env2 AtRead \<and> le_io env2 AtRemove
      then NoLease else cell2)" for env2 other
    by (auto simp: c2 drop_operation_lease_def load_operation_lease_record_def lease_op_simps)
  moreover have "\<exists>e. acquire_run_operation_lease env2 m2 op2 TornLease = (Err e, TornLease)" for env2 m2 op2
    by (rule acquire_refused) simp
  ultimately show ?thesis using c by (simp add: c2 healthy_process_def)
qed

theorem operation_lease_contract_witness:
  "\<exists>oid lease. acquire_run_operation_lease sample_lease_env (moment 0 1) OpPause NoLease = (Ok oid, LeaseFile lease) \<and>
    drop_operation_lease sample_lease_env oid (LeaseFile lease) = NoLease \<and>
    (\<exists>e. acquire_run_operation_lease sample_lease_env (moment (seconds 30) 2) OpKill (LeaseFile lease) =
       (Err e, LeaseFile lease))"
proof -
  obtain oid lease where 1: "acquire_run_operation_lease sample_lease_env (moment 0 1) OpPause NoLease =
      (Ok oid, LeaseFile lease)"
    using healthy_acquire [OF sample_lease_healthy] by blast
  have "chrono_laws (le_chrono sample_lease_env)" "in_era (lm_now (moment 0 1) + seconds 30)"
    by (simp_all add: sample_lease_env_def sample_chrono_laws moment_def in_era_def seconds_def)
  from operation_lease_contract [OF 1 this] 1 sample_lease_healthy show ?thesis
    by (intro exI [of _ oid] exI [of _ lease] conjI) (simp_all add: moment_def)
qed

text \<open>
  C22: As long as no lease expires, the file serialises the operations of any number of processes, for
  every interleaving of their steps and every file error: two processes never hold it together, and
  while one does the file exists.
\<close>

theorem operation_lease_exclusive_while_fresh:
  assumes "reachable lease_init fresh_lease_step w" "lw_pc w p = Holding a"
  shows "lw_file w \<noteq> NoLease \<and> (\<forall>q b. lw_pc w q = Holding b \<longrightarrow> q = p)"
  using operation_lease.reachable_inv [OF assms(1)] assms(2)
  unfolding lease_exclusive_def by (metis lease_pc.distinct(5))

definition outside_world :: lease_world where
  "outside_world = \<lparr>lw_file = NoLease, lw_pc = (\<lambda>_. Outside)\<rparr>"

lemma sample_holding:
  "\<exists>w oid. reachable lease_init fresh_lease_step w \<and> lw_pc w 0 = Holding oid \<and>
     (\<exists>lease. lw_file w = LeaseFile lease)"
proof -
  let ?w1 = "\<lparr>lw_file = TornLease, lw_pc = (\<lambda>_. Outside)(0 := Opened)\<rparr>"
  have h: "\<And>p. le_io sample_lease_env p" using sample_lease_healthy by (simp add: healthy_process_def)
  have "lease_step outside_world (OpenNew 0) ?w1"
    using step_open [of outside_world 0 sample_lease_env TornLease] h by (simp add: outside_world_def open_new_outcome)
  then have 1: "reachable lease_init fresh_lease_step ?w1"
    by (intro reach_step [OF reach_init]) (auto simp: lease_init_def outside_world_def fresh_lease_step_def)
  obtain lease where "make_operation_lease_record sample_lease_env (moment 0 1) OpPause None = Ok lease"
    using healthy_make_operation_lease_record [OF sample_lease_healthy] by blast
  then have "write_new sample_lease_env (moment 0 1) OpPause TornLease = (Ok (olr_operation_id lease), LeaseFile lease)"
    using h by (simp add: write_new_def lease_op_simps)
  then have "lease_step ?w1 (WriteNew 0) \<lparr>lw_file = LeaseFile lease, lw_pc = (lw_pc ?w1)(0 := Holding (olr_operation_id lease))\<rparr>"
    by (intro step_write) simp_all
  then have "reachable lease_init fresh_lease_step
      \<lparr>lw_file = LeaseFile lease, lw_pc = (lw_pc ?w1)(0 := Holding (olr_operation_id lease))\<rparr>"
    by (intro reach_step [OF 1]) (auto simp: fresh_lease_step_def)
  then show ?thesis by force
qed

theorem operation_lease_exclusive_while_fresh_witness:
  "\<exists>(w :: lease_world) oid. lw_pc w 0 = Holding oid \<and> lw_file w \<noteq> NoLease \<and> (\<nexists>b. lw_pc w 1 = Holding b)"
proof -
  obtain w oid where w: "reachable lease_init fresh_lease_step w" "lw_pc w 0 = Holding oid"
    using sample_holding by blast
  note x = operation_lease_exclusive_while_fresh [OF w]
  have "lw_pc w 1 \<noteq> Holding b" for b
  proof
    assume "lw_pc w 1 = Holding b"
    with x have "(1::nat) = 0" by blast
    then show False by simp
  qed
  with x w(2) show ?thesis by (intro exI [of _ w] exI [of _ oid]) simp
qed

text \<open>
  Taking over an expired lease is not exclusive: inspecting the old record and replacing the file
  are separate steps, so two processes that both saw the expired lease both end up holding it.
\<close>

lemma stale_takeover_not_exclusive:
  fixes m :: lease_moment
  assumes "lw_file w = LeaseFile old" "operation_lease_is_stale (le_chrono env) old (lm_check m)"
    and "p \<noteq> q" "lw_pc w p = Outside" "lw_pc w q = Outside" "healthy_process env"
  shows "\<exists>w' a b. path lease_step w [Inspect p, Inspect q, Replace p, Replace q] w' \<and>
    lw_pc w' p = Holding a \<and> lw_pc w' q = Holding b"
proof -
  obtain lease where "make_operation_lease_record env m OpPause (Some (olr_operation_id old)) = Ok lease"
    using healthy_make_operation_lease_record [OF assms(6)] by blast
  with assms(6) have r: "replace_stale env m OpPause old cell = (Ok (olr_operation_id lease), LeaseFile lease)" for cell
    by (simp add: replace_stale_def lease_op_simps healthy_process_def)
  have c: "check_stale env m (LeaseFile old) = (Ok old, LeaseFile old)"
    using assms(2,6) by (simp add: check_stale_outcome healthy_process_def)
  let ?h = "Holding (olr_operation_id lease)"
  let ?w1 = "\<lparr>lw_file = LeaseFile old, lw_pc = (lw_pc w)(p := SawStale old)\<rparr>"
  let ?w2 = "\<lparr>lw_file = LeaseFile old, lw_pc = (lw_pc ?w1)(q := SawStale old)\<rparr>"
  let ?w3 = "\<lparr>lw_file = LeaseFile lease, lw_pc = (lw_pc ?w2)(p := ?h)\<rparr>"
  let ?w4 = "\<lparr>lw_file = LeaseFile lease, lw_pc = (lw_pc ?w3)(q := ?h)\<rparr>"
  have 1: "lease_step w (Inspect p) ?w1" using assms c by (intro step_inspect) simp_all
  have 2: "lease_step ?w1 (Inspect q) ?w2" using assms c by (intro step_inspect) simp_all
  have 3: "lease_step ?w2 (Replace p) ?w3" using assms r by (intro step_replace) simp_all
  have 4: "lease_step ?w3 (Replace q) ?w4" using assms r by (intro step_replace) simp_all
  have "path lease_step w [Inspect p, Inspect q, Replace p, Replace q] ?w4"
    by (rule path_cons, rule 1, rule path_cons, rule 2, rule path_cons, rule 3, rule path_cons, rule 4, rule path_nil)
  then show ?thesis
    by (intro exI [of _ ?w4] exI [of _ "olr_operation_id lease"] conjI) (use assms(3) in simp_all)
qed

text \<open>The engine lease.\<close>

lemma write_engine_lease_outcome:
  "write_engine_lease env lease st =
     (if \<not> le_io env AtContract then (Err (LeaseIo AtContract), st)
      else if \<not> le_io env AtStoreWrite then (Err (LeaseIo AtStoreWrite), st)
      else (Ok (), StoredLease lease))"
  by (simp add: write_engine_lease_def lease_op_simps)

lemma make_engine_lease_fields:
  assumes "make_engine_lease env m run_id epoch = Ok lease"
  shows "elr_run_id lease = run_id" "elr_epoch lease = epoch"
    "elr_expires_at lease = ch_show (le_chrono env) (lm_now m + seconds ENGINE_LEASE_TTL_SECONDS)"
  using assms by (auto simp: make_engine_lease_def rbind_eq_Inr Let_def)

lemma adopt_Ok:
  assumes "adopt_engine_lease_for_recovery env m run_id force st = (Ok adopted, st')"
  shows "\<exists>epoch. make_engine_lease env m run_id epoch = Ok adopted \<and> st' = StoredLease adopted \<and>
    (case st of
       NoStoredLease \<Rightarrow> epoch = 1
     | MalformedLease \<Rightarrow> False
     | StoredLease lease \<Rightarrow> epoch = elr_epoch lease + 1 \<and> elr_run_id lease = run_id \<and>
         (force \<or> engine_lease_is_stale (le_chrono env) lease (lm_check m)))"
  using assms
  by (cases st)
    (auto simp: adopt_engine_lease_for_recovery_def load_engine_lease_def lease_op_simps write_engine_lease_outcome
      Let_def split: if_splits sum.splits)

lemma adopt_refused:
  assumes "elr_run_id lease = run_id" "\<not> engine_lease_is_stale (le_chrono env) lease (lm_check m)" "le_io env AtStoreRead"
  shows "adopt_engine_lease_for_recovery env m run_id False (StoredLease lease) =
    (Err (RunOwnerAlive (elr_owner_id lease)), StoredLease lease)"
  using assms by (simp add: adopt_engine_lease_for_recovery_def load_engine_lease_def lease_op_simps)


definition sample_engine_lease :: engine_lease_record where
  "sample_engine_lease = \<lparr>elr_schema_version = ''engine_lease_v1'', elr_run_id = ''run'', elr_owner_id = ''owner_1'',
     elr_pid = 1, elr_hostname = ''host'', elr_started_at = ''0'', elr_heartbeat_at = ''0'', elr_expires_at = ''1'',
     elr_epoch = 1\<rparr>"

lemma healthy_adopt:
  assumes "healthy_process env" "elr_run_id lease = run_id"
  shows "\<exists>adopted. adopt_engine_lease_for_recovery env m run_id True (StoredLease lease) = (Ok adopted, StoredLease adopted)"
proof -
  obtain adopted where "make_engine_lease env m run_id (elr_epoch lease + 1) = Ok adopted"
    using assms(1) by (cases "operation_owner_host env") (auto simp: healthy_process_def make_engine_lease_def Let_def)
  with assms show ?thesis
    by (simp add: adopt_engine_lease_for_recovery_def load_engine_lease_def lease_op_simps write_engine_lease_outcome
        healthy_process_def)
qed

lemma sample_heartbeat:
  "heartbeat sample_lease_env now sample_engine_lease st =
     (renewed sample_lease_env now sample_engine_lease, StoredLease (renewed sample_lease_env now sample_engine_lease))"
  using sample_lease_healthy by (simp add: heartbeat_def write_engine_lease_outcome healthy_process_def Let_def)


text \<open>
  The heartbeat does not check that the lease is still its own. When a recovery has taken the lease
  from an owner that is still alive, the owner's next beat puts its own record back: the store names the
  old owner again, the epoch falls by one, and the recovered engine's lease is gone.
\<close>

lemma heartbeat_overwrites_adopted_lease:
  assumes "adopt_engine_lease_for_recovery env m run_id force (StoredLease owner) = (Ok adopted, st1)"
    and "heartbeat env2 now owner st1 = (lease, st2)" "le_io env2 AtContract" "le_io env2 AtStoreWrite"
  shows "st1 = StoredLease adopted \<and> elr_epoch adopted = elr_epoch owner + 1 \<and>
    st2 = StoredLease lease \<and> elr_owner_id lease = elr_owner_id owner \<and> elr_epoch lease = elr_epoch owner"
proof -
  obtain epoch where "make_engine_lease env m run_id epoch = Ok adopted" "st1 = StoredLease adopted"
    "epoch = elr_epoch owner + 1"
    using adopt_Ok [OF assms(1)] by auto
  with make_engine_lease_fields(2) [of env m run_id epoch adopted] assms(2-4) show ?thesis
    by (auto simp: heartbeat_def Let_def write_engine_lease_outcome renewed_def)
qed

end
