(* ===== verification/Slot_Store.thy ===== *)
theory Slot_Store
  imports Rows
begin

text \<open>
  The durable run store (\<open>lab-runner/src/persistence/store.rs\<close>, tables of
  \<open>persistence/schema_v2.sql\<close>): schedule slots, the slot commit journal, the schedule progress,
  pending completions and the fact tables of a run. A table is a map from its primary key to a row;
  each SQL statement of the source is the map operation it denotes, an upsert replaces the row, and
  an error inside a transaction rolls it back. The account id is fixed by the store handle. Whether
  a statement succeeds is decided by the parameter \<open>io\<close>.
\<close>

section \<open>Tables\<close>

datatype slot_state = SlotPending | SlotActive | SlotCommitted | SlotAbandoned

record schedule_slot_record =
  ssr_schedule_idx :: nat
  ssr_state :: slot_state
  ssr_slot :: trial_slot
  ssr_trial_id :: "string option"
  ssr_attempt :: nat
  ssr_worker_id :: "string option"
  ssr_owner_id :: "string option"
  ssr_lease_epoch :: nat
  ssr_lease_expires_at :: "string option"
  ssr_slot_commit_id :: "string option"
  ssr_slot_status :: "string option"

type_synonym slot_key = "string \<times> nat"
type_synonym journal_key = "string \<times> nat \<times> nat \<times> string"
type_synonym typed_row_key = "string \<times> string \<times> nat \<times> nat \<times> nat"
type_synonym json_row_key = "string \<times> nat \<times> nat \<times> nat"

datatype JsonRowTable = Evidence | ChainState | TrialConclusion

record lineage_version =
  lv_lineage :: chain_state_lineage_record
  lv_parent_version_id :: "string option"

record lineage_head =
  lh_latest_version_id :: string
  lh_step_index :: nat
  lh_latest_workspace_ref :: "string option"

record run_store =
  st_slots :: "slot_key \<rightharpoonup> schedule_slot_record"
  st_journal :: "journal_key \<rightharpoonup> slot_commit_record"
  st_progress :: "string \<rightharpoonup> schedule_progress"
  st_pending :: "slot_key \<rightharpoonup> trial_execution_result"
  st_trial_rows :: "typed_row_key \<rightharpoonup> trial_record"
  st_metric_rows :: "typed_row_key \<rightharpoonup> metric_row"
  st_event_rows :: "typed_row_key \<rightharpoonup> event_row"
  st_contract_stage_rows :: "typed_row_key \<rightharpoonup> contract_stage_row"
  st_variant_snapshot_rows :: "typed_row_key \<rightharpoonup> variant_snapshot_row"
  st_json_rows :: "JsonRowTable \<Rightarrow> json_row_key \<rightharpoonup> json"
  st_attempt_objects :: "string \<times> string \<times> nat \<times> nat \<times> string \<rightharpoonup> string \<times> json"
  st_lineage_versions :: "string \<rightharpoonup> lineage_version"
  st_lineage_heads :: "string \<times> string \<rightharpoonup> lineage_head"

definition empty_store :: run_store where
  "empty_store =
     \<lparr>st_slots = Map.empty, st_journal = Map.empty, st_progress = Map.empty, st_pending = Map.empty,
      st_trial_rows = Map.empty, st_metric_rows = Map.empty, st_event_rows = Map.empty,
      st_contract_stage_rows = Map.empty, st_variant_snapshot_rows = Map.empty,
      st_json_rows = (\<lambda>_. Map.empty), st_attempt_objects = Map.empty,
      st_lineage_versions = Map.empty, st_lineage_heads = Map.empty\<rparr>"

datatype db_point =
    AtBegin | AtSlotInsert | AtSlotSelect | AtSlotUpdate | AtFacts | AtJournal | AtRuntimeKv
  | AtPending | AtCommit

datatype store_error =
    DatabaseError db_point
  | IndexPanic nat
  | LeaseEpochOverflow nat
  | SchemaContract string
  | RowFault row_error
  | SlotMissing nat
  | SlotOwnerMismatch nat "string option" string
  | SlotAlreadyCommitted nat "string option" string
  | SlotCommitFailed nat

type_synonym 'a store_op = "(run_store, store_error, 'a) op"

definition at_point :: "(db_point \<Rightarrow> bool) \<Rightarrow> db_point \<Rightarrow> unit store_op" where
  "at_point io p = (if io p then oreturn () else ofail (DatabaseError p))"

text \<open>\<open>as_i64\<close> panics on an index that does not fit.\<close>

definition as_i64 :: "nat \<Rightarrow> (store_error, nat) result" where
  "as_i64 n = (if n < 2 ^ 63 then Ok n else Err (IndexPanic n))"

text \<open>One table is updated, the others stay.\<close>

definition modify_slots where
  "modify_slots f = omodify (\<lambda>st. st\<lparr>st_slots := f (st_slots st)\<rparr>)"

definition modify_journal where
  "modify_journal f = omodify (\<lambda>st. st\<lparr>st_journal := f (st_journal st)\<rparr>)"

definition modify_progress where
  "modify_progress f = omodify (\<lambda>st. st\<lparr>st_progress := f (st_progress st)\<rparr>)"

definition modify_pending where
  "modify_pending f = omodify (\<lambda>st. st\<lparr>st_pending := f (st_pending st)\<rparr>)"

definition modify_trial_rows where
  "modify_trial_rows f = omodify (\<lambda>st. st\<lparr>st_trial_rows := f (st_trial_rows st)\<rparr>)"

definition modify_metric_rows where
  "modify_metric_rows f = omodify (\<lambda>st. st\<lparr>st_metric_rows := f (st_metric_rows st)\<rparr>)"

definition modify_event_rows where
  "modify_event_rows f = omodify (\<lambda>st. st\<lparr>st_event_rows := f (st_event_rows st)\<rparr>)"

definition modify_contract_stage_rows where
  "modify_contract_stage_rows f = omodify (\<lambda>st. st\<lparr>st_contract_stage_rows := f (st_contract_stage_rows st)\<rparr>)"

definition modify_variant_snapshot_rows where
  "modify_variant_snapshot_rows f = omodify (\<lambda>st. st\<lparr>st_variant_snapshot_rows := f (st_variant_snapshot_rows st)\<rparr>)"

definition modify_json_rows where
  "modify_json_rows f = omodify (\<lambda>st. st\<lparr>st_json_rows := f (st_json_rows st)\<rparr>)"

definition modify_attempt_objects where
  "modify_attempt_objects f = omodify (\<lambda>st. st\<lparr>st_attempt_objects := f (st_attempt_objects st)\<rparr>)"

definition modify_lineage_versions where
  "modify_lineage_versions f = omodify (\<lambda>st. st\<lparr>st_lineage_versions := f (st_lineage_versions st)\<rparr>)"

definition modify_lineage_heads where
  "modify_lineage_heads f = omodify (\<lambda>st. st\<lparr>st_lineage_heads := f (st_lineage_heads st)\<rparr>)"

section \<open>Schedule slots\<close>

definition pending_slot :: "nat \<Rightarrow> trial_slot \<Rightarrow> schedule_slot_record" where
  "pending_slot schedule_idx slot =
     \<lparr>ssr_schedule_idx = schedule_idx, ssr_state = SlotPending, ssr_slot = slot, ssr_trial_id = None,
      ssr_attempt = 0, ssr_worker_id = None, ssr_owner_id = None, ssr_lease_epoch = 0,
      ssr_lease_expires_at = None, ssr_slot_commit_id = None, ssr_slot_status = None\<rparr>"

definition upsert_schedule_slot ::
  "string \<Rightarrow> nat \<Rightarrow> trial_slot \<Rightarrow> (slot_key \<rightharpoonup> schedule_slot_record) \<Rightarrow>
   (slot_key \<rightharpoonup> schedule_slot_record)" where
  "upsert_schedule_slot run_id schedule_idx slot slots =
     slots((run_id, schedule_idx) \<mapsto>
       (case slots (run_id, schedule_idx) of
          None \<Rightarrow> pending_slot schedule_idx slot
        | Some existing \<Rightarrow> existing\<lparr>ssr_slot := slot\<rparr>))"

definition ensure_schedule_slots ::
  "(db_point \<Rightarrow> bool) \<Rightarrow> string \<Rightarrow> trial_slot list \<Rightarrow> unit store_op" where
  "ensure_schedule_slots io run_id schedule =
     transactional
       (obind (at_point io AtBegin) (\<lambda>_.
        obind (oforeach (enumerate_rows schedule) (\<lambda>(schedule_idx, slot).
          obind (olift (as_i64 schedule_idx)) (\<lambda>schedule_idx.
          obind (at_point io AtSlotInsert) (\<lambda>_.
          modify_slots (upsert_schedule_slot run_id schedule_idx slot))))) (\<lambda>_.
        at_point io AtCommit)))"

definition schedule_slot :: "run_store \<Rightarrow> string \<Rightarrow> nat \<Rightarrow> schedule_slot_record option" where
  "schedule_slot st run_id schedule_idx = st_slots st (run_id, schedule_idx)"

definition run_slot_indices :: "run_store \<Rightarrow> string \<Rightarrow> nat set" where
  "run_slot_indices st run_id = snd ` {k \<in> dom (st_slots st). fst k = run_id}"

text \<open>\<open>WHERE state='active' ORDER BY schedule_idx\<close>.\<close>

definition active_schedule_slots :: "run_store \<Rightarrow> string \<Rightarrow> schedule_slot_record list" where
  "active_schedule_slots st run_id =
     filter (\<lambda>r. ssr_state r = SlotActive)
       (map (\<lambda>i. the (st_slots st (run_id, i))) (sorted_list_of_set (run_slot_indices st run_id)))"

definition claimed_slot ::
  "string \<Rightarrow> string \<Rightarrow> string \<Rightarrow> string option \<Rightarrow> schedule_slot_record \<Rightarrow> schedule_slot_record" where
  "claimed_slot trial_id worker_id owner_id lease_expires_at existing =
     existing
       \<lparr>ssr_state := SlotActive, ssr_trial_id := Some trial_id,
        ssr_attempt := saturating_add (ssr_attempt existing) 1, ssr_worker_id := Some worker_id,
        ssr_owner_id := Some owner_id, ssr_lease_epoch := saturating_add (ssr_lease_epoch existing) 1,
        ssr_lease_expires_at := lease_expires_at, ssr_slot_commit_id := None,
        ssr_slot_status := None\<rparr>"

definition claim_schedule_slot ::
  "(db_point \<Rightarrow> bool) \<Rightarrow> string \<Rightarrow> nat \<Rightarrow> string \<Rightarrow> string \<Rightarrow> string \<Rightarrow> string option \<Rightarrow>
   schedule_slot_record option store_op" where
  "claim_schedule_slot io run_id schedule_idx trial_id worker_id owner_id lease_expires_at =
     transactional
       (obind (at_point io AtBegin) (\<lambda>_.
        obind (olift (as_i64 schedule_idx)) (\<lambda>schedule_idx.
        obind (at_point io AtSlotSelect) (\<lambda>_.
        obind (oget (\<lambda>st. schedule_slot st run_id schedule_idx)) (\<lambda>existing.
        case existing of
          None \<Rightarrow> obind (at_point io AtCommit) (\<lambda>_. oreturn None)
        | Some existing \<Rightarrow>
            if ssr_state existing \<noteq> SlotPending
            then obind (at_point io AtCommit) (\<lambda>_. oreturn None)
            else
              (let claimed = claimed_slot trial_id worker_id owner_id lease_expires_at existing
               in obind (olift (as_i64 (ssr_attempt claimed))) (\<lambda>_.
                  if \<not> ssr_lease_epoch claimed < 2 ^ 63
                  then ofail (LeaseEpochOverflow (ssr_lease_epoch claimed))
                  else
                    obind (at_point io AtSlotUpdate) (\<lambda>_.
                    obind (modify_slots (\<lambda>slots. slots((run_id, schedule_idx) \<mapsto> claimed))) (\<lambda>_.
                    obind (at_point io AtCommit) (\<lambda>_.
                    oreturn (Some claimed)))))))))))"

text \<open>The columns set by both statements that commit a slot.\<close>

definition committed_slot ::
  "string \<Rightarrow> nat \<Rightarrow> string \<Rightarrow> string \<Rightarrow> schedule_slot_record \<Rightarrow> schedule_slot_record" where
  "committed_slot trial_id attempt slot_commit_id slot_status existing =
     existing
       \<lparr>ssr_state := SlotCommitted, ssr_trial_id := Some trial_id,
        ssr_attempt := max (ssr_attempt existing) attempt, ssr_worker_id := None,
        ssr_owner_id := None, ssr_lease_expires_at := None,
        ssr_slot_commit_id := Some slot_commit_id, ssr_slot_status := Some slot_status\<rparr>"

definition mark_schedule_slot_committed ::
  "(db_point \<Rightarrow> bool) \<Rightarrow> string \<Rightarrow> nat \<Rightarrow> string \<Rightarrow> nat \<Rightarrow> string \<Rightarrow> string \<Rightarrow> unit store_op" where
  "mark_schedule_slot_committed io run_id schedule_idx trial_id attempt slot_commit_id slot_status =
     obind (olift (as_i64 schedule_idx)) (\<lambda>schedule_idx.
     obind (at_point io AtSlotSelect) (\<lambda>_.
     obind (oget (\<lambda>st. schedule_slot st run_id schedule_idx)) (\<lambda>existing.
     obind (case existing of
              None \<Rightarrow> oreturn ()
            | Some existing \<Rightarrow>
                if ssr_state existing = SlotActive \<and> ssr_trial_id existing \<noteq> Some trial_id
                then ofail (SlotOwnerMismatch schedule_idx (ssr_trial_id existing) trial_id)
                else oreturn ()) (\<lambda>_.
     obind (olift (as_i64 attempt)) (\<lambda>attempt.
     obind (at_point io AtSlotUpdate) (\<lambda>_.
     modify_slots (\<lambda>slots.
       case slots (run_id, schedule_idx) of
         None \<Rightarrow> slots
       | Some existing \<Rightarrow>
           slots((run_id, schedule_idx) \<mapsto>
             committed_slot trial_id attempt slot_commit_id slot_status existing))))))))"

definition released_slot :: "schedule_slot_record \<Rightarrow> schedule_slot_record" where
  "released_slot existing =
     existing
       \<lparr>ssr_state := SlotPending, ssr_trial_id := None, ssr_worker_id := None, ssr_owner_id := None,
        ssr_lease_expires_at := None, ssr_slot_commit_id := None, ssr_slot_status := None\<rparr>"

definition release_schedule_slot_to_pending ::
  "(db_point \<Rightarrow> bool) \<Rightarrow> string \<Rightarrow> nat \<Rightarrow> unit store_op" where
  "release_schedule_slot_to_pending io run_id schedule_idx =
     obind (olift (as_i64 schedule_idx)) (\<lambda>schedule_idx.
     obind (at_point io AtSlotUpdate) (\<lambda>_.
     modify_slots (\<lambda>slots.
       case slots (run_id, schedule_idx) of
         None \<Rightarrow> slots
       | Some existing \<Rightarrow>
           if ssr_state existing \<noteq> SlotCommitted
           then slots((run_id, schedule_idx) \<mapsto> released_slot existing)
           else slots)))"

section \<open>Journal, progress and pending completions\<close>

text \<open>
  Schema contracts are checked by a JSON-schema validator: its verdict on each kind of value is a
  parameter.
\<close>

record schema_contracts =
  contract_commit_record :: "slot_commit_record \<Rightarrow> bool"
  contract_progress :: "schedule_progress \<Rightarrow> bool"
  contract_row :: "json \<Rightarrow> bool"
  contract_pending :: "nat \<Rightarrow> trial_execution_result \<Rightarrow> bool"

definition journal_key_of :: "slot_commit_record \<Rightarrow> journal_key" where
  "journal_key_of record =
     (scr_run_id record, scr_schedule_idx record, scr_attempt record, scr_record_type record)"

definition upsert_slot_commit_record ::
  "(db_point \<Rightarrow> bool) \<Rightarrow> slot_commit_record \<Rightarrow> unit store_op" where
  "upsert_slot_commit_record io record =
     obind (olift (as_i64 (scr_schedule_idx record))) (\<lambda>_.
     obind (olift (as_i64 (scr_attempt record))) (\<lambda>_.
     obind (at_point io AtJournal) (\<lambda>_.
     modify_journal (\<lambda>journal. journal(journal_key_of record \<mapsto> record)))))"

definition append_slot_commit_record ::
  "(db_point \<Rightarrow> bool) \<Rightarrow> schema_contracts \<Rightarrow> slot_commit_record \<Rightarrow> unit store_op" where
  "append_slot_commit_record io contracts record =
     (if contract_commit_record contracts record then upsert_slot_commit_record io record
      else ofail (SchemaContract ''slot commit record''))"

text \<open>\<open>ORDER BY schedule_idx, attempt, CASE record_type WHEN 'intent' THEN 0 ELSE 1 END\<close>.\<close>

definition journal_rank :: "journal_key \<Rightarrow> nat \<times> nat \<times> nat \<times> string" where
  "journal_rank k =
     (case k of (run_id, idx, attempt, ty) \<Rightarrow> (idx, attempt, if ty = ''intent'' then 0 else 1, ty))"

definition unrank :: "string \<Rightarrow> nat \<times> nat \<times> nat \<times> string \<Rightarrow> journal_key" where
  "unrank run_id r = (case r of (idx, attempt, _, ty) \<Rightarrow> (run_id, idx, attempt, ty))"

definition load_slot_commit_records :: "run_store \<Rightarrow> string \<Rightarrow> slot_commit_record list" where
  "load_slot_commit_records st run_id =
     map (\<lambda>r. the (st_journal st (unrank run_id r)))
       (sorted_list_of_set (journal_rank ` {k \<in> dom (st_journal st). fst k = run_id}))"

definition put_schedule_progress ::
  "(db_point \<Rightarrow> bool) \<Rightarrow> schema_contracts \<Rightarrow> string \<Rightarrow> schedule_progress \<Rightarrow> unit store_op" where
  "put_schedule_progress io contracts run_id progress =
     (if contract_progress contracts progress
      then obind (at_point io AtRuntimeKv) (\<lambda>_.
           modify_progress (\<lambda>kv. kv(run_id \<mapsto> progress)))
      else ofail (SchemaContract ''schedule_progress_v2''))"

definition replace_pending_trial_completions ::
  "(db_point \<Rightarrow> bool) \<Rightarrow> schema_contracts \<Rightarrow> string \<Rightarrow> pending_trial_completion_record list \<Rightarrow>
   unit store_op" where
  "replace_pending_trial_completions io contracts run_id rows =
     transactional
       (obind (at_point io AtBegin) (\<lambda>_.
        obind (at_point io AtPending) (\<lambda>_.
        obind (modify_pending (\<lambda>pending k. if fst k = run_id then None else pending k)) (\<lambda>_.
        obind (oforeach rows (\<lambda>row.
          if \<not> contract_pending contracts (ptc_schedule_idx row) (ptc_trial_result row)
          then ofail (SchemaContract ''pending_trial_completions row'')
          else obind (olift (as_i64 (ptc_schedule_idx row))) (\<lambda>schedule_idx.
            obind (oget (\<lambda>st. st_pending st (run_id, schedule_idx))) (\<lambda>duplicate.
            if duplicate \<noteq> None then ofail (DatabaseError AtPending)
            else modify_pending (\<lambda>pending.
              pending((run_id, schedule_idx) \<mapsto> ptc_trial_result row)))))) (\<lambda>_.
        at_point io AtCommit)))))"

definition load_pending_trial_completions ::
  "run_store \<Rightarrow> string \<Rightarrow> pending_trial_completion_record list" where
  "load_pending_trial_completions st run_id =
     map (\<lambda>i. \<lparr>ptc_schema_version = ''pending_trial_completion_v1'', ptc_schedule_idx = i,
               ptc_trial_result = the (st_pending st (run_id, i))\<rparr>)
       (sorted_list_of_set (snd ` {k \<in> dom (st_pending st). fst k = run_id}))"

section \<open>Fact rows\<close>

definition typed_row_key :: "'a slot_row_scheme \<Rightarrow> (store_error, typed_row_key) result" where
  "typed_row_key row =
     rbind (as_i64 (sr_schedule_idx row)) (\<lambda>schedule_idx.
     rbind (as_i64 (sr_attempt row)) (\<lambda>attempt.
     rbind (as_i64 (sr_row_seq row)) (\<lambda>row_seq.
     Ok (sr_run_id row, sr_trial_id row, schedule_idx, attempt, row_seq))))"

definition upsert_trial_record :: "(db_point \<Rightarrow> bool) \<Rightarrow> trial_record \<Rightarrow> unit store_op" where
  "upsert_trial_record io row =
     obind (olift (typed_row_key row)) (\<lambda>key.
     obind (at_point io AtFacts) (\<lambda>_.
     modify_trial_rows (\<lambda>t. t(key \<mapsto> row))))"

definition upsert_metric_record :: "(db_point \<Rightarrow> bool) \<Rightarrow> metric_row \<Rightarrow> unit store_op" where
  "upsert_metric_record io row =
     obind (olift (typed_row_key row)) (\<lambda>key.
     obind (at_point io AtFacts) (\<lambda>_.
     modify_metric_rows (\<lambda>t. t(key \<mapsto> row))))"

definition upsert_event_record :: "(db_point \<Rightarrow> bool) \<Rightarrow> event_row \<Rightarrow> unit store_op" where
  "upsert_event_record io row =
     obind (olift (typed_row_key row)) (\<lambda>key.
     obind (at_point io AtFacts) (\<lambda>_.
     modify_event_rows (\<lambda>t. t(key \<mapsto> row))))"

definition upsert_contract_stage_record ::
  "(db_point \<Rightarrow> bool) \<Rightarrow> contract_stage_row \<Rightarrow> unit store_op" where
  "upsert_contract_stage_record io row =
     obind (olift (typed_row_key row)) (\<lambda>key.
     obind (at_point io AtFacts) (\<lambda>_.
     modify_contract_stage_rows (\<lambda>t. t(key \<mapsto> row))))"

definition upsert_variant_snapshot_record ::
  "(db_point \<Rightarrow> bool) \<Rightarrow> variant_snapshot_row \<Rightarrow> unit store_op" where
  "upsert_variant_snapshot_record io row =
     obind (olift (typed_row_key row)) (\<lambda>key.
     obind (at_point io AtFacts) (\<lambda>_.
     modify_variant_snapshot_rows (\<lambda>t. t(key \<mapsto> row))))"

definition row_op :: "(row_error, 'a) result \<Rightarrow> 'a store_op" where
  "row_op r = olift (map_err RowFault r)"

definition upsert_attempt_objects_from_evidence_row ::
  "(db_point \<Rightarrow> bool) \<Rightarrow> externs \<Rightarrow> json \<Rightarrow> unit store_op" where
  "upsert_attempt_objects_from_evidence_row io ex row =
     obind (row_op (evidence_attempt_objects ex row)) (\<lambda>objects.
     case objects of
       None \<Rightarrow> oreturn ()
     | Some objects \<Rightarrow>
         oforeach (eao_refs objects) (\<lambda>(role, object_ref).
           obind (olift (as_i64 (eao_schedule_idx objects))) (\<lambda>schedule_idx.
           obind (olift (as_i64 (eao_attempt objects))) (\<lambda>attempt.
           obind (at_point io AtFacts) (\<lambda>_.
           modify_attempt_objects (\<lambda>t.
             t((eao_run_id objects, eao_trial_id objects, schedule_idx, attempt, role)
               \<mapsto> (object_ref, row))))))))"

definition upsert_lineage_from_chain_state_row ::
  "(db_point \<Rightarrow> bool) \<Rightarrow> externs \<Rightarrow> json \<Rightarrow> unit store_op" where
  "upsert_lineage_from_chain_state_row io ex row =
     obind (row_op (chain_state_lineage ex row)) (\<lambda>lineage.
     let version_id = lineage_version_id ex lineage;
         chain = (csl_run_id lineage, csl_chain_key lineage)
     in
     obind (oget (\<lambda>st. map_option lh_latest_version_id (st_lineage_heads st chain))) (\<lambda>parent_version_id.
     obind (olift (as_i64 (csl_step_index lineage))) (\<lambda>step_index.
     obind (at_point io AtFacts) (\<lambda>_.
     obind (modify_lineage_versions (\<lambda>t.
       t(version_id \<mapsto> \<lparr>lv_lineage = lineage, lv_parent_version_id = parent_version_id\<rparr>))) (\<lambda>_.
     modify_lineage_heads (\<lambda>t.
       t(chain \<mapsto> \<lparr>lh_latest_version_id = version_id, lh_step_index = step_index,
                    lh_latest_workspace_ref = csl_workspace_ref lineage\<rparr>)))))))"

definition upsert_json_row ::
  "(db_point \<Rightarrow> bool) \<Rightarrow> externs \<Rightarrow> schema_contracts \<Rightarrow> JsonRowTable \<Rightarrow> json \<Rightarrow> unit store_op" where
  "upsert_json_row io ex contracts table row =
     (if \<not> contract_row contracts row then ofail (SchemaContract ''durable row'')
      else
        obind (row_op (required_json_str ex row ''/run_id'')) (\<lambda>run_id.
        obind (row_op (required_json_usize ex row ''/schedule_idx'')) (\<lambda>schedule_idx.
        obind (row_op (required_json_usize ex row ''/attempt'')) (\<lambda>attempt.
        obind (row_op (required_json_usize ex row ''/row_seq'')) (\<lambda>row_seq.
        obind (row_op (required_json_str ex row ''/slot_commit_id'')) (\<lambda>_.
        obind (olift (as_i64 schedule_idx)) (\<lambda>schedule_idx.
        obind (olift (as_i64 attempt)) (\<lambda>attempt.
        obind (olift (as_i64 row_seq)) (\<lambda>row_seq.
        obind (at_point io AtFacts) (\<lambda>_.
        obind (modify_json_rows (\<lambda>tables.
          tables(table := (tables table)((run_id, schedule_idx, attempt, row_seq) \<mapsto> row)))) (\<lambda>_.
        case table of
          Evidence \<Rightarrow> upsert_attempt_objects_from_evidence_row io ex row
        | ChainState \<Rightarrow> upsert_lineage_from_chain_state_row io ex row
        | TrialConclusion \<Rightarrow> oreturn ())))))))))))"

section \<open>The commit transaction\<close>

record slot_commit_transaction_input =
  sci_run_id :: string
  sci_schedule_idx :: nat
  sci_slot :: "trial_slot option"
  sci_trial_id :: string
  sci_attempt :: nat
  sci_slot_commit_id :: string
  sci_slot_status :: string
  sci_commit_record :: slot_commit_record
  sci_schedule_progress :: schedule_progress
  sci_trial_rows :: "trial_record list"
  sci_metric_rows :: "metric_row list"
  sci_event_rows :: "event_row list"
  sci_contract_stage_rows :: "contract_stage_row list"
  sci_variant_snapshot_rows :: "variant_snapshot_row list"
  sci_evidence_rows :: "json list"
  sci_chain_state_rows :: "json list"
  sci_trial_conclusion_rows :: "json list"

definition validate_commit_contracts ::
  "schema_contracts \<Rightarrow> slot_commit_transaction_input \<Rightarrow> (store_error, unit) result" where
  "validate_commit_contracts contracts input =
     rbind (ensure (contract_commit_record contracts (sci_commit_record input))
       (SchemaContract ''slot commit record'')) (\<lambda>_.
     rbind (ensure (contract_progress contracts (sci_schedule_progress input))
       (SchemaContract ''schedule_progress_v2'')) (\<lambda>_.
     rbind (ensure (list_all (contract_row contracts) (sci_evidence_rows input))
       (SchemaContract ''evidence row'')) (\<lambda>_.
     rbind (ensure (list_all (contract_row contracts) (sci_chain_state_rows input))
       (SchemaContract ''chain state row'')) (\<lambda>_.
     ensure (list_all (contract_row contracts) (sci_trial_conclusion_rows input))
       (SchemaContract ''trial conclusion row'')))))"

text \<open>\<open>ON CONFLICT DO NOTHING\<close>.\<close>

definition insert_slot_if_missing ::
  "(db_point \<Rightarrow> bool) \<Rightarrow> slot_commit_transaction_input \<Rightarrow> nat \<Rightarrow> unit store_op" where
  "insert_slot_if_missing io input schedule_idx =
     (case sci_slot input of
        None \<Rightarrow> oreturn ()
      | Some slot \<Rightarrow>
          obind (at_point io AtSlotInsert) (\<lambda>_.
          modify_slots (\<lambda>slots.
            if slots (sci_run_id input, schedule_idx) = None
            then slots((sci_run_id input, schedule_idx) \<mapsto> pending_slot schedule_idx slot)
            else slots)))"

definition check_commit_owner ::
  "slot_commit_transaction_input \<Rightarrow> nat \<Rightarrow> schedule_slot_record option \<Rightarrow> (store_error, unit) result" where
  "check_commit_owner input schedule_idx existing =
     rbind (ok_or (SlotMissing schedule_idx) existing) (\<lambda>existing.
     if ssr_state existing = SlotActive \<and> ssr_trial_id existing \<noteq> Some (sci_trial_id input)
     then Err (SlotOwnerMismatch schedule_idx (ssr_trial_id existing) (sci_trial_id input))
     else if ssr_state existing = SlotCommitted \<and>
             ssr_slot_commit_id existing \<noteq> Some (sci_slot_commit_id input)
     then Err (SlotAlreadyCommitted schedule_idx (ssr_slot_commit_id existing) (sci_slot_commit_id input))
     else Ok ())"

definition write_fact_rows ::
  "(db_point \<Rightarrow> bool) \<Rightarrow> externs \<Rightarrow> schema_contracts \<Rightarrow> slot_commit_transaction_input \<Rightarrow>
   unit store_op" where
  "write_fact_rows io ex contracts input =
     obind (oforeach (sci_trial_rows input) (upsert_trial_record io)) (\<lambda>_.
     obind (oforeach (sci_metric_rows input) (upsert_metric_record io)) (\<lambda>_.
     obind (oforeach (sci_event_rows input) (upsert_event_record io)) (\<lambda>_.
     obind (oforeach (sci_contract_stage_rows input) (upsert_contract_stage_record io)) (\<lambda>_.
     obind (oforeach (sci_variant_snapshot_rows input) (upsert_variant_snapshot_record io)) (\<lambda>_.
     obind (oforeach (sci_evidence_rows input) (upsert_json_row io ex contracts Evidence)) (\<lambda>_.
     obind (oforeach (sci_chain_state_rows input) (upsert_json_row io ex contracts ChainState)) (\<lambda>_.
     oforeach (sci_trial_conclusion_rows input)
       (upsert_json_row io ex contracts TrialConclusion))))))))"

definition commit_slot_row ::
  "(db_point \<Rightarrow> bool) \<Rightarrow> slot_commit_transaction_input \<Rightarrow> nat \<Rightarrow> unit store_op" where
  "commit_slot_row io input schedule_idx =
     obind (olift (as_i64 (sci_attempt input))) (\<lambda>attempt.
     obind (at_point io AtSlotUpdate) (\<lambda>_.
     obind (oget (\<lambda>st. st_slots st (sci_run_id input, schedule_idx))) (\<lambda>existing.
     case existing of
       None \<Rightarrow> ofail (SlotCommitFailed schedule_idx)
     | Some existing \<Rightarrow>
         if ssr_state existing = SlotAbandoned then ofail (SlotCommitFailed schedule_idx)
         else modify_slots (\<lambda>slots.
           slots((sci_run_id input, schedule_idx) \<mapsto>
             committed_slot (sci_trial_id input) attempt (sci_slot_commit_id input)
               (sci_slot_status input) existing)))))"

definition commit_schedule_slot_transaction ::
  "(db_point \<Rightarrow> bool) \<Rightarrow> externs \<Rightarrow> schema_contracts \<Rightarrow> slot_commit_transaction_input \<Rightarrow>
   unit store_op" where
  "commit_schedule_slot_transaction io ex contracts input =
     obind (olift (validate_commit_contracts contracts input)) (\<lambda>_.
     transactional
       (obind (at_point io AtBegin) (\<lambda>_.
        obind (olift (as_i64 (sci_schedule_idx input))) (\<lambda>schedule_idx.
        obind (insert_slot_if_missing io input schedule_idx) (\<lambda>_.
        obind (at_point io AtSlotSelect) (\<lambda>_.
        obind (oget (\<lambda>st. st_slots st (sci_run_id input, schedule_idx))) (\<lambda>existing.
        obind (olift (check_commit_owner input schedule_idx existing)) (\<lambda>_.
        obind (write_fact_rows io ex contracts input) (\<lambda>_.
        obind (upsert_slot_commit_record io (sci_commit_record input)) (\<lambda>_.
        obind (put_schedule_progress io contracts (sci_run_id input) (sci_schedule_progress input)) (\<lambda>_.
        obind (at_point io AtPending) (\<lambda>_.
        obind (modify_pending (\<lambda>pending.
          pending((sci_run_id input, schedule_idx) := None))) (\<lambda>_.
        obind (commit_slot_row io input schedule_idx) (\<lambda>_.
        at_point io AtCommit))))))))))))))"

section \<open>Outcomes of the slot operations\<close>

lemma at_point_outcome: "at_point io p st = (if io p then (Ok (), st) else (Err (DatabaseError p), st))"
  by (simp add: at_point_def op_defs)

lemmas store_op_simps = op_defs transactional_def at_point_outcome as_i64_def schedule_slot_def
  modify_slots_def modify_journal_def modify_progress_def modify_pending_def

lemma upsert_schedule_slot_simps:
  "upsert_schedule_slot run_id i slot slots k =
     (if k = (run_id, i) then
        Some (case slots k of None \<Rightarrow> pending_slot i slot | Some r \<Rightarrow> r\<lparr>ssr_slot := slot\<rparr>)
      else slots k)"
  by (auto simp: upsert_schedule_slot_def)

lemma st_slots_self [simp]: "st\<lparr>st_slots := st_slots st\<rparr> = st"
  by simp

text \<open>A claim takes a pending slot or leaves the store alone.\<close>

lemma claim_schedule_slot_outcome:
  assumes "claim_schedule_slot io run_id i trial_id worker_id owner_id exp st = (r, st')"
  shows "(st' = st \<and> (r = Ok None \<or> (\<exists>e. r = Err e))) \<or>
    (\<exists>existing. st_slots st (run_id, i) = Some existing \<and> ssr_state existing = SlotPending \<and>
      ssr_attempt existing + 1 < 2 ^ 63 \<and> ssr_lease_epoch existing + 1 < 2 ^ 63 \<and>
      r = Ok (Some (claimed_slot trial_id worker_id owner_id exp existing)) \<and>
      st' = st\<lparr>st_slots := (st_slots st)((run_id, i) \<mapsto>
        claimed_slot trial_id worker_id owner_id exp existing)\<rparr>)"
proof (cases "st_slots st (run_id, i)")
  case None
  with assms show ?thesis
    by (auto simp add: claim_schedule_slot_def store_op_simps split: if_splits)
next
  case (Some existing)
  with assms show ?thesis
    by (simp add: claim_schedule_slot_def store_op_simps Let_def split: if_splits)
      (auto simp add: claimed_slot_def saturating_add_def usize_max_def)
qed

lemma mark_schedule_slot_committed_outcome:
  assumes "mark_schedule_slot_committed io run_id i trial_id attempt sid status st = (r, st')"
  shows "st' = st \<or>
    (\<exists>existing. st_slots st (run_id, i) = Some existing \<and>
      \<not> (ssr_state existing = SlotActive \<and> ssr_trial_id existing \<noteq> Some trial_id) \<and>
      attempt < 2 ^ 63 \<and> r = Ok () \<and>
      st' = st\<lparr>st_slots := (st_slots st)((run_id, i) \<mapsto>
        committed_slot trial_id attempt sid status existing)\<rparr>)"
  using assms
  by (cases "st_slots st (run_id, i)")
    (auto simp add: mark_schedule_slot_committed_def store_op_simps split: if_splits)

lemma release_schedule_slot_to_pending_outcome:
  assumes "release_schedule_slot_to_pending io run_id i st = (r, st')"
  shows "st' = st \<or>
    (\<exists>existing. st_slots st (run_id, i) = Some existing \<and> ssr_state existing \<noteq> SlotCommitted \<and>
      r = Ok () \<and> st' = st\<lparr>st_slots := (st_slots st)((run_id, i) \<mapsto> released_slot existing)\<rparr>)"
  using assms
  by (cases "st_slots st (run_id, i)")
    (auto simp add: release_schedule_slot_to_pending_def store_op_simps split: if_splits)

text \<open>The tables that decide the fate of a slot; fact rows never touch them.\<close>

definition slot_tables ::
  "run_store \<Rightarrow> (slot_key \<rightharpoonup> schedule_slot_record) \<times> (journal_key \<rightharpoonup> slot_commit_record) \<times>
     (string \<rightharpoonup> schedule_progress) \<times> (slot_key \<rightharpoonup> trial_execution_result)" where
  "slot_tables st = (st_slots st, st_journal st, st_progress st, st_pending st)"

definition keeps_slot_tables :: "'a store_op \<Rightarrow> bool" where
  "keeps_slot_tables m \<longleftrightarrow> (\<forall>st. slot_tables (snd (m st)) = slot_tables st)"

lemma keeps_obind [intro]:
  "keeps_slot_tables m \<Longrightarrow> (\<And>x. keeps_slot_tables (f x)) \<Longrightarrow> keeps_slot_tables (obind m f)"
  by (auto simp: keeps_slot_tables_def obind_def split: prod.splits sum.splits) (metis snd_conv)+

lemma keeps_oforeach [intro]:
  "(\<And>x. keeps_slot_tables (f x)) \<Longrightarrow> keeps_slot_tables (oforeach xs f)"
  by (induction xs) (auto simp: keeps_slot_tables_def [of "oreturn ()"] oreturn_def)

lemma keeps_basic [intro]:
  "keeps_slot_tables (oreturn x)" "keeps_slot_tables (ofail e)" "keeps_slot_tables (olift r)"
  "keeps_slot_tables (oget g)" "keeps_slot_tables (at_point io p)"
  "keeps_slot_tables (row_op q)"
  "keeps_slot_tables (modify_trial_rows f1)" "keeps_slot_tables (modify_metric_rows f2)"
  "keeps_slot_tables (modify_event_rows f3)" "keeps_slot_tables (modify_contract_stage_rows f4)"
  "keeps_slot_tables (modify_variant_snapshot_rows f5)" "keeps_slot_tables (modify_json_rows f6)"
  "keeps_slot_tables (modify_attempt_objects f7)" "keeps_slot_tables (modify_lineage_versions f8)"
  "keeps_slot_tables (modify_lineage_heads f9)"
  by (simp_all add: keeps_slot_tables_def op_defs at_point_outcome row_op_def slot_tables_def
      modify_trial_rows_def modify_metric_rows_def modify_event_rows_def
      modify_contract_stage_rows_def modify_variant_snapshot_rows_def modify_json_rows_def
      modify_attempt_objects_def modify_lineage_versions_def modify_lineage_heads_def)

lemma keeps_upserts [intro]:
  "keeps_slot_tables (upsert_trial_record io r1)" "keeps_slot_tables (upsert_metric_record io r2)"
  "keeps_slot_tables (upsert_event_record io r3)"
  "keeps_slot_tables (upsert_contract_stage_record io r4)"
  "keeps_slot_tables (upsert_variant_snapshot_record io r5)"
  unfolding upsert_trial_record_def upsert_metric_record_def upsert_event_record_def
    upsert_contract_stage_record_def upsert_variant_snapshot_record_def
  by (intro keeps_obind keeps_basic)+

lemma keeps_attempt_objects [intro]: "keeps_slot_tables (upsert_attempt_objects_from_evidence_row io ex row)"
  unfolding upsert_attempt_objects_from_evidence_row_def
  by (intro keeps_obind keeps_basic)
    (auto split: option.split prod.split intro!: keeps_oforeach keeps_obind keeps_basic)

lemma keeps_lineage [intro]: "keeps_slot_tables (upsert_lineage_from_chain_state_row io ex row)"
  unfolding upsert_lineage_from_chain_state_row_def Let_def
  by (intro keeps_obind keeps_basic)

lemma keeps_json_row [intro]: "keeps_slot_tables (upsert_json_row io ex contracts table row)"
  unfolding upsert_json_row_def
  by (auto split: JsonRowTable.split intro!: keeps_obind keeps_basic)

lemma keeps_write_fact_rows: "keeps_slot_tables (write_fact_rows io ex contracts input)"
  unfolding write_fact_rows_def
  by (intro keeps_obind keeps_oforeach keeps_upserts keeps_json_row)

text \<open>What a successful commit transaction leaves in the slot tables.\<close>

definition commit_subject :: "slot_commit_transaction_input \<Rightarrow> run_store \<Rightarrow> schedule_slot_record option" where
  "commit_subject input st =
     (case st_slots st (sci_run_id input, sci_schedule_idx input) of
        Some existing \<Rightarrow> Some existing
      | None \<Rightarrow> map_option (pending_slot (sci_schedule_idx input)) (sci_slot input))"

definition committed_tables ::
  "slot_commit_transaction_input \<Rightarrow> schedule_slot_record \<Rightarrow> run_store \<Rightarrow>
   (slot_key \<rightharpoonup> schedule_slot_record) \<times> (journal_key \<rightharpoonup> slot_commit_record) \<times>
     (string \<rightharpoonup> schedule_progress) \<times> (slot_key \<rightharpoonup> trial_execution_result)" where
  "committed_tables input existing st =
     ((st_slots st)((sci_run_id input, sci_schedule_idx input) \<mapsto>
        committed_slot (sci_trial_id input) (sci_attempt input) (sci_slot_commit_id input)
          (sci_slot_status input) existing),
      (st_journal st)(journal_key_of (sci_commit_record input) \<mapsto> sci_commit_record input),
      (st_progress st)(sci_run_id input \<mapsto> sci_schedule_progress input),
      (st_pending st)((sci_run_id input, sci_schedule_idx input) := None))"

lemma insert_slot_if_missing_Ok:
  assumes "insert_slot_if_missing io input i st = (Ok (), st')"
  shows "st' = st\<lparr>st_slots := st_slots st'\<rparr> \<and>
    st_slots st' = (if st_slots st (sci_run_id input, i) = None \<and> sci_slot input \<noteq> None
      then (st_slots st)((sci_run_id input, i) \<mapsto> pending_slot i (the (sci_slot input)))
      else st_slots st)"
  using assms
  by (auto simp: insert_slot_if_missing_def store_op_simps split: option.splits if_splits)

lemma write_fact_rows_Ok:
  "write_fact_rows io ex contracts input st = (r, st') \<Longrightarrow> slot_tables st' = slot_tables st"
  using keeps_write_fact_rows by (metis keeps_slot_tables_def snd_conv)

lemma commit_finish_Ok:
  assumes "obind (upsert_slot_commit_record io (sci_commit_record input)) (\<lambda>_.
        obind (put_schedule_progress io contracts (sci_run_id input) (sci_schedule_progress input)) (\<lambda>_.
        obind (at_point io AtPending) (\<lambda>_.
        obind (modify_pending (\<lambda>pending.
          pending((sci_run_id input, i) := None))) (\<lambda>_.
        obind (commit_slot_row io input i) (\<lambda>_.
        at_point io AtCommit))))) st = (Ok (), st')"
  shows "\<exists>existing. st_slots st (sci_run_id input, i) = Some existing \<and>
    ssr_state existing \<noteq> SlotAbandoned \<and> sci_attempt input < 2 ^ 63 \<and>
    (i = sci_schedule_idx input \<longrightarrow> slot_tables st' = committed_tables input existing st)"
  using assms
  by (auto simp: upsert_slot_commit_record_def put_schedule_progress_def commit_slot_row_def
      store_op_simps slot_tables_def committed_tables_def split: if_splits option.splits)

lemma commit_schedule_slot_transaction_Ok:
  assumes "commit_schedule_slot_transaction io ex contracts input st = (Ok (), st')"
  shows "\<exists>existing. commit_subject input st = Some existing \<and>
    check_commit_owner input (sci_schedule_idx input) (Some existing) = Ok () \<and>
    ssr_state existing \<noteq> SlotAbandoned \<and> sci_attempt input < 2 ^ 63 \<and>
    sci_schedule_idx input < 2 ^ 63 \<and> slot_tables st' = committed_tables input existing st"
proof -
  let ?i = "sci_schedule_idx input" and ?k = "(sci_run_id input, sci_schedule_idx input)"
  obtain st1 st2 where
      i: "?i < 2 ^ 63"
      and ins: "insert_slot_if_missing io input ?i st = (Ok (), st1)"
      and chk: "check_commit_owner input ?i (st_slots st1 ?k) = Ok ()"
      and facts: "write_fact_rows io ex contracts input st1 = (Ok (), st2)"
      and fin: "obind (upsert_slot_commit_record io (sci_commit_record input)) (\<lambda>_.
        obind (put_schedule_progress io contracts (sci_run_id input) (sci_schedule_progress input)) (\<lambda>_.
        obind (at_point io AtPending) (\<lambda>_.
        obind (modify_pending (\<lambda>pending. pending((sci_run_id input, ?i) := None))) (\<lambda>_.
        obind (commit_slot_row io input ?i) (\<lambda>_.
        at_point io AtCommit))))) st2 = (Ok (), st')"
    using assms
    by (auto simp: commit_schedule_slot_transaction_def transactional_Ok obind_eq_Ok olift_def oget_def
        at_point_outcome as_i64_def split: if_splits)
  obtain existing where e: "st_slots st2 ?k = Some existing" "ssr_state existing \<noteq> SlotAbandoned"
      "sci_attempt input < 2 ^ 63" "slot_tables st' = committed_tables input existing st2"
    using commit_finish_Ok [OF fin] by blast
  have t: "slot_tables st2 = slot_tables st1" by (rule write_fact_rows_Ok [OF facts])
  note st1 = insert_slot_if_missing_Ok [OF ins]
  from st1 have "st_journal st1 = st_journal st" "st_progress st1 = st_progress st"
      "st_pending st1 = st_pending st"
    by (metis run_store.ext_inject run_store.surjective run_store.update_convs(1))+
  with t st1 e(4) have "slot_tables st' = committed_tables input existing st"
    by (auto simp: slot_tables_def committed_tables_def)
  moreover from t e(1) have e1: "st_slots st1 ?k = Some existing" by (simp add: slot_tables_def)
  with st1 have "commit_subject input st = Some existing"
    by (auto simp: commit_subject_def split: option.splits if_splits)
  ultimately show ?thesis using i chk e1 e(2,3) by auto
qed

lemma commit_schedule_slot_transaction_Err:
  "commit_schedule_slot_transaction io ex contracts input st = (Err e, st') \<Longrightarrow> st' = st"
  by (auto simp: commit_schedule_slot_transaction_def obind_def olift_def transactional_Err
      split: sum.splits prod.splits)

text \<open>A successful \<open>ensure_schedule_slots\<close> creates the missing slots and refreshes the others.\<close>

definition ensured_slot :: "string \<Rightarrow> trial_slot list \<Rightarrow> run_store \<Rightarrow> slot_key \<Rightarrow> schedule_slot_record option" where
  "ensured_slot run_id schedule st k =
     (if fst k = run_id \<and> snd k < length schedule then
        Some (case st_slots st k of
                None \<Rightarrow> pending_slot (snd k) (schedule ! snd k)
              | Some r \<Rightarrow> r\<lparr>ssr_slot := schedule ! snd k\<rparr>)
      else st_slots st k)"

lemma enumerate_rows_snoc: "enumerate_rows (xs @ [x]) = enumerate_rows xs @ [(length xs, x)]"
  by (simp add: enumerate_rows_def)

lemma fold_upsert_schedule_slot:
  "fold (\<lambda>(i, slot) st. st\<lparr>st_slots := upsert_schedule_slot run_id i slot (st_slots st)\<rparr>)
     (enumerate_rows schedule) st = st\<lparr>st_slots := ensured_slot run_id schedule st\<rparr>"
proof (induction schedule rule: rev_induct)
  case Nil
  have "ensured_slot run_id [] st = st_slots st" by (simp add: ensured_slot_def fun_eq_iff)
  then show ?case by (simp add: enumerate_rows_def)
next
  case (snoc x xs)
  have "upsert_schedule_slot run_id (length xs) x (ensured_slot run_id xs st) =
      ensured_slot run_id (xs @ [x]) st"
    by (auto simp: fun_eq_iff upsert_schedule_slot_simps ensured_slot_def nth_append less_Suc_eq
        split: option.splits)
  with snoc.IH show ?case by (simp add: enumerate_rows_snoc)
qed

lemma ensure_schedule_slots_outcome:
  assumes "ensure_schedule_slots io run_id schedule st = (r, st')"
  shows "(\<exists>e. r = Err e) \<and> st' = st \<or>
    r = Ok () \<and> st' = st\<lparr>st_slots := ensured_slot run_id schedule st\<rparr>"
proof (cases r)
  case (Inl e)
  with assms show ?thesis by (simp add: ensure_schedule_slots_def transactional_Err)
next
  case (Inr u)
  let ?body = "\<lambda>(schedule_idx, slot). obind (olift (as_i64 schedule_idx)) (\<lambda>schedule_idx.
      obind (at_point io AtSlotInsert) (\<lambda>_. modify_slots (upsert_schedule_slot run_id schedule_idx slot)))"
  from assms Inr have "oforeach (enumerate_rows schedule) ?body st = (Ok (), st')"
    by (auto simp: ensure_schedule_slots_def transactional_Ok obind_eq_Ok at_point_outcome split: if_splits)
  then have "st' = fold (\<lambda>(i, slot) st. st\<lparr>st_slots := upsert_schedule_slot run_id i slot (st_slots st)\<rparr>)
      (enumerate_rows schedule) st"
    by (rule oforeach_Ok_fold [rotated])
      (auto simp: obind_eq_Ok at_point_outcome as_i64_def olift_def modify_slots_def omodify_def
        split: if_splits)
  with Inr show ?thesis by (simp add: fold_upsert_schedule_slot)
qed

section \<open>The store as a state machine\<close>

datatype slot_action =
    EnsureSlots string "trial_slot list"
  | ClaimSlot string nat string
  | MarkCommitted string nat string string
  | ReleaseSlot string nat
  | CommitSlot slot_commit_transaction_input
  | AppendRecord slot_commit_record
  | ReplacePending string

inductive store_step :: "run_store \<Rightarrow> slot_action \<Rightarrow> run_store \<Rightarrow> bool" where
  step_ensure:
    "ensure_schedule_slots io run_id schedule st = (r1, st') \<Longrightarrow>
     store_step st (EnsureSlots run_id schedule) st'"
| step_claim:
    "claim_schedule_slot io run_id i trial_id worker_id owner_id exp st = (r2, st') \<Longrightarrow>
     store_step st (ClaimSlot run_id i trial_id) st'"
| step_mark:
    "mark_schedule_slot_committed io run_id i trial_id attempt sid status st = (r3, st') \<Longrightarrow>
     store_step st (MarkCommitted run_id i trial_id sid) st'"
| step_release:
    "release_schedule_slot_to_pending io run_id i st = (r4, st') \<Longrightarrow>
     store_step st (ReleaseSlot run_id i) st'"
| step_commit:
    "commit_schedule_slot_transaction io ex contracts input st = (r5, st') \<Longrightarrow>
     store_step st (CommitSlot input) st'"
| step_append:
    "append_slot_commit_record io contracts record st = (r6, st') \<Longrightarrow>
     store_step st (AppendRecord record) st'"
| step_pending:
    "replace_pending_trial_completions io contracts run_id rows st = (r7, st') \<Longrightarrow>
     store_step st (ReplacePending run_id) st'"

inductive_cases store_step_claimE: "store_step st (ClaimSlot run_id i trial_id) st'"
inductive_cases store_step_commitE: "store_step st (CommitSlot input) st'"

fun slot_wf :: "schedule_slot_record \<Rightarrow> bool" where
  "slot_wf r \<longleftrightarrow>
     ssr_attempt r < 2 ^ 63 \<and> ssr_lease_epoch r < 2 ^ 63 \<and>
     (case ssr_state r of
        SlotPending \<Rightarrow>
          ssr_trial_id r = None \<and> ssr_worker_id r = None \<and> ssr_owner_id r = None \<and>
          ssr_slot_commit_id r = None
      | SlotActive \<Rightarrow>
          ssr_trial_id r \<noteq> None \<and> ssr_worker_id r \<noteq> None \<and> ssr_owner_id r \<noteq> None \<and>
          ssr_slot_commit_id r = None \<and> 1 \<le> ssr_attempt r \<and> 1 \<le> ssr_lease_epoch r
      | SlotCommitted \<Rightarrow>
          ssr_trial_id r \<noteq> None \<and> ssr_worker_id r = None \<and> ssr_owner_id r = None \<and>
          ssr_slot_commit_id r \<noteq> None
      | SlotAbandoned \<Rightarrow> False)"

definition store_inv :: "run_store \<Rightarrow> bool" where
  "store_inv st \<longleftrightarrow>
     (\<forall>k r. st_slots st k = Some r \<longrightarrow> ssr_schedule_idx r = snd k \<and> slot_wf r)"

lemma store_invI:
  "(\<And>k r. st_slots st k = Some r \<Longrightarrow> ssr_schedule_idx r = snd k \<and> slot_wf r) \<Longrightarrow> store_inv st"
  by (simp add: store_inv_def)

lemma slot_wf_pending [simp]: "slot_wf (pending_slot i slot)" "ssr_schedule_idx (pending_slot i slot) = i"
  by (simp_all add: pending_slot_def)

lemma slot_wf_transitions:
  "slot_wf r \<Longrightarrow> slot_wf (r\<lparr>ssr_slot := s\<rparr>)"
  "slot_wf r \<Longrightarrow> slot_wf (released_slot r)"
  "slot_wf r \<Longrightarrow> attempt < 2 ^ 63 \<Longrightarrow> slot_wf (committed_slot t attempt c u r)"
  "slot_wf r \<Longrightarrow> ssr_attempt r + 1 < 2 ^ 63 \<Longrightarrow> ssr_lease_epoch r + 1 < 2 ^ 63 \<Longrightarrow>
   slot_wf (claimed_slot t w ow e r)"
  by (auto simp: released_slot_def committed_slot_def claimed_slot_def saturating_add_def usize_max_def
      split: slot_state.splits)

lemma slot_transitions_idx [simp]:
  "ssr_schedule_idx (released_slot r) = ssr_schedule_idx r"
  "ssr_schedule_idx (committed_slot t a c u r) = ssr_schedule_idx r"
  "ssr_schedule_idx (claimed_slot t w ow e r) = ssr_schedule_idx r"
  by (simp_all add: released_slot_def committed_slot_def claimed_slot_def)

declare slot_wf.simps [simp del]

text \<open>How one step changes the row of one slot; every other row stays.\<close>

inductive slot_change :: "slot_action \<Rightarrow> slot_key \<Rightarrow> schedule_slot_record option \<Rightarrow> schedule_slot_record option \<Rightarrow> bool" where
  same: "slot_change l k r r"
| created: "slot_change (EnsureSlots run_id schedule) k None (Some (pending_slot (snd k) s))"
| refreshed: "slot_change (EnsureSlots run_id schedule) k (Some r) (Some (r\<lparr>ssr_slot := s\<rparr>))"
| taken:
    "ssr_state r = SlotPending \<Longrightarrow> ssr_attempt r + 1 < 2 ^ 63 \<Longrightarrow> ssr_lease_epoch r + 1 < 2 ^ 63 \<Longrightarrow>
     slot_change (ClaimSlot run_id i t) k (Some r) (Some (claimed_slot t w ow e r))"
| marked:
    "ssr_state r = SlotActive \<Longrightarrow> ssr_trial_id r = Some t \<Longrightarrow> a < 2 ^ 63 \<Longrightarrow>
     slot_change (MarkCommitted run_id i t c) k (Some r) (Some (committed_slot t a c u r))"
| marked_idle:
    "ssr_state r \<noteq> SlotActive \<Longrightarrow> a < 2 ^ 63 \<Longrightarrow>
     slot_change (MarkCommitted run_id i t c) k (Some r) (Some (committed_slot t a c u r))"
| released:
    "ssr_state r \<noteq> SlotCommitted \<Longrightarrow>
     slot_change (ReleaseSlot run_id i) k (Some r) (Some (released_slot r))"
| committed:
    "check_commit_owner input i (Some r) = Ok () \<Longrightarrow> sci_attempt input < 2 ^ 63 \<Longrightarrow>
     old = Some r \<or> old = None \<and> (\<exists>s. r = pending_slot (snd k) s) \<Longrightarrow>
     slot_change (CommitSlot input) k old
       (Some (committed_slot (sci_trial_id input) (sci_attempt input) (sci_slot_commit_id input)
          (sci_slot_status input) r))"

fun action_key :: "slot_action \<Rightarrow> slot_key \<Rightarrow> bool" where
  "action_key (EnsureSlots run_id schedule) k \<longleftrightarrow> fst k = run_id \<and> snd k < length schedule"
| "action_key (ClaimSlot run_id i t) k \<longleftrightarrow> k = (run_id, i)"
| "action_key (MarkCommitted run_id i t c) k \<longleftrightarrow> k = (run_id, i)"
| "action_key (ReleaseSlot run_id i) k \<longleftrightarrow> k = (run_id, i)"
| "action_key (CommitSlot input) k \<longleftrightarrow> k = (sci_run_id input, sci_schedule_idx input)"
| "action_key _ k \<longleftrightarrow> False"

lemma append_slot_commit_record_slots:
  "append_slot_commit_record io contracts record st = (r, st') \<Longrightarrow> st_slots st' = st_slots st"
  by (auto simp: append_slot_commit_record_def upsert_slot_commit_record_def store_op_simps split: if_splits)

lemma replace_pending_slots:
  "replace_pending_trial_completions io contracts run_id rows st = (r, st') \<Longrightarrow> st_slots st' = st_slots st"
proof -
  assume a: "replace_pending_trial_completions io contracts run_id rows st = (r, st')"
  have "st_slots (snd (replace_pending_trial_completions io contracts run_id rows st)) = st_slots st"
  proof -
    let ?P = "\<lambda>s. st_slots s = st_slots st"
    have tx: "?P (snd (m st)) \<Longrightarrow> ?P (snd (transactional m st))" for m :: "unit store_op"
      by (auto simp: transactional_def split: prod.splits sum.splits)
    show ?thesis
      unfolding replace_pending_trial_completions_def
      by (rule tx, intro obind_invariant [where P = ?P] oforeach_invariant [where P = ?P])
        (auto simp: store_op_simps ofail_def split: if_splits)
  qed
  with a show ?thesis by simp
qed

lemma slot_change_upd:
  assumes "slot_change l q (st_slots st q) (Some r)" and "action_key l q"
    and "st' = st\<lparr>st_slots := (st_slots st)(q \<mapsto> r)\<rparr>"
  shows "slot_change l k (st_slots st k) (st_slots st' k) \<and>
    (st_slots st' k \<noteq> st_slots st k \<longrightarrow> action_key l k)"
  using assms by (cases "k = q") (simp_all add: slot_change.same)

lemma slot_change_unchanged:
  "slot_change l k (st_slots st k) (st_slots st k) \<and> (st_slots st k \<noteq> st_slots st k \<longrightarrow> action_key l k)"
  by (simp add: slot_change.same)

lemma store_step_slot_change:
  assumes "store_step st l st'" and "store_inv st"
  shows "slot_change l k (st_slots st k) (st_slots st' k)" and "st_slots st' k \<noteq> st_slots st k \<Longrightarrow> action_key l k"
proof -
  have "slot_change l k (st_slots st k) (st_slots st' k) \<and>
      (st_slots st' k \<noteq> st_slots st k \<longrightarrow> action_key l k)"
    using assms(1)
  proof cases
    case (step_ensure io run_id schedule r)
    have "st_slots st' k = st_slots st k \<or>
        fst k = run_id \<and> snd k < length schedule \<and> st_slots st' k = ensured_slot run_id schedule st k"
      using ensure_schedule_slots_outcome [OF step_ensure(2)] by (auto simp: ensured_slot_def)
    then show ?thesis
      by (cases "st_slots st k") (auto simp: ensured_slot_def step_ensure(1) intro: slot_change.intros)
  next
    case (step_claim io run_id i trial_id worker_id owner_id exp r)
    show ?thesis
      using claim_schedule_slot_outcome [OF step_claim(2)]
    proof (elim disjE exE conjE)
      fix existing
      assume e: "st_slots st (run_id, i) = Some existing" "ssr_state existing = SlotPending"
        "ssr_attempt existing + 1 < 2 ^ 63" "ssr_lease_epoch existing + 1 < 2 ^ 63"
        and st': "st' = st\<lparr>st_slots := (st_slots st)((run_id, i) \<mapsto>
          claimed_slot trial_id worker_id owner_id exp existing)\<rparr>"
      have "slot_change l (run_id, i) (st_slots st (run_id, i))
          (Some (claimed_slot trial_id worker_id owner_id exp existing))"
        unfolding step_claim(1) e(1) by (rule slot_change.taken) (rule e)+
      then show ?thesis by (rule slot_change_upd [OF _ _ st']) (simp add: step_claim(1))
    qed (simp_all add: slot_change_unchanged)
  next
    case (step_mark io run_id i trial_id attempt sid status r)
    show ?thesis
      using mark_schedule_slot_committed_outcome [OF step_mark(2)]
    proof (elim disjE exE conjE)
      fix existing
      assume e: "st_slots st (run_id, i) = Some existing" "attempt < 2 ^ 63"
        "\<not> (ssr_state existing = SlotActive \<and> ssr_trial_id existing \<noteq> Some trial_id)"
        and st': "st' = st\<lparr>st_slots := (st_slots st)((run_id, i) \<mapsto>
          committed_slot trial_id attempt sid status existing)\<rparr>"
      then have "slot_change l (run_id, i) (st_slots st (run_id, i))
          (Some (committed_slot trial_id attempt sid status existing))"
        by (cases "ssr_state existing = SlotActive")
          (simp_all add: step_mark(1) slot_change.marked slot_change.marked_idle)
      then show ?thesis by (rule slot_change_upd [OF _ _ st']) (simp add: step_mark(1))
    qed (simp add: slot_change_unchanged)
  next
    case (step_release io run_id i r)
    show ?thesis
      using release_schedule_slot_to_pending_outcome [OF step_release(2)]
    proof (elim disjE exE conjE)
      fix existing
      assume "st_slots st (run_id, i) = Some existing" "ssr_state existing \<noteq> SlotCommitted"
        and st': "st' = st\<lparr>st_slots := (st_slots st)((run_id, i) \<mapsto> released_slot existing)\<rparr>"
      then have "slot_change l (run_id, i) (st_slots st (run_id, i)) (Some (released_slot existing))"
        by (simp add: step_release(1) slot_change.released)
      then show ?thesis by (rule slot_change_upd [OF _ _ st']) (simp add: step_release(1))
    qed (simp add: slot_change_unchanged)
  next
    case (step_commit io ex contracts input r)
    then show ?thesis
    proof (cases r)
      case (Inl e)
      then show ?thesis
        using commit_schedule_slot_transaction_Err step_commit by (metis slot_change.same)
    next
      case (Inr u)
      then obtain existing where
          e: "commit_subject input st = Some existing"
            "check_commit_owner input (sci_schedule_idx input) (Some existing) = Ok ()"
            "sci_attempt input < 2 ^ 63"
            "slot_tables st' = committed_tables input existing st"
        using commit_schedule_slot_transaction_Ok [of io ex contracts input st st'] step_commit(2) by auto
      show ?thesis
      proof (cases "k = (sci_run_id input, sci_schedule_idx input)")
        case True
        have "st_slots st k = Some existing \<or>
            st_slots st k = None \<and> (\<exists>s. existing = pending_slot (snd k) s)"
          using e(1) True by (auto simp: commit_subject_def split: option.splits)
        from slot_change.committed [OF e(2,3) this] e(4) True
        have "slot_change (CommitSlot input) k (st_slots st k) (st_slots st' k)"
          by (simp add: slot_tables_def committed_tables_def)
        with True step_commit(1) show ?thesis by simp
      next
        case False
        with e(4) have "st_slots st' k = st_slots st k"
          by (simp add: slot_tables_def committed_tables_def)
        then show ?thesis by (simp add: slot_change.same)
      qed
    qed
  next
    case (step_append io contracts rec r)
    then show ?thesis
      using append_slot_commit_record_slots [OF step_append(2)] by (simp add: slot_change.same)
  next
    case (step_pending io contracts run_id rows r)
    then show ?thesis
      using replace_pending_slots [OF step_pending(2)] by (simp add: slot_change.same)
  qed
  then show "slot_change l k (st_slots st k) (st_slots st' k)"
    and "st_slots st' k \<noteq> st_slots st k \<Longrightarrow> action_key l k" by blast+
qed

lemma slot_change_new: "slot_change l k old new \<Longrightarrow> new \<noteq> old \<Longrightarrow> \<exists>r. new = Some r"
  by (auto elim: slot_change.cases)

lemma slot_change_wf:
  assumes "slot_change l k old (Some r')" and "\<And>r. old = Some r \<Longrightarrow> ssr_schedule_idx r = snd k \<and> slot_wf r"
  shows "ssr_schedule_idx r' = snd k \<and> slot_wf r'"
  using assms(1)
proof cases
  case (committed input i r)
  then have "slot_wf r" "ssr_schedule_idx r = snd k" using assms(2) by auto
  with committed show ?thesis by (simp add: slot_wf_transitions)
next
  case (taken r run_id i t w ow e)
  with assms(2) [of r] show ?thesis using slot_wf_transitions(4) [OF _ taken(5,6)] by simp
qed (use assms(2) in \<open>simp_all add: slot_wf_transitions\<close>)

lemma store_invD: "store_inv st \<Longrightarrow> st_slots st k = Some r \<Longrightarrow> ssr_schedule_idx r = snd k \<and> slot_wf r"
  unfolding store_inv_def by blast

lemma store_inv_step:
  assumes "store_inv st" and "store_step st l st'"
  shows "store_inv st'"
proof (rule store_invI)
  fix k r
  assume "st_slots st' k = Some r"
  then have "slot_change l k (st_slots st k) (Some r)"
    using store_step_slot_change(1) [OF assms(2,1), of k] by simp
  then show "ssr_schedule_idx r = snd k \<and> slot_wf r"
    by (rule slot_change_wf) (rule store_invD [OF assms(1)])
qed

definition store_init :: "run_store \<Rightarrow> bool" where
  "store_init st \<longleftrightarrow> st_slots st = Map.empty"

interpretation slot_store: invariant_system store_init store_step store_inv
proof
  show "store_init s \<Longrightarrow> store_inv s" for s by (simp add: store_init_def store_inv_def)
qed (rule store_inv_step)

section \<open>The life cycle of a slot\<close>

text \<open>
  The contract of the slot table, free of workers, leases and columns: a slot waits, is held by one
  trial under an epoch, or is done under a commit id. An epoch counts how often the slot was taken.
\<close>

datatype lifecycle = Waiting nat | Held nat string | Done nat string string

datatype life_label = Publish | Take slot_key | GiveBack slot_key | Finish slot_key | Restate slot_key

inductive life_step :: "(slot_key \<rightharpoonup> lifecycle) \<Rightarrow> life_label \<Rightarrow> (slot_key \<rightharpoonup> lifecycle) \<Rightarrow> bool" where
  publish: "A \<subseteq>\<^sub>m B \<Longrightarrow> (\<forall>k. A k = None \<longrightarrow> B k = None \<or> B k = Some (Waiting 0)) \<Longrightarrow> life_step A Publish B"
| take: "A k = Some (Waiting e) \<Longrightarrow> life_step A (Take k) (A(k \<mapsto> Held (e + 1) t))"
| give_back: "A k = Some (Held e t) \<Longrightarrow> life_step A (GiveBack k) (A(k \<mapsto> Waiting e))"
| finish_held: "A k = Some (Held e t) \<Longrightarrow> life_step A (Finish k) (A(k \<mapsto> Done e t c))"
| finish_waiting: "A k = Some (Waiting e) \<Longrightarrow> life_step A (Finish k) (A(k \<mapsto> Done e t c))"
| finish_new: "A k = None \<Longrightarrow> life_step A (Finish k) (A(k \<mapsto> Done 0 t c))"
| restate: "A k = Some (Done e t c) \<Longrightarrow> life_step A (Restate k) (A(k \<mapsto> Done e t' c'))"

fun slot_life :: "schedule_slot_record \<Rightarrow> lifecycle" where
  "slot_life r =
     (case ssr_state r of
        SlotPending \<Rightarrow> Waiting (ssr_lease_epoch r)
      | SlotActive \<Rightarrow> Held (ssr_lease_epoch r) (the (ssr_trial_id r))
      | SlotCommitted \<Rightarrow>
          Done (ssr_lease_epoch r) (the (ssr_trial_id r)) (the (ssr_slot_commit_id r))
      | SlotAbandoned \<Rightarrow> Waiting (ssr_lease_epoch r))"

definition store_life :: "run_store \<Rightarrow> slot_key \<rightharpoonup> lifecycle" where
  "store_life st k = map_option slot_life (st_slots st k)"

lemma slot_life_transitions [simp]:
  "slot_life (pending_slot i s) = Waiting 0"
  "slot_life (r\<lparr>ssr_slot := s\<rparr>) = slot_life r"
  "slot_life (released_slot r) = Waiting (ssr_lease_epoch r)"
  "slot_life (committed_slot t a c u r) = Done (ssr_lease_epoch r) t c"
  "ssr_lease_epoch r + 1 < 2 ^ 63 \<Longrightarrow> slot_life (claimed_slot t w ow e r) = Held (ssr_lease_epoch r + 1) t"
  by (simp_all add: pending_slot_def released_slot_def committed_slot_def claimed_slot_def
      saturating_add_def usize_max_def split: slot_state.split)

lemma slot_life_state:
  "ssr_state r = SlotPending \<Longrightarrow> slot_life r = Waiting (ssr_lease_epoch r)"
  "ssr_state r = SlotAbandoned \<Longrightarrow> slot_life r = Waiting (ssr_lease_epoch r)"
  "ssr_state r = SlotActive \<Longrightarrow> slot_life r = Held (ssr_lease_epoch r) (the (ssr_trial_id r))"
  "ssr_state r = SlotCommitted \<Longrightarrow>
   slot_life r = Done (ssr_lease_epoch r) (the (ssr_trial_id r)) (the (ssr_slot_commit_id r))"
  by simp_all

declare slot_life.simps [simp del]

lemma store_life_upd:
  assumes "\<And>j. j \<noteq> k \<Longrightarrow> st_slots st' j = st_slots st j" and "st_slots st' k = Some r"
  shows "store_life st' = (store_life st)(k \<mapsto> slot_life r)"
  using assms by (auto simp: store_life_def fun_eq_iff)

lemma action_key_unique:
  "action_key l k \<Longrightarrow> action_key l j \<Longrightarrow> (\<forall>run_id schedule. l \<noteq> EnsureSlots run_id schedule) \<Longrightarrow> j = k"
  by (cases l) (auto simp: prod_eq_iff)

text \<open>A change of one slot is a step of its life cycle.\<close>

lemma slot_change_life:
  assumes "slot_change l k (st_slots st k) (Some r')" and "store_inv st"
    and "\<forall>run_id schedule. l \<noteq> EnsureSlots run_id schedule"
  shows "store_life st k = Some (slot_life r') \<or>
    (\<exists>m. life_step (store_life st) m ((store_life st)(k \<mapsto> slot_life r')))"
  using assms(1)
proof cases
  case (taken r run_id i t w ow e)
  then have "store_life st k = Some (Waiting (ssr_lease_epoch r))"
    by (simp add: store_life_def slot_life_state)
  from life_step.take [of "store_life st" k, OF this] taken show ?thesis by auto
next
  case (released r run_id i)
  show ?thesis
  proof (cases "ssr_state r = SlotActive")
    case True
    with released have "store_life st k = Some (Held (ssr_lease_epoch r) (the (ssr_trial_id r)))"
      by (simp add: store_life_def slot_life_state)
    from life_step.give_back [of "store_life st" k, OF this] released show ?thesis by auto
  next
    case False
    with released show ?thesis
      by (cases "ssr_state r") (simp_all add: store_life_def slot_life_state)
  qed
next
  case (marked r t a run_id i c u)
  then have "store_life st k = Some (Held (ssr_lease_epoch r) t)"
    by (simp add: store_life_def slot_life_state)
  from life_step.finish_held [of "store_life st" k, OF this] marked show ?thesis by auto
next
  case (marked_idle r a run_id i t c u)
  then have "slot_wf r" using store_invD [OF assms(2)] by auto
  with marked_idle have "store_life st k = Some (Waiting (ssr_lease_epoch r)) \<or>
      (\<exists>t' c'. store_life st k = Some (Done (ssr_lease_epoch r) t' c'))"
    by (auto simp: store_life_def slot_life_state slot_wf.simps split: slot_state.splits)
  with marked_idle show ?thesis by (auto intro: life_step.finish_waiting life_step.restate)
next
  case (committed input i r)
  have own: "ssr_state r = SlotActive \<Longrightarrow> ssr_trial_id r = Some (sci_trial_id input)"
    using committed(3) by (auto simp: check_commit_owner_def split: if_splits)
  show ?thesis
  proof (cases "st_slots st k")
    case None
    then have "store_life st k = None" by (simp add: store_life_def)
    moreover have "slot_life r' = Done 0 (sci_trial_id input) (sci_slot_commit_id input)"
      using None committed by (auto simp: pending_slot_def [of "snd k"])
    ultimately show ?thesis using life_step.finish_new [of "store_life st" k] by metis
  next
    case (Some r0)
    with committed have r0: "r0 = r" by simp
    with Some have "slot_wf r" using store_invD [OF assms(2)] by auto
    with Some r0 own have "store_life st k = Some (Waiting (ssr_lease_epoch r)) \<or>
        store_life st k = Some (Held (ssr_lease_epoch r) (sci_trial_id input)) \<or>
        (\<exists>t' c'. store_life st k = Some (Done (ssr_lease_epoch r) t' c'))"
      by (auto simp: store_life_def slot_life_state slot_wf.simps split: slot_state.splits)
    with committed show ?thesis
      by (auto intro: life_step.finish_waiting life_step.finish_held life_step.restate)
  qed
next
  case same
  then show ?thesis by (simp add: store_life_def flip: same)
qed (use assms(3) in \<open>auto simp: store_life_def\<close>)

lemma store_step_life:
  assumes inv: "store_inv st" and step: "store_step st l st'"
  shows "store_life st' = store_life st \<or> (\<exists>m. life_step (store_life st) m (store_life st'))"
proof (cases "\<exists>run_id schedule. l = EnsureSlots run_id schedule")
  case True
  have c: "slot_change l k (st_slots st k) (st_slots st' k)" for k
    by (rule store_step_slot_change(1) [OF step inv])
  have "store_life st k = store_life st' k \<or> store_life st k = None \<and> store_life st' k = Some (Waiting 0)" for k
    using c [of k] True by (auto simp: store_life_def elim!: slot_change.cases)
  then have "life_step (store_life st) Publish (store_life st')"
    by (intro life_step.publish) (auto simp: map_le_def, metis option.distinct(1), metis)
  then show ?thesis by blast
next
  case False
  show ?thesis
  proof (cases "\<exists>k. st_slots st' k \<noteq> st_slots st k")
    case True
    then obtain k where k: "st_slots st' k \<noteq> st_slots st k" by blast
    then have ak: "action_key l k" by (rule store_step_slot_change(2) [OF step inv])
    have others: "st_slots st' j = st_slots st j" if "j \<noteq> k" for j
      using that False ak action_key_unique store_step_slot_change(2) [OF step inv, of j] by blast
    have c: "slot_change l k (st_slots st k) (st_slots st' k)"
      by (rule store_step_slot_change(1) [OF step inv])
    with k obtain r where r: "st_slots st' k = Some r" using slot_change_new by blast
    have upd: "store_life st' = (store_life st)(k \<mapsto> slot_life r)"
      by (rule store_life_upd [OF others r])
    have "store_life st k = Some (slot_life r) \<or>
        (\<exists>m. life_step (store_life st) m ((store_life st)(k \<mapsto> slot_life r)))"
      using slot_change_life [of l k st r] c r inv False by simp
    then show ?thesis by (simp add: upd fun_upd_idem_iff)
  next
    case False
    then have "store_life st' = store_life st" by (auto simp: store_life_def fun_eq_iff)
    then show ?thesis by blast
  qed
qed

interpretation slot_sim: simulation store_init store_step store_inv store_life
  "\<lambda>A. A = Map.empty" life_step
proof
  show "store_init s \<Longrightarrow> store_life s = Map.empty" for s
    by (auto simp: store_init_def store_life_def fun_eq_iff)
  show "store_inv s \<Longrightarrow> store_step s l t \<Longrightarrow>
    store_life t = store_life s \<or> (\<exists>m. life_step (store_life s) m (store_life t))" for s l t
    by (rule store_step_life)
qed

section \<open>Properties\<close>

definition slot_grows :: "schedule_slot_record \<Rightarrow> schedule_slot_record \<Rightarrow> bool" where
  "slot_grows r r' \<longleftrightarrow>
     ssr_lease_epoch r \<le> ssr_lease_epoch r' \<and> ssr_attempt r \<le> ssr_attempt r' \<and>
     (ssr_state r = SlotCommitted \<longrightarrow> ssr_state r' = SlotCommitted)"

lemma slot_change_grows: "slot_change l k (Some r) new \<Longrightarrow> \<exists>r'. new = Some r' \<and> slot_grows r r'"
  by (erule slot_change.cases)
    (auto simp: slot_grows_def claimed_slot_def committed_slot_def released_slot_def saturating_add_def
      usize_max_def)

lemma slot_change_commit_id:
  "slot_change l k (Some r) (Some r') \<Longrightarrow> ssr_state r = SlotCommitted \<Longrightarrow>
   (\<forall>run_id i t c. l \<noteq> MarkCommitted run_id i t c) \<Longrightarrow>
   ssr_slot_commit_id r' = ssr_slot_commit_id r"
  by (erule slot_change.cases)
    (auto simp: claimed_slot_def committed_slot_def released_slot_def check_commit_owner_def
      split: if_splits)

lemma path_slot_grows:
  assumes "path store_step st ls st'" and "store_inv st" and "st_slots st k = Some r"
  shows "\<exists>r'. st_slots st' k = Some r' \<and> slot_grows r r' \<and>
    (ssr_state r = SlotCommitted \<and> (\<forall>l \<in> set ls. \<forall>run_id i t c. l \<noteq> MarkCommitted run_id i t c) \<longrightarrow>
      ssr_slot_commit_id r' = ssr_slot_commit_id r)"
  using assms
proof (induction arbitrary: r rule: path.induct)
  case (path_nil s)
  then show ?case by (auto simp: slot_grows_def)
next
  case (path_cons s l t ls u)
  note c = store_step_slot_change(1) [OF path_cons.hyps(1) path_cons.prems(1), of k]
  obtain r1 where r1: "st_slots t k = Some r1" "slot_grows r r1"
    using slot_change_grows [of l k r] c path_cons.prems(2) by auto
  have inv: "store_inv t" by (rule store_inv_step [OF path_cons.prems(1) path_cons.hyps(1)])
  obtain r2 where r2: "st_slots u k = Some r2" "slot_grows r1 r2"
      "ssr_state r1 = SlotCommitted \<and> (\<forall>l \<in> set ls. \<forall>run_id i t c. l \<noteq> MarkCommitted run_id i t c) \<longrightarrow>
        ssr_slot_commit_id r2 = ssr_slot_commit_id r1"
    using path_cons.IH [OF inv r1(1)] by blast
  have "ssr_slot_commit_id r1 = ssr_slot_commit_id r"
    if "ssr_state r = SlotCommitted" "\<forall>run_id i t c. l \<noteq> MarkCommitted run_id i t c"
    using slot_change_commit_id [of l k r r1] c path_cons.prems(2) r1(1) that by simp
  with r1 r2 show ?case by (auto simp: slot_grows_def)
qed

text \<open>A store with one slot, claimed by a trial, for the witnesses.\<close>

definition sample_slots :: "trial_slot list" where
  "sample_slots = [mk_slot 0 0 0]"

definition sample_store0 :: run_store where
  "sample_store0 = snd (ensure_schedule_slots (\<lambda>_. True) ''run'' sample_slots empty_store)"

definition sample_store1 :: run_store where
  "sample_store1 =
     snd (claim_schedule_slot (\<lambda>_. True) ''run'' 0 ''trial_1'' ''worker_1'' ''owner'' None sample_store0)"

lemma sample_store0_slots:
  "ensure_schedule_slots (\<lambda>_. True) ''run'' sample_slots empty_store = (Ok (), sample_store0)"
  "st_slots sample_store0 = [(''run'', 0) \<mapsto> pending_slot 0 (mk_slot 0 0 0)]"
  by (simp_all add: sample_store0_def ensure_schedule_slots_def store_op_simps sample_slots_def
      enumerate_rows_def upsert_schedule_slot_def empty_store_def)

definition sample_claimed :: schedule_slot_record where
  "sample_claimed = claimed_slot ''trial_1'' ''worker_1'' ''owner'' None (pending_slot 0 (mk_slot 0 0 0))"

lemma sample_store1_slots:
  "claim_schedule_slot (\<lambda>_. True) ''run'' 0 ''trial_1'' ''worker_1'' ''owner'' None sample_store0 =
     (Ok (Some sample_claimed), sample_store1)"
  "st_slots sample_store1 = [(''run'', 0) \<mapsto> sample_claimed]"
  by (simp_all add: sample_store1_def claim_schedule_slot_def store_op_simps sample_store0_slots(2)
      pending_slot_def sample_claimed_def claimed_slot_def saturating_add_def usize_max_def Let_def)

lemma sample_store1_reachable: "reachable store_init store_step sample_store1"
proof -
  have "reachable store_init store_step empty_store"
    by (rule reach_init) (simp add: store_init_def empty_store_def)
  then have "reachable store_init store_step sample_store0"
    by (rule reach_step) (rule step_ensure, rule sample_store0_slots(1))
  then show ?thesis by (rule reach_step) (rule step_claim, rule sample_store1_slots(1))
qed

text \<open>
  C8: In every state the slot table can reach, each row is well formed: a pending slot has no trial,
  worker, owner or commit id; an active one has a trial, a worker and an owner and no commit id; a
  committed one has a trial and a commit id and no owner; no slot is ever abandoned, and attempts and
  epochs fit the integer column.
\<close>

theorem reachable_slots_well_formed:
  assumes "reachable store_init store_step st" and "st_slots st (run_id, i) = Some r"
  shows "slot_wf r \<and> ssr_schedule_idx r = i"
  using store_invD [OF slot_store.reachable_inv [OF assms(1)] assms(2)] by simp

theorem reachable_slots_well_formed_witness:
  "slot_wf sample_claimed \<and> ssr_schedule_idx sample_claimed = 0"
  by (rule reachable_slots_well_formed [OF sample_store1_reachable, of "''run''"])
    (simp add: sample_store1_slots)

text \<open>
  C9: A successful claim takes a pending slot for one trial: it raises the attempt and the lease
  epoch by one and touches no other slot; every later claim of that slot on the resulting store, by
  whatever worker, gets nothing and changes nothing.
\<close>

theorem claim_schedule_slot_exclusive:
  assumes "claim_schedule_slot io run_id i trial_id worker_id owner_id exp st = (Ok (Some rec), st')"
  shows "(\<exists>old. st_slots st (run_id, i) = Some old \<and> ssr_state old = SlotPending \<and>
      rec = old\<lparr>ssr_state := SlotActive, ssr_trial_id := Some trial_id,
        ssr_attempt := ssr_attempt old + 1, ssr_worker_id := Some worker_id,
        ssr_owner_id := Some owner_id, ssr_lease_epoch := ssr_lease_epoch old + 1,
        ssr_lease_expires_at := exp, ssr_slot_commit_id := None, ssr_slot_status := None\<rparr>) \<and>
    st' = st\<lparr>st_slots := (st_slots st)((run_id, i) \<mapsto> rec)\<rparr> \<and>
    (\<forall>io' t w ow e r st''. claim_schedule_slot io' run_id i t w ow e st' = (r, st'') \<longrightarrow>
      st'' = st' \<and> (r = Ok None \<or> (\<exists>err. r = Err err)))"
proof -
  obtain old where old: "st_slots st (run_id, i) = Some old" "ssr_state old = SlotPending"
      "ssr_attempt old + 1 < 2 ^ 63" "ssr_lease_epoch old + 1 < 2 ^ 63"
      "rec = claimed_slot trial_id worker_id owner_id exp old"
      "st' = st\<lparr>st_slots := (st_slots st)((run_id, i) \<mapsto> rec)\<rparr>"
    using claim_schedule_slot_outcome [OF assms] by auto
  have "\<exists>old. st_slots st (run_id, i) = Some old \<and> ssr_state old = SlotPending \<and>
      rec = old\<lparr>ssr_state := SlotActive, ssr_trial_id := Some trial_id,
        ssr_attempt := ssr_attempt old + 1, ssr_worker_id := Some worker_id,
        ssr_owner_id := Some owner_id, ssr_lease_epoch := ssr_lease_epoch old + 1,
        ssr_lease_expires_at := exp, ssr_slot_commit_id := None, ssr_slot_status := None\<rparr>"
    using old(1-5) by (simp add: claimed_slot_def saturating_add_def usize_max_def)
  moreover have "st'' = st' \<and> (r = Ok None \<or> (\<exists>err. r = Err err))"
    if "claim_schedule_slot io' run_id i t w ow e st' = (r, st'')" for io' t w ow e r st''
    using claim_schedule_slot_outcome [OF that] old(5,6) by (auto simp: claimed_slot_def)
  ultimately show ?thesis using old(6) by blast
qed

theorem claim_schedule_slot_exclusive_witness:
  "sample_store1 = sample_store0\<lparr>st_slots := (st_slots sample_store0)((''run'', 0) \<mapsto> sample_claimed)\<rparr> \<and>
   snd (claim_schedule_slot (\<lambda>_. True) ''run'' 0 ''trial_2'' ''worker_2'' ''owner'' None sample_store1) =
     sample_store1"
  using claim_schedule_slot_exclusive [OF sample_store1_slots(1)] by (metis prod.collapse)


text \<open>
  C11: A commit is refused, and changes nothing, when the slot is active for another trial or already
  committed under another commit id.
\<close>

theorem commit_refuses_foreign_trial:
  assumes "st_slots st (sci_run_id input, sci_schedule_idx input) = Some r"
    and "(ssr_state r = SlotActive \<and> ssr_trial_id r \<noteq> Some (sci_trial_id input)) \<or>
      (ssr_state r = SlotCommitted \<and> ssr_slot_commit_id r \<noteq> Some (sci_slot_commit_id input))"
  shows "\<exists>e. commit_schedule_slot_transaction io ex contracts input st = (Err e, st)"
proof (cases "commit_schedule_slot_transaction io ex contracts input st")
  case (Pair q st')
  show ?thesis
  proof (cases q)
    case (Inl e)
    with Pair show ?thesis using commit_schedule_slot_transaction_Err by blast
  next
    case (Inr u)
    with Pair obtain existing where "commit_subject input st = Some existing"
        "check_commit_owner input (sci_schedule_idx input) (Some existing) = Ok ()"
      using commit_schedule_slot_transaction_Ok [of io ex contracts input st st'] by auto
    with assms show ?thesis by (auto simp: commit_subject_def check_commit_owner_def split: if_splits)
  qed
qed

definition sample_record :: slot_commit_record where
  "sample_record =
     \<lparr>scr_schema_version = ''slot_commit_record_v1'', scr_record_type = ''commit'', scr_run_id = ''run'',
      scr_schedule_idx = 0, scr_slot_commit_id = ''slot_x'', scr_trial_id = ''trial_2'',
      scr_slot_status = ''completed'', scr_attempt = 1, scr_recorded_at = ''now'',
      scr_expected_rows = None, scr_payload_digest = None, scr_written_rows = None,
      scr_facts_fsync_completed = Some True, scr_runtime_fsync_completed = Some True\<rparr>"

definition sample_input :: slot_commit_transaction_input where
  "sample_input =
     \<lparr>sci_run_id = ''run'', sci_schedule_idx = 0, sci_slot = Some (mk_slot 0 0 0),
      sci_trial_id = ''trial_2'', sci_attempt = 1, sci_slot_commit_id = ''slot_x'',
      sci_slot_status = ''completed'', sci_commit_record = sample_record,
      sci_schedule_progress = new_schedule_progress ''run'' sample_slots ''now'',
      sci_trial_rows = [], sci_metric_rows = [], sci_event_rows = [], sci_contract_stage_rows = [],
      sci_variant_snapshot_rows = [], sci_evidence_rows = [], sci_chain_state_rows = [],
      sci_trial_conclusion_rows = []\<rparr>"

theorem commit_refuses_foreign_trial_witness:
  "\<forall>io ex contracts.
     \<exists>e. commit_schedule_slot_transaction io ex contracts sample_input sample_store1 = (Err e, sample_store1)"
  by (intro allI commit_refuses_foreign_trial [where r = sample_claimed])
    (simp_all add: sample_store1_slots sample_input_def sample_claimed_def claimed_slot_def)





text \<open>
  Committing a chain state row links its version to the previous head of the chain and becomes
  the head; writing the same row once more (the replay that the same commit id permits) makes the
  version its own parent.
\<close>

lemma lineage_replay_self_parent:
  assumes "chain_state_lineage ex row = Ok l"
    and "upsert_lineage_from_chain_state_row io ex row st = (Ok (), st1)"
    and "upsert_lineage_from_chain_state_row io ex row st1 = (Ok (), st2)"
  shows "st_lineage_versions st1 (lineage_version_id ex l) =
      Some \<lparr>lv_lineage = l, lv_parent_version_id =
        map_option lh_latest_version_id (st_lineage_heads st (csl_run_id l, csl_chain_key l))\<rparr> \<and>
    map_option lh_latest_version_id (st_lineage_heads st1 (csl_run_id l, csl_chain_key l)) =
      Some (lineage_version_id ex l) \<and>
    st_lineage_versions st2 (lineage_version_id ex l) =
      Some \<lparr>lv_lineage = l, lv_parent_version_id = Some (lineage_version_id ex l)\<rparr>"
  using assms
  by (auto simp: upsert_lineage_from_chain_state_row_def row_op_def Let_def obind_eq_Ok olift_def oget_def
      at_point_outcome as_i64_def modify_lineage_versions_def modify_lineage_heads_def omodify_def
      split: if_splits)

end
