(* ===== verification/Slot_Broker.thy ===== *)
theory Slot_Broker
  imports Slot_Store
begin

text \<open>
  The in-memory slot broker (\<open>SlotBroker\<close> in \<open>lab-runner/src/experiment/runner.rs\<close>): worker
  threads pull slots from it under one mutex. Every method body between taking and releasing the
  mutex is one operation here. \<open>claim_next\<close> scans the slots and either dispatches one, skips a
  pruned one, gives up, or waits on the condition variable; the wait ends with another scan of
  whatever state the other threads have left, so one scan is one operation and its outcome
  \<open>MustWait\<close> stands for the wait. The trial directories are prepared after the mutex is released: a
  failure there is the separate operation \<open>rollback_claim\<close>. Hash maps are ordered maps; the code
  never depends on their order.
\<close>

section \<open>State\<close>

datatype BrokerSlotState = BPending | BActive | BCompletedPendingCommit | BCommitted | BBlockedActive

record in_flight_dispatch =
  ifd_schedule_idx :: nat
  ifd_trial_id :: string
  ifd_variant_idx :: nat
  ifd_variant_id :: string
  ifd_worker_id :: string
  ifd_started_at :: string

record slot_broker_state =
  bs_slot_states :: "BrokerSlotState list"
  bs_in_flight :: "(string, in_flight_dispatch) btree"
  bs_in_flight_by_variant :: "(nat, nat) btree"
  bs_pruned_variants :: "nat set"
  bs_trial_index :: nat
  bs_accepting :: bool

text \<open>The immutable part: the ids of the variants, the schedule and the per-variant limit.\<close>

record slot_broker =
  sb_variants :: "string list"
  sb_schedule :: "trial_slot list"
  sb_max_in_flight_per_variant :: "nat option"

record run_control_active_trial =
  rcat_trial_id :: string
  rcat_worker_id :: string
  rcat_schedule_idx :: "nat option"
  rcat_variant_id :: string
  rcat_started_at :: "string option"

datatype broker_error =
    MissingScheduleSlot nat
  | UnknownSlotState nat
  | OwnershipUnknownTrial string
  | OwnershipMismatch string string nat

datatype claim_outcome =
    Dispatched nat string trial_slot run_control_active_trial
  | SkippedPruned nat
  | NoMoreWork
  | MustWait

section \<open>Operations\<close>

record slot_broker_recovery =
  sbr_committed_schedules :: "nat set"
  sbr_pending_completion_schedules :: "nat set"
  sbr_pruned_variants :: "nat set"
  sbr_trial_index :: nat

definition restore_slot_state ::
  "run_store \<Rightarrow> string \<Rightarrow> slot_broker_recovery \<Rightarrow> nat \<Rightarrow> (broker_error, BrokerSlotState) result" where
  "restore_slot_state st run_id recovery i =
     (if i \<in> sbr_committed_schedules recovery then Ok BCommitted
      else if i \<in> sbr_pending_completion_schedules recovery then Ok BCompletedPendingCommit
      else rbind (ok_or (MissingScheduleSlot i) (schedule_slot st run_id i)) (\<lambda>slot.
        case ssr_state slot of
          SlotPending \<Rightarrow> Ok BPending
        | SlotCommitted \<Rightarrow> Ok BCommitted
        | SlotActive \<Rightarrow> Ok BBlockedActive
        | SlotAbandoned \<Rightarrow> Err (UnknownSlotState i)))"

fun restore_slot_states ::
  "run_store \<Rightarrow> string \<Rightarrow> slot_broker_recovery \<Rightarrow> nat list \<Rightarrow> (broker_error, BrokerSlotState list) result" where
  "restore_slot_states st run_id recovery [] = Ok []"
| "restore_slot_states st run_id recovery (i # is) =
     rbind (restore_slot_state st run_id recovery i) (\<lambda>s.
     rbind (restore_slot_states st run_id recovery is) (\<lambda>ss. Ok (s # ss)))"

definition broker_new ::
  "run_store \<Rightarrow> string \<Rightarrow> trial_slot list \<Rightarrow> slot_broker_recovery \<Rightarrow>
   (broker_error, slot_broker_state) result" where
  "broker_new st run_id schedule recovery =
     rbind (restore_slot_states st run_id recovery [0..<length schedule]) (\<lambda>slot_states.
     Ok \<lparr>bs_slot_states = slot_states, bs_in_flight = [], bs_in_flight_by_variant = [],
         bs_pruned_variants = sbr_pruned_variants recovery,
         bs_trial_index = sbr_trial_index recovery, bs_accepting = True\<rparr>)"

definition count_of :: "(nat, nat) btree \<Rightarrow> nat \<Rightarrow> nat" where
  "count_of m v = (case bt_get m v of None \<Rightarrow> 0 | Some c \<Rightarrow> c)"

text \<open>\<open>get_mut\<close>, a guarded decrement, and removal of a zero entry.\<close>

definition decrement_variant :: "nat \<Rightarrow> (nat, nat) btree \<Rightarrow> (nat, nat) btree" where
  "decrement_variant v m =
     (case bt_get m v of
        None \<Rightarrow> m
      | Some c \<Rightarrow> if c - 1 = 0 then bt_remove v m else bt_insert v (c - 1) m)"

definition set_slot_state :: "nat \<Rightarrow> BrokerSlotState \<Rightarrow> BrokerSlotState list \<Rightarrow> BrokerSlotState list" where
  "set_slot_state i s states = (if i < length states then states[i := s] else states)"

definition rollback_claim ::
  "nat \<Rightarrow> string \<Rightarrow> nat \<Rightarrow> BrokerSlotState \<Rightarrow> slot_broker_state \<Rightarrow> slot_broker_state" where
  "rollback_claim schedule_idx trial_id variant_idx next_state st =
     st\<lparr>bs_in_flight := bt_remove trial_id (bs_in_flight st),
        bs_in_flight_by_variant := decrement_variant variant_idx (bs_in_flight_by_variant st),
        bs_slot_states := set_slot_state schedule_idx next_state (bs_slot_states st)\<rparr>"

definition at_capacity :: "slot_broker \<Rightarrow> slot_broker_state \<Rightarrow> nat \<Rightarrow> bool" where
  "at_capacity b st variant_idx \<longleftrightarrow>
     (case sb_max_in_flight_per_variant b of
        None \<Rightarrow> False
      | Some limit \<Rightarrow> limit \<le> count_of (bs_in_flight_by_variant st) variant_idx)"

definition trial_id_of :: "nat \<Rightarrow> string" where
  "trial_id_of n = ''trial_'' @ show_nat n"

definition dispatch_slot ::
  "slot_broker \<Rightarrow> string \<Rightarrow> string \<Rightarrow> nat \<Rightarrow> slot_broker_state \<Rightarrow> claim_outcome \<times> slot_broker_state" where
  "dispatch_slot b worker_id now schedule_idx st =
     (let slot = sb_schedule b ! schedule_idx;
          next_trial_index = saturating_add (bs_trial_index st) 1;
          trial_id = trial_id_of next_trial_index;
          variant_id = sb_variants b ! ts_variant_idx slot;
          dispatch = \<lparr>ifd_schedule_idx = schedule_idx, ifd_trial_id = trial_id,
            ifd_variant_idx = ts_variant_idx slot, ifd_variant_id = variant_id,
            ifd_worker_id = worker_id, ifd_started_at = now\<rparr>;
          active = \<lparr>rcat_trial_id = trial_id, rcat_worker_id = worker_id,
            rcat_schedule_idx = Some schedule_idx, rcat_variant_id = variant_id,
            rcat_started_at = Some now\<rparr>;
          by_variant = bs_in_flight_by_variant st
      in (Dispatched schedule_idx trial_id slot active,
          st\<lparr>bs_trial_index := next_trial_index,
             bs_slot_states := (bs_slot_states st)[schedule_idx := BActive],
             bs_in_flight := bt_insert trial_id dispatch (bs_in_flight st),
             bs_in_flight_by_variant :=
               bt_insert (ts_variant_idx slot) (count_of by_variant (ts_variant_idx slot) + 1) by_variant\<rparr>))"

text \<open>The scan of \<open>claim_next\<close>; \<open>None\<close> is the panic of an index out of range.\<close>

fun claim_scan ::
  "slot_broker \<Rightarrow> string \<Rightarrow> string \<Rightarrow> nat list \<Rightarrow> bool \<Rightarrow> slot_broker_state \<Rightarrow>
   (claim_outcome \<times> slot_broker_state) option" where
  "claim_scan b worker_id now [] blocked_by_capacity st =
     Some (if \<not> blocked_by_capacity \<or> bs_in_flight st = [] then NoMoreWork else MustWait, st)"
| "claim_scan b worker_id now (i # is) blocked_by_capacity st =
     (if \<not> i < length (bs_slot_states st) then None
      else if bs_slot_states st ! i \<noteq> BPending then claim_scan b worker_id now is blocked_by_capacity st
      else
        let variant_idx = ts_variant_idx (sb_schedule b ! i) in
        if variant_idx \<in> bs_pruned_variants st
        then Some (SkippedPruned i,
          st\<lparr>bs_slot_states := (bs_slot_states st)[i := BCompletedPendingCommit]\<rparr>)
        else if at_capacity b st variant_idx then claim_scan b worker_id now is True st
        else if \<not> variant_idx < length (sb_variants b) then None
        else Some (dispatch_slot b worker_id now i st))"

definition claim_next ::
  "slot_broker \<Rightarrow> string \<Rightarrow> string \<Rightarrow> slot_broker_state \<Rightarrow> (claim_outcome \<times> slot_broker_state) option" where
  "claim_next b worker_id now st =
     (if \<not> bs_accepting st then Some (NoMoreWork, st)
      else claim_scan b worker_id now [0..<length (sb_schedule b)] False st)"

definition take_owned ::
  "BrokerSlotState \<Rightarrow> string \<Rightarrow> string \<Rightarrow> nat \<Rightarrow> slot_broker_state \<Rightarrow>
   (broker_error, slot_broker_state) result" where
  "take_owned next_state worker_id trial_id schedule_idx st =
     rbind (ok_or (OwnershipUnknownTrial trial_id) (bt_get (bs_in_flight st) trial_id)) (\<lambda>dispatch.
     if ifd_worker_id dispatch \<noteq> worker_id \<or> ifd_schedule_idx dispatch \<noteq> schedule_idx
     then Err (OwnershipMismatch worker_id trial_id schedule_idx)
     else Ok (rollback_claim schedule_idx trial_id (ifd_variant_idx dispatch) next_state st))"

definition complete_owned ::
  "string \<Rightarrow> string \<Rightarrow> nat \<Rightarrow> slot_broker_state \<Rightarrow> (broker_error, slot_broker_state) result" where
  "complete_owned = take_owned BCompletedPendingCommit"

definition release_owned_to_pending ::
  "string \<Rightarrow> string \<Rightarrow> nat \<Rightarrow> slot_broker_state \<Rightarrow> (broker_error, slot_broker_state) result" where
  "release_owned_to_pending = take_owned BPending"

definition mark_committed :: "nat \<Rightarrow> slot_broker_state \<Rightarrow> slot_broker_state" where
  "mark_committed i st = st\<lparr>bs_slot_states := set_slot_state i BCommitted (bs_slot_states st)\<rparr>"

definition stop_accepting :: "slot_broker_state \<Rightarrow> slot_broker_state" where
  "stop_accepting st = st\<lparr>bs_accepting := False\<rparr>"

definition update_pruned_variants :: "nat set \<Rightarrow> slot_broker_state \<Rightarrow> slot_broker_state" where
  "update_pruned_variants pruned st = st\<lparr>bs_pruned_variants := pruned\<rparr>"

definition has_unfinished_slots :: "slot_broker_state \<Rightarrow> bool" where
  "has_unfinished_slots st \<longleftrightarrow> (\<exists>s \<in> set (bs_slot_states st). s = BPending \<or> s = BActive)"

text \<open>\<open>sort_by_key\<close> is stable; entries without a schedule index come last.\<close>

definition active_sort_key :: "run_control_active_trial \<Rightarrow> nat \<times> nat" where
  "active_sort_key a = (case rcat_schedule_idx a of None \<Rightarrow> (1, 0) | Some idx \<Rightarrow> (0, idx))"

definition sort_active_trials :: "run_control_active_trial list \<Rightarrow> run_control_active_trial list" where
  "sort_active_trials active = sort_key active_sort_key active"

definition in_flight_active_trials ::
  "(string, in_flight_dispatch) btree \<Rightarrow> run_control_active_trial list" where
  "in_flight_active_trials in_flight =
     sort_active_trials (map (\<lambda>(_, item).
       \<lparr>rcat_trial_id = ifd_trial_id item, rcat_worker_id = ifd_worker_id item,
        rcat_schedule_idx = Some (ifd_schedule_idx item), rcat_variant_id = ifd_variant_id item,
        rcat_started_at = Some (ifd_started_at item)\<rparr>) in_flight)"

definition resolve_local_worker_max_in_flight :: "nat \<Rightarrow> nat option \<Rightarrow> nat \<times> bool" where
  "resolve_local_worker_max_in_flight requested ceiling =
     (let effective = max (case ceiling of None \<Rightarrow> requested | Some c \<Rightarrow> min requested c) 1
      in (effective, effective < requested))"

definition trial_index_from_trial_id :: "string \<Rightarrow> nat option" where
  "trial_index_from_trial_id trial_id =
     Option.bind (Option.bind (strip_prefix ''trial_'' trial_id) parse_u64)
       (\<lambda>idx. if idx > 0 then Some idx else None)"

section \<open>The broker as a state machine\<close>

datatype broker_label =
    ClaimNext string
  | RollbackClaim string
  | CompleteOwned string string nat
  | ReleaseOwned string string nat
  | MarkSlotCommitted nat
  | StopAccepting
  | UpdatePruned "nat set"

text \<open>
  The steps of the worker threads and of the coordinator. Failing calls leave the state as it is and
  are no steps. A claim is rolled back by the worker that just made it, and the coordinator marks
  only slots whose completion it has drained, never an active one. Trial indices do not reach the
  end of \<open>usize\<close>.
\<close>

inductive broker_step :: "slot_broker \<Rightarrow> slot_broker_state \<Rightarrow> broker_label \<Rightarrow> slot_broker_state \<Rightarrow> bool"
  for b :: slot_broker where
  step_claim_next:
    "claim_next b worker_id now st = Some (outcome, st') \<Longrightarrow> bs_trial_index st < usize_max \<Longrightarrow>
     broker_step b st (ClaimNext worker_id) st'"
| step_rollback:
    "bt_get (bs_in_flight st) trial_id = Some d \<Longrightarrow>
     broker_step b st (RollbackClaim trial_id)
       (rollback_claim (ifd_schedule_idx d) trial_id (ifd_variant_idx d) BPending st)"
| step_complete:
    "complete_owned worker_id trial_id i st = Ok st' \<Longrightarrow>
     broker_step b st (CompleteOwned worker_id trial_id i) st'"
| step_release_owned:
    "release_owned_to_pending worker_id trial_id i st = Ok st' \<Longrightarrow>
     broker_step b st (ReleaseOwned worker_id trial_id i) st'"
| step_mark_committed:
    "i < length (bs_slot_states st) \<Longrightarrow> bs_slot_states st ! i \<noteq> BActive \<Longrightarrow>
     broker_step b st (MarkSlotCommitted i) (mark_committed i st)"
| step_stop: "broker_step b st StopAccepting (stop_accepting st)"
| step_prune: "broker_step b st (UpdatePruned pruned) (update_pruned_variants pruned st)"

definition broker_init :: "slot_broker \<Rightarrow> slot_broker_state \<Rightarrow> bool" where
  "broker_init b st \<longleftrightarrow> (\<exists>store run_id recovery. broker_new store run_id (sb_schedule b) recovery = Ok st)"

definition flying :: "(string \<rightharpoonup> in_flight_dispatch) \<Rightarrow> nat \<Rightarrow> string set" where
  "flying m v = {t. \<exists>d. m t = Some d \<and> ifd_variant_idx d = v}"

definition dispatch_wf :: "slot_broker \<Rightarrow> slot_broker_state \<Rightarrow> string \<Rightarrow> in_flight_dispatch \<Rightarrow> bool" where
  "dispatch_wf b st t d \<longleftrightarrow>
     ifd_trial_id d = t \<and> ifd_schedule_idx d < length (bs_slot_states st) \<and>
     bs_slot_states st ! ifd_schedule_idx d = BActive \<and>
     ifd_variant_idx d = ts_variant_idx (sb_schedule b ! ifd_schedule_idx d) \<and>
     (\<exists>n. 1 \<le> n \<and> n \<le> bs_trial_index st \<and> t = trial_id_of n)"

definition broker_inv :: "slot_broker \<Rightarrow> slot_broker_state \<Rightarrow> bool" where
  "broker_inv b st \<longleftrightarrow>
     length (bs_slot_states st) = length (sb_schedule b) \<and>
     bt_wf (bs_in_flight st) \<and>
     (\<forall>t d. bt_get (bs_in_flight st) t = Some d \<longrightarrow> dispatch_wf b st t d) \<and>
     (\<forall>t d t' d'. bt_get (bs_in_flight st) t = Some d \<longrightarrow> bt_get (bs_in_flight st) t' = Some d' \<longrightarrow>
        ifd_schedule_idx d = ifd_schedule_idx d' \<longrightarrow> t = t') \<and>
     (\<forall>i < length (bs_slot_states st). bs_slot_states st ! i = BActive \<longrightarrow>
        (\<exists>t d. bt_get (bs_in_flight st) t = Some d \<and> ifd_schedule_idx d = i)) \<and>
     (\<forall>v. count_of (bs_in_flight_by_variant st) v = card (flying (bt_get (bs_in_flight st)) v)) \<and>
     (\<forall>limit. sb_max_in_flight_per_variant b = Some limit \<longrightarrow>
        (\<forall>v. card (flying (bt_get (bs_in_flight st)) v) \<le> limit))"

lemma broker_invD:
  assumes "broker_inv b st"
  shows "length (bs_slot_states st) = length (sb_schedule b)"
    and "bt_wf (bs_in_flight st)"
    and "bt_get (bs_in_flight st) t = Some d \<Longrightarrow> dispatch_wf b st t d"
    and "bt_get (bs_in_flight st) t = Some d \<Longrightarrow> bt_get (bs_in_flight st) t' = Some d' \<Longrightarrow>
        ifd_schedule_idx d = ifd_schedule_idx d' \<Longrightarrow> t = t'"
    and "i < length (bs_slot_states st) \<Longrightarrow> bs_slot_states st ! i = BActive \<Longrightarrow>
        \<exists>t d. bt_get (bs_in_flight st) t = Some d \<and> ifd_schedule_idx d = i"
    and "count_of (bs_in_flight_by_variant st) v = card (flying (bt_get (bs_in_flight st)) v)"
    and "sb_max_in_flight_per_variant b = Some limit \<Longrightarrow>
        card (flying (bt_get (bs_in_flight st)) v) \<le> limit"
  using assms unfolding broker_inv_def by blast+

lemma broker_invI:
  assumes "length (bs_slot_states st) = length (sb_schedule b)"
    and "bt_wf (bs_in_flight st)"
    and "\<And>t d. bt_get (bs_in_flight st) t = Some d \<Longrightarrow> dispatch_wf b st t d"
    and "\<And>t d t' d'. bt_get (bs_in_flight st) t = Some d \<Longrightarrow> bt_get (bs_in_flight st) t' = Some d' \<Longrightarrow>
        ifd_schedule_idx d = ifd_schedule_idx d' \<Longrightarrow> t = t'"
    and "\<And>i. i < length (bs_slot_states st) \<Longrightarrow> bs_slot_states st ! i = BActive \<Longrightarrow>
        \<exists>t d. bt_get (bs_in_flight st) t = Some d \<and> ifd_schedule_idx d = i"
    and "\<And>v. count_of (bs_in_flight_by_variant st) v = card (flying (bt_get (bs_in_flight st)) v)"
    and "\<And>limit v. sb_max_in_flight_per_variant b = Some limit \<Longrightarrow>
        card (flying (bt_get (bs_in_flight st)) v) \<le> limit"
  shows "broker_inv b st"
  using assms unfolding broker_inv_def by blast

lemma flying_finite: "finite (flying (bt_get m) v)"
proof -
  have "flying (bt_get m) v \<subseteq> dom (bt_get m)" by (auto simp: flying_def)
  then show ?thesis by (rule finite_subset) (simp flip: set_bt_keys)
qed

lemma flying_upd:
  "m t = None \<Longrightarrow> flying (m(t \<mapsto> d)) v = (if ifd_variant_idx d = v then insert t (flying m v) else flying m v)"
  by (auto simp: flying_def split: if_splits)

lemma flying_del: "flying (m(t := None)) v = flying m v - {t}"
  by (auto simp: flying_def)

lemma flying_mem: "m t = Some d \<Longrightarrow> t \<in> flying m v \<longleftrightarrow> ifd_variant_idx d = v"
  by (auto simp: flying_def)

lemma count_of_insert [simp]: "count_of (bt_insert v c m) w = (if w = v then c else count_of m w)"
  by (simp add: count_of_def)

lemma count_of_decrement [simp]:
  "count_of (decrement_variant v m) w = (if w = v then count_of m v - 1 else count_of m w)"
  by (auto simp: count_of_def decrement_variant_def split: option.splits)

lemma trial_id_of_inject [simp]: "trial_id_of m = trial_id_of n \<longleftrightarrow> m = n"
  by (simp add: trial_id_of_def)

text \<open>Rolling back, completing or releasing a claim removes one dispatch and frees its slot.\<close>

lemma rollback_claim_inv:
  assumes inv: "broker_inv b st" and d: "bt_get (bs_in_flight st) t = Some d" and s: "s \<noteq> BActive"
  shows "broker_inv b (rollback_claim (ifd_schedule_idx d) t (ifd_variant_idx d) s st)"
proof -
  let ?i = "ifd_schedule_idx d" and ?m = "bt_get (bs_in_flight st)"
  let ?st = "rollback_claim ?i t (ifd_variant_idx d) s st"
  note D = broker_invD [OF inv]
  have i: "?i < length (bs_slot_states st)" using D(3) [OF d] by (simp add: dispatch_wf_def)
  have states: "bs_slot_states ?st = (bs_slot_states st)[?i := s]"
      and flight: "bt_get (bs_in_flight ?st) = ?m(t := None)"
      and index: "bs_trial_index ?st = bs_trial_index st"
    using i by (simp_all add: rollback_claim_def set_slot_state_def)
  have card: "card (flying (?m(t := None)) v) =
      (if v = ifd_variant_idx d then card (flying ?m v) - 1 else card (flying ?m v))" for v
    using flying_mem [of ?m t d v, OF d] by (simp add: flying_del flying_finite card_Diff_singleton_if)
  show ?thesis
  proof (rule broker_invI)
    show "length (bs_slot_states ?st) = length (sb_schedule b)" by (simp add: states D(1))
    show "bt_wf (bs_in_flight ?st)" using D(2) by (simp add: rollback_claim_def)
    show "dispatch_wf b ?st t' d'" if "bt_get (bs_in_flight ?st) t' = Some d'" for t' d'
    proof -
      from that flight have m: "?m t' = Some d'" "t' \<noteq> t" by (simp_all split: if_splits)
      then have "ifd_schedule_idx d' \<noteq> ?i" using D(4) [OF m(1) d] by blast
      with D(3) [OF m(1)] show ?thesis by (simp add: dispatch_wf_def states index)
    qed
    show "t1 = t2" if "bt_get (bs_in_flight ?st) t1 = Some d1" "bt_get (bs_in_flight ?st) t2 = Some d2"
      "ifd_schedule_idx d1 = ifd_schedule_idx d2" for t1 d1 t2 d2
      using that D(4) [of t1 d1 t2 d2] by (simp add: flight split: if_splits)
    show "\<exists>t' d'. bt_get (bs_in_flight ?st) t' = Some d' \<and> ifd_schedule_idx d' = j"
      if "j < length (bs_slot_states ?st)" "bs_slot_states ?st ! j = BActive" for j
    proof -
      from that i s have j: "j \<noteq> ?i" "bs_slot_states st ! j = BActive" "j < length (bs_slot_states st)"
        by (auto simp: states nth_list_update split: if_splits)
      from D(5) [OF j(3,2)] obtain t' d' where "?m t' = Some d'" "ifd_schedule_idx d' = j" by blast
      with j(1) d show ?thesis by (intro exI [of _ t'] exI [of _ d']) (auto simp: flight)
    qed
    show "count_of (bs_in_flight_by_variant ?st) v = card (flying (bt_get (bs_in_flight ?st)) v)" for v
      by (simp add: flight card D(6) rollback_claim_def del: fun_upd_apply)
    show "card (flying (bt_get (bs_in_flight ?st)) v) \<le> limit"
      if "sb_max_in_flight_per_variant b = Some limit" for limit v
      using D(7) [OF that, of v] by (auto simp: flight card simp del: fun_upd_apply)
  qed
qed

lemma take_owned_Ok:
  "take_owned s worker_id t i st = Ok st' \<longleftrightarrow>
   (\<exists>d. bt_get (bs_in_flight st) t = Some d \<and> ifd_worker_id d = worker_id \<and> ifd_schedule_idx d = i \<and>
      st' = rollback_claim i t (ifd_variant_idx d) s st)"
  by (auto simp: take_owned_def result_iffs)

text \<open>A slot the scan passes over: not pending, or of an unpruned variant at its limit.\<close>

definition passed_over :: "slot_broker \<Rightarrow> slot_broker_state \<Rightarrow> nat \<Rightarrow> bool" where
  "passed_over b st i \<longleftrightarrow>
     bs_slot_states st ! i \<noteq> BPending \<or>
     (ts_variant_idx (sb_schedule b ! i) \<notin> bs_pruned_variants st \<and>
      at_capacity b st (ts_variant_idx (sb_schedule b ! i)))"

lemma claim_scan_outcome:
  assumes "claim_scan b w now is blocked st = Some (outcome, st')"
  shows "(outcome \<in> {NoMoreWork, MustWait} \<and> st' = st \<and> (\<forall>i \<in> set is. passed_over b st i) \<and>
      (outcome = MustWait \<longrightarrow> bs_in_flight st \<noteq> []) \<and>
      (outcome = NoMoreWork \<longrightarrow> bs_in_flight st = [] \<or>
        (\<not> blocked \<and> (\<forall>i \<in> set is. bs_slot_states st ! i \<noteq> BPending)))) \<or>
    (\<exists>pre i post. is = pre @ i # post \<and> (\<forall>j \<in> set pre. passed_over b st j) \<and>
      i < length (bs_slot_states st) \<and> bs_slot_states st ! i = BPending \<and>
      (let v = ts_variant_idx (sb_schedule b ! i) in
       (v \<in> bs_pruned_variants st \<and> outcome = SkippedPruned i \<and>
         st' = st\<lparr>bs_slot_states := (bs_slot_states st)[i := BCompletedPendingCommit]\<rparr>) \<or>
       (v \<notin> bs_pruned_variants st \<and> \<not> at_capacity b st v \<and> v < length (sb_variants b) \<and>
         (outcome, st') = dispatch_slot b w now i st)))"
  using assms
proof (induction "is" arbitrary: blocked)
  case (Cons i "is")
  let ?v = "ts_variant_idx (sb_schedule b ! i)"
  consider (skip) "passed_over b st i" "i < length (bs_slot_states st)"
      "\<exists>bl. claim_scan b w now is bl st = Some (outcome, st') \<and>
        (if bs_slot_states st ! i = BPending then bl else bl = blocked)"
    | (hit) "i < length (bs_slot_states st)" "bs_slot_states st ! i = BPending"
      "(?v \<in> bs_pruned_variants st \<and> outcome = SkippedPruned i \<and>
         st' = st\<lparr>bs_slot_states := (bs_slot_states st)[i := BCompletedPendingCommit]\<rparr>) \<or>
       (?v \<notin> bs_pruned_variants st \<and> \<not> at_capacity b st ?v \<and> ?v < length (sb_variants b) \<and>
         (outcome, st') = dispatch_slot b w now i st)"
    using Cons.prems by (auto simp: passed_over_def Let_def split: if_splits)
  then show ?case
  proof cases
    case hit
    then show ?thesis by (intro disjI2 exI [of _ "[]"] exI [of _ i] exI [of _ "is"]) (simp add: Let_def)
  next
    case skip
    then obtain bl where bl: "claim_scan b w now is bl st = Some (outcome, st')"
      "if bs_slot_states st ! i = BPending then bl else bl = blocked" by blast
    from Cons.IH [OF bl(1)] show ?thesis
    proof (elim disjE exE conjE)
      assume "outcome \<in> {NoMoreWork, MustWait}" "st' = st" "\<forall>i \<in> set is. passed_over b st i"
        "outcome = MustWait \<longrightarrow> bs_in_flight st \<noteq> []"
        "outcome = NoMoreWork \<longrightarrow> bs_in_flight st = [] \<or>
          \<not> bl \<and> (\<forall>i \<in> set is. bs_slot_states st ! i \<noteq> BPending)"
      then show ?thesis using skip(1) bl(2) by (intro disjI1) (auto split: if_splits)
    next
      fix pre k post
      assume "is = pre @ k # post" "\<forall>j \<in> set pre. passed_over b st j" "k < length (bs_slot_states st)"
        "bs_slot_states st ! k = BPending"
        "let v = ts_variant_idx (sb_schedule b ! k) in
         (v \<in> bs_pruned_variants st \<and> outcome = SkippedPruned k \<and>
           st' = st\<lparr>bs_slot_states := (bs_slot_states st)[k := BCompletedPendingCommit]\<rparr>) \<or>
         (v \<notin> bs_pruned_variants st \<and> \<not> at_capacity b st v \<and> v < length (sb_variants b) \<and>
           (outcome, st') = dispatch_slot b w now k st)"
      then show ?thesis
        using skip(1) by (intro disjI2 exI [of _ "i # pre"] exI [of _ k] exI [of _ post]) simp
    qed
  qed
qed (auto split: if_splits)

lemma upt_split_lt: "[0..<n] = pre @ i # post \<Longrightarrow> i < n \<and> set pre = {0..<i}"
proof -
  assume eq: "[0..<n] = pre @ i # post"
  have len: "length pre < n" using arg_cong [OF eq, of length] by simp
  then have i: "i = length pre" "length pre < n"
    using nth_upt [of 0 "length pre" n] eq nth_append_length [of pre i post] by simp_all
  have "pre = take (length pre) [0..<n]" by (simp add: eq)
  then have "set pre = {0..<length pre}" using i(2) by (metis add_0 atLeastLessThan_upt take_upt less_or_eq_imp_le)
  with i show ?thesis by simp
qed

text \<open>What one scan of \<open>claim_next\<close> does, over the whole schedule.\<close>

lemma claim_next_outcome:
  assumes "claim_next b w now st = Some (outcome, st')"
  shows "(outcome \<in> {NoMoreWork, MustWait} \<and> st' = st \<and>
      (outcome = MustWait \<longrightarrow> bs_accepting st \<and> bs_in_flight st \<noteq> []) \<and>
      (outcome = NoMoreWork \<longrightarrow> \<not> bs_accepting st \<or> bs_in_flight st = [] \<or>
        (\<forall>i < length (sb_schedule b). bs_slot_states st ! i \<noteq> BPending)) \<and>
      (bs_accepting st \<longrightarrow> (\<forall>i < length (sb_schedule b). passed_over b st i))) \<or>
    (\<exists>i. bs_accepting st \<and> i < length (sb_schedule b) \<and> (\<forall>j < i. passed_over b st j) \<and>
      i < length (bs_slot_states st) \<and> bs_slot_states st ! i = BPending \<and>
      (let v = ts_variant_idx (sb_schedule b ! i) in
       (v \<in> bs_pruned_variants st \<and> outcome = SkippedPruned i \<and>
         st' = st\<lparr>bs_slot_states := (bs_slot_states st)[i := BCompletedPendingCommit]\<rparr>) \<or>
       (v \<notin> bs_pruned_variants st \<and> \<not> at_capacity b st v \<and> v < length (sb_variants b) \<and>
         (outcome, st') = dispatch_slot b w now i st)))"
proof (cases "bs_accepting st")
  case True
  with assms have "claim_scan b w now [0..<length (sb_schedule b)] False st = Some (outcome, st')"
    by (simp add: claim_next_def)
  from claim_scan_outcome [OF this] show ?thesis
  proof (elim disjE exE conjE)
    fix pre i post
    assume eq: "[0..<length (sb_schedule b)] = pre @ i # post" and pre: "\<forall>j \<in> set pre. passed_over b st j"
      and i: "i < length (bs_slot_states st)" "bs_slot_states st ! i = BPending"
      and l: "let v = ts_variant_idx (sb_schedule b ! i) in
       (v \<in> bs_pruned_variants st \<and> outcome = SkippedPruned i \<and>
         st' = st\<lparr>bs_slot_states := (bs_slot_states st)[i := BCompletedPendingCommit]\<rparr>) \<or>
       (v \<notin> bs_pruned_variants st \<and> \<not> at_capacity b st v \<and> v < length (sb_variants b) \<and>
         (outcome, st') = dispatch_slot b w now i st)"
    from upt_split_lt [OF eq] pre have "i < length (sb_schedule b)" "\<forall>j < i. passed_over b st j" by auto
    with i l True show ?thesis by (intro disjI2 exI [of _ i] conjI)
  qed (use True in auto)
next
  case False
  with assms show ?thesis by (auto simp: claim_next_def)
qed

lemma dispatch_slot_inv:
  assumes inv: "broker_inv b st" and i: "i < length (bs_slot_states st)" "bs_slot_states st ! i = BPending"
    and cap: "\<not> at_capacity b st (ts_variant_idx (sb_schedule b ! i))"
    and fresh: "bs_trial_index st < usize_max"
  shows "broker_inv b (snd (dispatch_slot b w now i st))"
proof -
  let ?st = "snd (dispatch_slot b w now i st)" and ?m = "bt_get (bs_in_flight st)"
  let ?v = "ts_variant_idx (sb_schedule b ! i)" and ?t = "trial_id_of (Suc (bs_trial_index st))"
  let ?d = "\<lparr>ifd_schedule_idx = i, ifd_trial_id = ?t, ifd_variant_idx = ?v,
    ifd_variant_id = sb_variants b ! ?v, ifd_worker_id = w, ifd_started_at = now\<rparr>"
  note D = broker_invD [OF inv]
  have sat: "saturating_add (bs_trial_index st) 1 = bs_trial_index st + 1"
    using fresh by (intro saturating_add_exact) linarith
  then have sat': "saturating_add (bs_trial_index st) (Suc 0) = Suc (bs_trial_index st)" by simp
  have states: "bs_slot_states ?st = (bs_slot_states st)[i := BActive]"
      and flight: "bs_in_flight ?st = bt_insert ?t ?d (bs_in_flight st)"
      and index: "bs_trial_index ?st = bs_trial_index st + 1"
      and counts: "count_of (bs_in_flight_by_variant ?st) v =
        (if v = ?v then count_of (bs_in_flight_by_variant st) v + 1
         else count_of (bs_in_flight_by_variant st) v)" for v
    by (simp_all add: dispatch_slot_def Let_def sat')
  have new: "?m ?t = None"
  proof (rule ccontr)
    assume "?m ?t \<noteq> None"
    then obtain d where "?m ?t = Some d" by blast
    from D(3) [OF this] show False by (auto simp: dispatch_wf_def)
  qed
  have idle: "ifd_schedule_idx d \<noteq> i" if "?m t = Some d" for t d
    using D(3) [OF that] i(2) by (auto simp: dispatch_wf_def)
  have notin: "?t \<notin> flying ?m v" for v using new by (simp add: flying_def)
  have card: "card (flying (?m(?t \<mapsto> ?d)) v) = (if v = ?v then card (flying ?m v) + 1 else card (flying ?m v))" for v
    using notin [of v] by (auto simp: flying_upd [of ?m, OF new] flying_finite)
  show ?thesis
  proof (rule broker_invI)
    show "length (bs_slot_states ?st) = length (sb_schedule b)" by (simp add: states D(1))
    show "bt_wf (bs_in_flight ?st)" using D(2) by (simp add: flight)
    show "dispatch_wf b ?st t d" if "bt_get (bs_in_flight ?st) t = Some d" for t d
    proof (cases "t = ?t")
      case True
      with that i show ?thesis
        by (auto simp: flight dispatch_wf_def states index intro!: exI [of _ "bs_trial_index st + 1"])
    next
      case False
      with that have m: "?m t = Some d" by (simp add: flight)
      with D(3) [OF m] idle [OF m] show ?thesis
        by (auto simp: dispatch_wf_def states index intro: le_SucI)
    qed
    show "t1 = t2" if "bt_get (bs_in_flight ?st) t1 = Some d1" "bt_get (bs_in_flight ?st) t2 = Some d2"
      "ifd_schedule_idx d1 = ifd_schedule_idx d2" for t1 d1 t2 d2
      using that D(4) [of t1 d1 t2 d2] idle [of t1 d1] idle [of t2 d2] by (simp add: flight split: if_splits) auto
    show "\<exists>t d. bt_get (bs_in_flight ?st) t = Some d \<and> ifd_schedule_idx d = j"
      if "j < length (bs_slot_states ?st)" "bs_slot_states ?st ! j = BActive" for j
    proof (cases "j = i")
      case True
      then show ?thesis by (intro exI [of _ ?t] exI [of _ ?d]) (simp add: flight)
    next
      case False
      with that have "j < length (bs_slot_states st)" "bs_slot_states st ! j = BActive"
        by (simp_all add: states)
      from D(5) [OF this] obtain t d where "?m t = Some d" "ifd_schedule_idx d = j" by blast
      with new show ?thesis by (intro exI [of _ t] exI [of _ d]) (auto simp: flight)
    qed
    show "count_of (bs_in_flight_by_variant ?st) v = card (flying (bt_get (bs_in_flight ?st)) v)" for v
      by (simp add: flight counts card D(6) del: fun_upd_apply)
    show "card (flying (bt_get (bs_in_flight ?st)) v) \<le> limit"
      if "sb_max_in_flight_per_variant b = Some limit" for limit v
      using D(7) [OF that, of v] cap that
      by (auto simp: flight card at_capacity_def D(6) simp del: fun_upd_apply)
  qed
qed

lemma slot_state_inv:
  assumes inv: "broker_inv b st" and i: "i < length (bs_slot_states st)" "bs_slot_states st ! i \<noteq> BActive"
    and s: "s \<noteq> BActive"
  shows "broker_inv b (st\<lparr>bs_slot_states := (bs_slot_states st)[i := s]\<rparr>)"
proof (rule broker_invI)
  note D = broker_invD [OF inv]
  let ?st = "st\<lparr>bs_slot_states := (bs_slot_states st)[i := s]\<rparr>"
  show "dispatch_wf b ?st t d" if "bt_get (bs_in_flight ?st) t = Some d" for t d
    using D(3) [of t d] that i by (auto simp: dispatch_wf_def nth_list_update)
  show "\<exists>t d. bt_get (bs_in_flight ?st) t = Some d \<and> ifd_schedule_idx d = j"
    if "j < length (bs_slot_states ?st)" "bs_slot_states ?st ! j = BActive" for j
    using D(5) [of j] that i s by (auto simp: nth_list_update split: if_splits)
  show "t = t'" if "bt_get (bs_in_flight ?st) t = Some d" "bt_get (bs_in_flight ?st) t' = Some d'"
    "ifd_schedule_idx d = ifd_schedule_idx d'" for t d t' d'
    using D(4) [of t d t' d'] that by simp
qed (use broker_invD [OF inv] in simp_all)

lemma restore_slot_state_Ok: "restore_slot_state st run_id recovery i = Ok s \<Longrightarrow> s \<noteq> BActive"
  unfolding restore_slot_state_def
  by (cases "schedule_slot st run_id i"; cases "ssr_state (the (schedule_slot st run_id i))")
    (auto split: if_splits)

lemma restore_slot_states_Ok:
  "restore_slot_states st run_id recovery is = Ok ss \<Longrightarrow> length ss = length is \<and> BActive \<notin> set ss"
  by (induction "is" arbitrary: ss) (auto simp: result_iffs dest: restore_slot_state_Ok)

lemma broker_init_inv: "broker_init b st \<Longrightarrow> broker_inv b st"
  unfolding broker_init_def broker_new_def
  by (auto simp: result_iffs broker_inv_def flying_def count_of_def dest!: restore_slot_states_Ok
      dest: nth_mem)

lemma broker_step_inv:
  assumes inv: "broker_inv b st" and step: "broker_step b st l st'"
  shows "broker_inv b st'"
  using step
proof cases
  case (step_claim_next w now outcome)
  from claim_next_outcome [OF step_claim_next(2)] show ?thesis
  proof (elim disjE exE conjE)
    fix i
    assume i: "i < length (bs_slot_states st)" "bs_slot_states st ! i = BPending"
      and l: "let v = ts_variant_idx (sb_schedule b ! i) in
       (v \<in> bs_pruned_variants st \<and> outcome = SkippedPruned i \<and>
         st' = st\<lparr>bs_slot_states := (bs_slot_states st)[i := BCompletedPendingCommit]\<rparr>) \<or>
       (v \<notin> bs_pruned_variants st \<and> \<not> at_capacity b st v \<and> v < length (sb_variants b) \<and>
         (outcome, st') = dispatch_slot b w now i st)"
    show ?thesis
      using l slot_state_inv [OF inv i(1), of BCompletedPendingCommit]
        dispatch_slot_inv [OF inv i, of w now] step_claim_next(3) i(2)
      by (auto simp: Let_def) (metis snd_conv)
  qed (use inv in simp_all)
next
  case (step_rollback t d)
  with inv show ?thesis by (auto intro: rollback_claim_inv)
next
  case (step_complete w t i)
  with inv show ?thesis by (auto simp: complete_owned_def take_owned_Ok intro: rollback_claim_inv)
next
  case (step_release_owned w t i)
  with inv show ?thesis by (auto simp: release_owned_to_pending_def take_owned_Ok intro: rollback_claim_inv)
next
  case (step_mark_committed i)
  with slot_state_inv [OF inv, of i BCommitted] show ?thesis
    by (simp add: mark_committed_def set_slot_state_def)
qed (use inv in \<open>auto simp: stop_accepting_def update_pruned_variants_def broker_inv_def dispatch_wf_def\<close>)

interpretation broker: invariant_system "broker_init b" "broker_step b" "broker_inv b" for b
  by unfold_locales (auto intro: broker_init_inv broker_step_inv)

section \<open>Properties\<close>

lemma length_in_flight: "bt_wf m \<Longrightarrow> length m = card (dom (bt_get m))"
  by (metis bt_keys_def bt_keys_sorted distinct_card length_map set_bt_keys)

text \<open>A broker of two slots of one variant with a limit of one, for the witnesses.\<close>

definition sample_broker :: slot_broker where
  "sample_broker = \<lparr>sb_variants = [''base''], sb_schedule = [mk_slot 0 0 0, mk_slot 0 1 0],
     sb_max_in_flight_per_variant = Some 1\<rparr>"

definition sample_broker0 :: slot_broker_state where
  "sample_broker0 =
     \<lparr>bs_slot_states = [BPending, BPending], bs_in_flight = [], bs_in_flight_by_variant = [],
      bs_pruned_variants = {}, bs_trial_index = 0, bs_accepting = True\<rparr>"

definition sample_broker1 :: slot_broker_state where
  "sample_broker1 = snd (dispatch_slot sample_broker ''w1'' ''now'' 0 sample_broker0)"

definition sample_active :: run_control_active_trial where
  "sample_active = \<lparr>rcat_trial_id = ''trial_1'', rcat_worker_id = ''w1'', rcat_schedule_idx = Some 0,
     rcat_variant_id = ''base'', rcat_started_at = Some ''now''\<rparr>"

lemma trial_id_of_1 [simp]: "trial_id_of (Suc 0) = ''trial_1''"
  by code_simp

lemma sample_claim:
  "claim_next sample_broker ''w1'' ''now'' sample_broker0 =
     Some (Dispatched 0 ''trial_1'' (mk_slot 0 0 0) sample_active, sample_broker1)"
  by (simp add: claim_next_def sample_broker_def sample_broker0_def sample_broker1_def at_capacity_def
      count_of_def upt_rec dispatch_slot_def Let_def saturating_add_def usize_max_def sample_active_def)

lemma sample_broker0_init: "broker_init sample_broker sample_broker0"
proof -
  let ?slots = "[(''run'', 0) \<mapsto> pending_slot 0 (mk_slot 0 0 0), (''run'', 1) \<mapsto> pending_slot 1 (mk_slot 0 1 0)]"
  have "broker_new (empty_store\<lparr>st_slots := ?slots\<rparr>) ''run'' (sb_schedule sample_broker)
      \<lparr>sbr_committed_schedules = {}, sbr_pending_completion_schedules = {}, sbr_pruned_variants = {},
       sbr_trial_index = 0\<rparr> = Ok sample_broker0"
    by (simp add: broker_new_def sample_broker_def sample_broker0_def restore_slot_state_def upt_rec
        schedule_slot_def pending_slot_def)
  then show ?thesis unfolding broker_init_def by blast
qed

lemma sample_broker1_reachable: "reachable (broker_init sample_broker) (broker_step sample_broker) sample_broker1"
  by (rule reach_step [OF reach_init [of "broker_init sample_broker", OF sample_broker0_init]], rule step_claim_next [OF sample_claim])
    (simp add: sample_broker0_def usize_max_def)

text \<open>
  C14: In every state the broker can reach, whatever the interleaving of the workers and the
  coordinator, the in-flight trials are exactly the active slots (one trial per slot), the counter of
  each variant is the number of its trials in flight, and no variant exceeds its limit.
\<close>

theorem broker_reachable_consistent:
  assumes "reachable (broker_init b) (broker_step b) st"
  shows "bij_betw (\<lambda>t. ifd_schedule_idx (the (bt_get (bs_in_flight st) t))) (dom (bt_get (bs_in_flight st)))
      {i. i < length (bs_slot_states st) \<and> bs_slot_states st ! i = BActive} \<and>
    (\<forall>v. count_of (bs_in_flight_by_variant st) v = card (flying (bt_get (bs_in_flight st)) v)) \<and>
    (case sb_max_in_flight_per_variant b of None \<Rightarrow> True
     | Some limit \<Rightarrow> (\<forall>v. card (flying (bt_get (bs_in_flight st)) v) \<le> limit))"
proof -
  have inv: "broker_inv b st" using assms by (rule broker.reachable_inv)
  note D = broker_invD [OF inv]
  have "inj_on (\<lambda>t. ifd_schedule_idx (the (bt_get (bs_in_flight st) t))) (dom (bt_get (bs_in_flight st)))"
    using D(4) by (fastforce intro: inj_onI)
  moreover have "(\<lambda>t. ifd_schedule_idx (the (bt_get (bs_in_flight st) t))) ` dom (bt_get (bs_in_flight st)) =
      {i. i < length (bs_slot_states st) \<and> bs_slot_states st ! i = BActive}"
    using D(3,5) by (fastforce simp: dispatch_wf_def image_iff dom_def)
  ultimately show ?thesis
    using D(6,7) by (auto simp: bij_betw_def split: option.split)
qed

theorem broker_reachable_consistent_witness:
  "count_of (bs_in_flight_by_variant sample_broker1) 0 = card (flying (bt_get (bs_in_flight sample_broker1)) 0)"
  using broker_reachable_consistent [OF sample_broker1_reachable] by blast

text \<open>
  A dispatch goes to the first slot of the schedule that is pending and below its variant's
  limit, no earlier pending slot being pruned; its variant is not pruned, and its trial id was never
  used by a trial in flight. The slot becomes active and nothing else about the slots changes.
\<close>

lemma claim_next_dispatch:
  assumes "reachable (broker_init b) (broker_step b) st" and "bs_trial_index st < usize_max"
    and "claim_next b w now st = Some (Dispatched i t slot active, st')"
  shows "i < length (sb_schedule b) \<and> slot = sb_schedule b ! i \<and>
    bs_slot_states st ! i = BPending \<and> (\<forall>j < i. passed_over b st j) \<and>
    ts_variant_idx slot \<notin> bs_pruned_variants st \<and> \<not> at_capacity b st (ts_variant_idx slot) \<and>
    t = trial_id_of (bs_trial_index st + 1) \<and> bt_get (bs_in_flight st) t = None \<and>
    bs_slot_states st' = (bs_slot_states st)[i := BActive] \<and>
    bs_trial_index st' = bs_trial_index st + 1 \<and>
    (\<exists>d. bt_get (bs_in_flight st') t = Some d \<and> ifd_worker_id d = w \<and> ifd_schedule_idx d = i)"
proof -
  have inv: "broker_inv b st" using assms(1) by (rule broker.reachable_inv)
  have sat: "saturating_add (bs_trial_index st) (Suc 0) = Suc (bs_trial_index st)"
    using assms(2) saturating_add_exact [of "bs_trial_index st" 1] by simp
  have new: "bt_get (bs_in_flight st) (trial_id_of (Suc (bs_trial_index st))) = None"
  proof (rule ccontr)
    assume "bt_get (bs_in_flight st) (trial_id_of (Suc (bs_trial_index st))) \<noteq> None"
    then obtain d where "bt_get (bs_in_flight st) (trial_id_of (Suc (bs_trial_index st))) = Some d" by blast
    from broker_invD(3) [OF inv this] show False by (auto simp: dispatch_wf_def)
  qed
  from claim_next_outcome [OF assms(3)] obtain k where k: "k < length (sb_schedule b)"
      "\<forall>j < k. passed_over b st j" "bs_slot_states st ! k = BPending"
      "ts_variant_idx (sb_schedule b ! k) \<notin> bs_pruned_variants st"
      "\<not> at_capacity b st (ts_variant_idx (sb_schedule b ! k))"
      "(Dispatched i t slot active, st') = dispatch_slot b w now k st"
    by (auto simp: Let_def)
  then have "k = i" "slot = sb_schedule b ! i" "t = trial_id_of (Suc (bs_trial_index st))"
    by (simp_all add: dispatch_slot_def Let_def sat)
  with k new show ?thesis by (simp add: dispatch_slot_def Let_def sat)
qed

text \<open>
  A worker waits only while a trial is in flight, whose completion or release will wake it, and
  only for capacity: every slot it passed over is taken or of a variant at its limit. It is sent home
  only when the broker has stopped accepting, nothing is in flight, or no slot is pending.
\<close>

lemma claim_next_wait_or_exit:
  assumes "claim_next b w now st = Some (outcome, st')" and "outcome = MustWait \<or> outcome = NoMoreWork"
  shows "st' = st \<and>
    (outcome = MustWait \<longrightarrow> bs_accepting st \<and> bs_in_flight st \<noteq> [] \<and>
      (\<forall>i < length (sb_schedule b). passed_over b st i)) \<and>
    (outcome = NoMoreWork \<longrightarrow> \<not> bs_accepting st \<or> bs_in_flight st = [] \<or>
      (\<forall>i < length (sb_schedule b). bs_slot_states st ! i \<noteq> BPending))"
  using claim_next_outcome [OF assms(1)] assms(2)
  by (auto simp: Let_def dispatch_slot_def)

text \<open>
  With a per-variant limit of zero no slot is ever dispatched: as long as nothing is in flight,
  the scan either skips pruned slots or sends the worker home while slots are pending.
\<close>

lemma zero_variant_limit_starves:
  assumes "sb_max_in_flight_per_variant b = Some 0"
    and "claim_next b w now st = Some (outcome, st')" and "bs_in_flight st = []"
  shows "(outcome = NoMoreWork \<and> st' = st) \<or>
    (\<exists>i. outcome = SkippedPruned i \<and> ts_variant_idx (sb_schedule b ! i) \<in> bs_pruned_variants st)"
  using claim_next_outcome [OF assms(2)] assms(1,3)
  by (auto simp: Let_def at_capacity_def)

text \<open>
  Only the worker that owns a trial, naming its slot, can complete or release it; every other
  attempt is refused. The owner's completion takes the trial out of flight and readies the slot for
  its commit; a release makes it pending again.
\<close>

lemma ownership_checked:
  "(is_ok (complete_owned w t i st) \<longleftrightarrow>
     (\<exists>d. bt_get (bs_in_flight st) t = Some d \<and> ifd_worker_id d = w \<and> ifd_schedule_idx d = i)) \<and>
   (is_ok (release_owned_to_pending w t i st) \<longleftrightarrow> is_ok (complete_owned w t i st)) \<and>
   (case complete_owned w t i st of
      Inl e \<Rightarrow> e = OwnershipUnknownTrial t \<or> e = OwnershipMismatch w t i
    | Inr st' \<Rightarrow> bt_get (bs_in_flight st') = (bt_get (bs_in_flight st))(t := None) \<and>
        bs_slot_states st' = set_slot_state i BCompletedPendingCommit (bs_slot_states st) \<and>
        release_owned_to_pending w t i st =
          Ok (st'\<lparr>bs_slot_states := set_slot_state i BPending (bs_slot_states st)\<rparr>))"
  by (cases "bt_get (bs_in_flight st) t")
    (auto simp: complete_owned_def release_owned_to_pending_def take_owned_def rollback_claim_def)

text \<open>A slot restored as active stays blocked until it is marked committed.\<close>

lemma blocked_step:
  assumes "broker_step b st l st'" and "broker_inv b st"
    and "i < length (bs_slot_states st)" "bs_slot_states st ! i = BBlockedActive"
    and "l \<noteq> MarkSlotCommitted i"
  shows "bs_slot_states st' ! i = BBlockedActive"
  using assms(1)
proof cases
  case (step_claim_next w now outcome)
  from claim_next_outcome [OF step_claim_next(2)] assms(4) show ?thesis
    by (auto simp: Let_def dispatch_slot_def nth_list_update split: if_splits)
next
  case (step_rollback t d)
  with broker_invD(3) [OF assms(2)] assms(4) show ?thesis
    by (auto simp: rollback_claim_def set_slot_state_def dispatch_wf_def nth_list_update)
next
  case (step_complete w t k)
  with broker_invD(3) [OF assms(2)] assms(4) show ?thesis
    by (auto simp: complete_owned_def take_owned_Ok rollback_claim_def set_slot_state_def dispatch_wf_def
        nth_list_update)
next
  case (step_release_owned w t k)
  with broker_invD(3) [OF assms(2)] assms(4) show ?thesis
    by (auto simp: release_owned_to_pending_def take_owned_Ok rollback_claim_def set_slot_state_def
        dispatch_wf_def nth_list_update)
qed (use assms(3-5) in \<open>auto simp: mark_committed_def set_slot_state_def stop_accepting_def
    update_pruned_variants_def nth_list_update\<close>)

lemma restore_slot_states_nth:
  "restore_slot_states store run_id recovery is = Ok ss \<Longrightarrow> k < length is \<Longrightarrow>
   restore_slot_state store run_id recovery (is ! k) = Ok (ss ! k)"
proof (induction "is" arbitrary: ss k)
  case (Cons i "is")
  then show ?case by (cases k) (auto simp: result_iffs)
qed simp

lemma broker_step_length: "broker_step b st l st' \<Longrightarrow> broker_inv b st \<Longrightarrow> length (bs_slot_states st') = length (bs_slot_states st)"
  using broker_step_inv broker_invD(1) by metis

lemma blocked_path:
  assumes "path (broker_step b) st ls st'" and "broker_inv b st"
    and "i < length (bs_slot_states st)" "bs_slot_states st ! i = BBlockedActive"
    and "MarkSlotCommitted i \<notin> set ls"
  shows "bs_slot_states st' ! i = BBlockedActive \<and> length (bs_slot_states st') = length (bs_slot_states st)"
  using assms
proof (induction rule: path.induct)
  case (path_cons s l t ls u)
  then have "bs_slot_states t ! i = BBlockedActive" "broker_inv b t"
      "length (bs_slot_states t) = length (bs_slot_states s)"
    using blocked_step [OF path_cons.hyps(1)] broker_step_inv broker_step_length by auto
  with path_cons show ?case by simp
qed simp

text \<open>
  A slot that the store still records as active when the engine starts, and that is neither
  committed nor has a completion to recover, is never dispatched by the new broker, whatever the
  workers do, and does not count as unfinished: the engine can end the run without having run it.
\<close>

lemma stale_active_slot_never_dispatched:
  assumes "broker_new store run_id (sb_schedule b) recovery = Ok st"
    and "i < length (sb_schedule b)" "i \<notin> sbr_committed_schedules recovery"
    and "i \<notin> sbr_pending_completion_schedules recovery"
    and "schedule_slot store run_id i = Some r" "ssr_state r = SlotActive"
    and "path (broker_step b) st ls st'" "MarkSlotCommitted i \<notin> set ls"
  shows "bs_slot_states st' ! i = BBlockedActive \<and>
    has_unfinished_slots st' = (\<exists>j < length (sb_schedule b). j \<noteq> i \<and> bs_slot_states st' ! j \<in> {BPending, BActive})"
proof -
  have init: "broker_inv b st" by (rule broker_init_inv) (auto simp: broker_init_def intro: assms(1))
  obtain ss where ss: "restore_slot_states store run_id recovery [0..<length (sb_schedule b)] = Ok ss"
      "bs_slot_states st = ss"
    using assms(1) by (auto simp: broker_new_def result_iffs)
  have "bs_slot_states st ! i = BBlockedActive"
    using restore_slot_states_nth [OF ss(1), of i] assms(2-6) ss(2) by (simp add: restore_slot_state_def)
  from blocked_path [OF assms(7) init _ this assms(8)] have b: "bs_slot_states st' ! i = BBlockedActive"
      "length (bs_slot_states st') = length (sb_schedule b)"
    using broker_invD(1) [OF init] assms(2) by simp_all
  have "has_unfinished_slots st' = (\<exists>j < length (sb_schedule b). bs_slot_states st' ! j \<in> {BPending, BActive})"
    using b(2) by (auto simp: has_unfinished_slots_def Bex_def in_set_conv_nth)
  with b(1) show ?thesis by force
qed

end
