(* ===== verification/Run_Control.thy ===== *)
theory Run_Control
  imports Trial_State Lease Slot_Broker
begin

text \<open>
  The control record of a run and the operations of its user (\<open>lab-runner/src/experiment/control.rs\<close>):
  pausing, killing and resuming under the operation lease. The record is a JSON value in the runtime
  store; its status is mirrored in the table of runs. Trial directories are named by their trial ids.
\<close>

section \<open>The control record\<close>

record run_control_pause_metadata =
  rpm_label :: string
  rpm_requested_at :: string
  rpm_requested_by :: "string option"

datatype control_error =
    ControlLease lease_error
  | ControlNotFound
  | ControlDb
  | ControlContract
  | MissingStatus
  | MissingRunId
  | ActiveTrialMissingWorker string
  | ActiveTrialMissingVariant string
  | ActiveTrialScheduleOverflow string
  | PauseNonRunning string
  | PauseTargetNotActive string
  | PauseNoActiveTrial
  | PausePartialFailure nat nat
  | KillTerminalStatus string
  | KillPartialFailure nat nat
  | ResumeNonPaused string
  | ResumeTargetNotActive string
  | ResumeNoActiveTrial
  | ResumeMultipleActiveTrials nat
  | ResumeTrialNotFound string
  | ResumeUnsupported
  | ResumeMissingDbAttempt string
  | ControlTrial trial_error

definition run_control_status :: "externs \<Rightarrow> json \<Rightarrow> (control_error, string) result" where
  "run_control_status ex control = ok_or MissingStatus (pointer_str ex control ''/status'')"

definition non_blank :: "string option \<Rightarrow> string option" where
  "non_blank v =
     (case v of None \<Rightarrow> None | Some s \<Rightarrow> if trim s = [] then None else Some (trim s))"

definition run_control_run_id :: "externs \<Rightarrow> json \<Rightarrow> string option" where
  "run_control_run_id ex control = non_blank (pointer_str ex control ''/run_id'')"

definition require_run_control_run_id :: "externs \<Rightarrow> json \<Rightarrow> (control_error, string) result" where
  "require_run_control_run_id ex control = ok_or MissingRunId (run_control_run_id ex control)"

definition active_entries :: "externs \<Rightarrow> json \<Rightarrow> (string, json) btree option" where
  "active_entries ex control = Option.bind (ex_pointer ex control ''/active_trials'') as_object"

definition run_control_active_trial_ids :: "externs \<Rightarrow> json \<Rightarrow> string list" where
  "run_control_active_trial_ids ex control =
     (case active_entries ex control of None \<Rightarrow> [] | Some entries \<Rightarrow> bt_keys entries)"

definition parse_active_trial :: "externs \<Rightarrow> string \<Rightarrow> json \<Rightarrow> (control_error, run_control_active_trial) result" where
  "parse_active_trial ex trial_id entry =
     rbind (ok_or (ActiveTrialMissingWorker trial_id) (non_blank (pointer_str ex entry ''/worker_id''))) (\<lambda>worker_id.
     rbind (case Option.bind (ex_pointer ex entry ''/schedule_idx'') as_u64 of
              None \<Rightarrow> Ok None
            | Some value \<Rightarrow>
                if value \<le> usize_max then Ok (Some value) else Err (ActiveTrialScheduleOverflow trial_id)) (\<lambda>schedule_idx.
     rbind (ok_or (ActiveTrialMissingVariant trial_id) (non_blank (pointer_str ex entry ''/variant_id''))) (\<lambda>variant_id.
     Ok \<lparr>rcat_trial_id = trial_id, rcat_worker_id = worker_id, rcat_schedule_idx = schedule_idx,
         rcat_variant_id = variant_id, rcat_started_at = pointer_str ex entry ''/started_at''\<rparr>)))"

fun parse_active_trials ::
  "externs \<Rightarrow> (string \<times> json) list \<Rightarrow> (control_error, run_control_active_trial list) result" where
  "parse_active_trials ex [] = Ok []"
| "parse_active_trials ex ((trial_id, entry) # entries) =
     rbind (parse_active_trial ex trial_id entry) (\<lambda>active.
     rbind (parse_active_trials ex entries) (\<lambda>rest. Ok (active # rest)))"

definition run_control_active_trials :: "externs \<Rightarrow> json \<Rightarrow> (control_error, run_control_active_trial list) result" where
  "run_control_active_trials ex control =
     (case active_entries ex control of None \<Rightarrow> Ok [] | Some entries \<Rightarrow> parse_active_trials ex entries)"

definition json_option :: "('a \<Rightarrow> json) \<Rightarrow> 'a option \<Rightarrow> json" where
  "json_option f v = (case v of None \<Rightarrow> JNull | Some x \<Rightarrow> f x)"

definition active_trial_entry :: "run_control_active_trial \<Rightarrow> string \<Rightarrow> json" where
  "active_trial_entry active updated_at =
     json_object
       [(''trial_id'', JString (rcat_trial_id active)), (''worker_id'', JString (rcat_worker_id active)),
        (''schedule_idx'', json_option jnat (rcat_schedule_idx active)),
        (''variant_id'', JString (rcat_variant_id active)),
        (''started_at'', JString (case rcat_started_at active of None \<Rightarrow> updated_at | Some s \<Rightarrow> s))]"

definition run_control_active_trials_payload ::
  "run_control_active_trial list \<Rightarrow> string \<Rightarrow> (string, json) btree" where
  "run_control_active_trials_payload active_trials updated_at =
     fold (\<lambda>active. bt_insert (rcat_trial_id active) (active_trial_entry active updated_at)) active_trials []"

definition run_control_payload ::
  "string \<Rightarrow> string \<Rightarrow> run_control_active_trial list \<Rightarrow> run_control_pause_metadata option \<Rightarrow> string \<Rightarrow> json" where
  "run_control_payload run_id status active_trials pause updated_at =
     json_object
       [(''schema_version'', JString ''run_control_v2''), (''run_id'', JString run_id),
        (''status'', JString status),
        (''active_trials'', JObject (run_control_active_trials_payload active_trials updated_at)),
        (''pause'', json_option (\<lambda>m. json_object
           [(''label'', JString (rpm_label m)), (''requested_at'', JString (rpm_requested_at m)),
            (''requested_by'', json_option JString (rpm_requested_by m))]) pause),
        (''updated_at'', JString updated_at)]"

section \<open>The store of a run\<close>

datatype control_site = ControlRead | ControlWrite | StatusWrite

record control_world =
  cw_lease :: lease_file
  cw_control :: "json option"
  cw_run_status :: "string option"
  cw_trials :: trial_world

record control_env =
  cn_externs :: externs
  cn_lease :: lease_env
  cn_trials :: trial_env
  cn_contract :: "json \<Rightarrow> bool"
  cn_db :: "control_site \<Rightarrow> bool"
  cn_now :: string

type_synonym 'a control_op = "(control_world, control_error, 'a) op"

definition control_db :: "control_env \<Rightarrow> control_site \<Rightarrow> unit control_op" where
  "control_db env site = olift (ensure (cn_db env site) ControlDb)"

definition on_trials :: "'a trial_op \<Rightarrow> 'a control_op" where
  "on_trials m w = (case m (cw_trials w) of (r, t) \<Rightarrow> (map_err ControlTrial r, w\<lparr>cw_trials := t\<rparr>))"

definition load_run_control :: "control_env \<Rightarrow> json control_op" where
  "load_run_control env =
     obind (control_db env ControlRead) (\<lambda>_.
     obind (oget cw_control) (\<lambda>control.
     olift (ok_or ControlNotFound control)))"

text \<open>\<open>put_runtime_json\<close>: the value and the mirrored status are separate statements.\<close>

definition write_run_control ::
  "control_env \<Rightarrow> string \<Rightarrow> string \<Rightarrow> run_control_active_trial list \<Rightarrow> run_control_pause_metadata option \<Rightarrow>
   unit control_op" where
  "write_run_control env run_id status active_trials pause =
     (let payload = run_control_payload run_id status active_trials pause (cn_now env)
      in obind (olift (ensure (cn_contract env payload) ControlContract)) (\<lambda>_.
         obind (control_db env ControlWrite) (\<lambda>_.
         obind (omodify (\<lambda>w. w\<lparr>cw_control := Some payload\<rparr>)) (\<lambda>_.
         obind (control_db env StatusWrite) (\<lambda>_.
         omodify (\<lambda>w. w\<lparr>cw_run_status := Some status\<rparr>))))))"

text \<open>The guard of a running engine; \<open>interrupted\<close> is the signal flag when it is dropped.\<close>

record run_control_guard =
  rcg_run_id :: string
  rcg_done :: bool

definition run_control_guard_complete ::
  "control_env \<Rightarrow> string \<Rightarrow> run_control_guard \<Rightarrow> run_control_guard control_op" where
  "run_control_guard_complete env status g =
     obind (write_run_control env (rcg_run_id g) status [] None) (\<lambda>_.
     oreturn (g\<lparr>rcg_done := True\<rparr>))"

definition run_control_guard_disarm :: "run_control_guard \<Rightarrow> run_control_guard" where
  "run_control_guard_disarm g = g\<lparr>rcg_done := True\<rparr>"

definition run_control_guard_drop :: "control_env \<Rightarrow> bool \<Rightarrow> run_control_guard \<Rightarrow> control_world \<Rightarrow> control_world" where
  "run_control_guard_drop env interrupted g w =
     (if rcg_done g then w
      else snd (write_run_control env (rcg_run_id g)
        (if interrupted then ''interrupted'' else ''failed'') [] None w))"

section \<open>Containers of a trial\<close>

definition runtime_trial_container_handles :: "trial_env \<Rightarrow> string \<Rightarrow> string \<Rightarrow> string list trial_op" where
  "runtime_trial_container_handles env run_id trial_id =
     obind (load_trial_attempt_container_ids env trial_id) (\<lambda>handles.
     if handles \<noteq> [] then oreturn (dedupe_handles handles)
     else obind (load_db_container_ids env run_id trial_id) (\<lambda>db_handles.
          oreturn (dedupe_handles (handles @ db_handles))))"

text \<open>Both error messages of a trial without containers are one error here.\<close>

definition resolve_active_trial_control_mode :: "trial_env \<Rightarrow> string \<Rightarrow> string \<Rightarrow> unit trial_op" where
  "resolve_active_trial_control_mode env run_id trial_id =
     obind (runtime_trial_container_handles env run_id trial_id) (\<lambda>handles.
     if handles \<noteq> [] then oreturn ()
     else obind (load_latest_trial_attempt env run_id trial_id) (\<lambda>_.
          ofail (MissingRuntimeContainer trial_id)))"

definition paused_attempt :: "trial_attempt_state \<Rightarrow> trial_attempt_state" where
  "paused_attempt state =
     (let state = (if tas_phase state \<noteq> PhPaused then state\<lparr>tas_paused_from_phase := Some (tas_phase state)\<rparr>
                   else state)
      in state\<lparr>tas_phase := PhPaused\<rparr>)"

definition pause_trial_runtime_containers :: "trial_env \<Rightarrow> string \<Rightarrow> string \<Rightarrow> unit trial_op" where
  "pause_trial_runtime_containers env run_id trial_id =
     obind (runtime_trial_container_handles env run_id trial_id) (\<lambda>handles.
     if handles = [] then ofail (MissingRuntimeContainer trial_id)
     else
       obind (docker_connect env) (\<lambda>_.
       obind (oforeach handles (\<lambda>h.
         if te_docker env (PauseContainer h) = DockerDone then docker_call_op env (PauseContainer h)
         else ofail DockerFault)) (\<lambda>_.
       obind (load_latest_trial_attempt env run_id trial_id) (\<lambda>record.
       obind (olift (ok_or (MissingDbAttempt trial_id) record)) (\<lambda>record.
       let state = tar_state record
       in if tas_phase state = PhCommitted \<or> tas_phase state = PhKilled then oreturn ()
          else persist_attempt_state env run_id trial_id (paused_attempt state))))))"

definition mark_trial_attempt_killed :: "trial_env \<Rightarrow> string \<Rightarrow> string \<Rightarrow> unit trial_op" where
  "mark_trial_attempt_killed env run_id trial_id =
     obind (load_latest_trial_attempt env run_id trial_id) (\<lambda>record.
     obind (olift (ok_or (MissingDbAttempt trial_id) record)) (\<lambda>record.
     let state = tar_state record
     in if tas_phase state \<noteq> PhCommitted
        then persist_attempt_state env run_id trial_id
          (state\<lparr>tas_phase := PhKilled, tas_paused_from_phase := None\<rparr>)
        else oreturn ()))"

definition resume_trial_runtime_containers :: "trial_env \<Rightarrow> string \<Rightarrow> string \<Rightarrow> bool trial_op" where
  "resume_trial_runtime_containers env run_id trial_id =
     obind (load_latest_trial_attempt env run_id trial_id) (\<lambda>record.
     case record of
       None \<Rightarrow> oreturn False
     | Some record \<Rightarrow>
         let state = tar_state record
         in if tas_phase state \<noteq> PhPaused then ofail (TrialNotPaused (tas_phase state))
            else
              obind (load_db_container_ids env run_id trial_id) (\<lambda>handles.
              if handles = [] then oreturn False
              else
                obind (docker_connect env) (\<lambda>_.
                obind (oforeach handles (\<lambda>h.
                  if te_docker env (UnpauseContainer h) = DockerDone then docker_call_op env (UnpauseContainer h)
                  else ofail DockerFault)) (\<lambda>_.
                obind (olift (ok_or MissingPausedFromPhase (tas_paused_from_phase state))) (\<lambda>phase.
                obind (persist_attempt_state env run_id trial_id
                  (state\<lparr>tas_phase := phase, tas_paused_from_phase := None\<rparr>)) (\<lambda>_.
                oreturn True))))))"

section \<open>Operations under the lease\<close>

text \<open>
  Each operation takes the operation lease first and drops it when it returns, with an error or not.
\<close>

definition with_operation_lease ::
  "control_env \<Rightarrow> lease_moment \<Rightarrow> RunOperationType \<Rightarrow> 'a control_op \<Rightarrow> 'a control_op" where
  "with_operation_lease env m op_type body w =
     (case acquire_run_operation_lease (cn_lease env) m op_type (cw_lease w) of
        (Inl e, lease) \<Rightarrow> (Err (ControlLease e), w\<lparr>cw_lease := lease\<rparr>)
      | (Inr operation_id, lease) \<Rightarrow>
          (case body (w\<lparr>cw_lease := lease\<rparr>) of
             (r, w) \<Rightarrow> (r, w\<lparr>cw_lease := drop_operation_lease (cn_lease env) operation_id (cw_lease w)\<rparr>)))"

definition find_active :: "string \<Rightarrow> run_control_active_trial list \<Rightarrow> run_control_active_trial option" where
  "find_active trial_id active = find (\<lambda>a. rcat_trial_id a = trial_id) active"

section \<open>Pausing\<close>

record pause_result =
  pr_run_id :: string
  pr_trial_id :: string
  pr_label :: string

datatype pause_failure = PauseMissingMetadata string | PauseTrialNotFound string | PauseRequestFailed string trial_error

text \<open>One target; a failure is a value, so that the loop goes on.\<close>

definition pause_one ::
  "control_env \<Rightarrow> string \<Rightarrow> string \<Rightarrow> run_control_active_trial list \<Rightarrow> string \<Rightarrow> control_world \<Rightarrow>
   (pause_failure, run_control_active_trial) result \<times> control_world" where
  "pause_one env run_id label active target w =
     (case find_active target active of
        None \<Rightarrow> (Err (PauseMissingMetadata target), w)
      | Some a \<Rightarrow>
          if target \<notin> tw_dirs (cw_trials w) then (Err (PauseTrialNotFound target), w)
          else
            case obind (resolve_active_trial_control_mode (cn_trials env) run_id target) (\<lambda>_.
                 obind (pause_trial_runtime_containers (cn_trials env) run_id target) (\<lambda>_.
                 write_trial_state (cn_trials env) target ''paused'' (Some label) (Some label) (Some ''paused_by_user'')))
                 (cw_trials w) of
              (Inl e, t) \<Rightarrow> (Err (PauseRequestFailed target e), w\<lparr>cw_trials := t\<rparr>)
            | (Inr _, t) \<Rightarrow> (Ok a, w\<lparr>cw_trials := t\<rparr>))"

fun pause_loop ::
  "control_env \<Rightarrow> string \<Rightarrow> string \<Rightarrow> run_control_active_trial list \<Rightarrow> string list \<Rightarrow> control_world \<Rightarrow>
   (run_control_active_trial list \<times> pause_failure list) \<times> control_world" where
  "pause_loop env run_id label active [] w = (([], []), w)"
| "pause_loop env run_id label active (target # targets) w =
     (case pause_one env run_id label active target w of
        (r, w) \<Rightarrow>
          (case pause_loop env run_id label active targets w of
             ((paused, failures), w) \<Rightarrow>
               (case r of
                  Inr a \<Rightarrow> ((a # paused, failures), w)
                | Inl f \<Rightarrow> ((paused, f # failures), w))))"

definition pause_targets :: "string option \<Rightarrow> string list \<Rightarrow> (control_error, string list) result" where
  "pause_targets trial_id active_trial_ids =
     (case trial_id of
        Some i \<Rightarrow> if i \<notin> set active_trial_ids then Err (PauseTargetNotActive i) else Ok [i]
      | None \<Rightarrow> if active_trial_ids = [] then Err PauseNoActiveTrial else Ok active_trial_ids)"

text \<open>The end of \<open>pause_run\<close>: the record after all targets were tried.\<close>

definition pause_finish ::
  "control_env \<Rightarrow> string \<Rightarrow> string \<Rightarrow> run_control_active_trial list \<Rightarrow> string list \<Rightarrow>
   run_control_active_trial list \<times> pause_failure list \<Rightarrow> pause_result control_op" where
  "pause_finish env run_id pause_label active targets outcome =
     (let (paused, failures) = outcome;
          pause_meta = \<lparr>rpm_label = pause_label, rpm_requested_at = cn_now env, rpm_requested_by = Some ''user''\<rparr>
      in if failures = [] then
           obind (write_run_control env run_id ''paused'' paused (Some pause_meta)) (\<lambda>_.
           oreturn \<lparr>pr_run_id = run_id,
             pr_trial_id = (if length targets = 1 then targets ! 0 else ''multi''), pr_label = pause_label\<rparr>)
         else
           let survivors = filter (\<lambda>a. rcat_trial_id a \<notin> rcat_trial_id ` set paused) active
           in obind (write_run_control env run_id ''interrupted'' survivors (Some pause_meta)) (\<lambda>_.
              ofail (PausePartialFailure (length paused) (length targets))))"

text \<open>The part of \<open>pause_run\<close> that runs under the lease.\<close>

definition pause_run_locked :: "control_env \<Rightarrow> string option \<Rightarrow> string option \<Rightarrow> pause_result control_op" where
  "pause_run_locked env trial_id label =
     obind (load_run_control env) (\<lambda>control.
     obind (olift (run_control_status (cn_externs env) control)) (\<lambda>status.
     if status \<noteq> ''running'' then ofail (PauseNonRunning status)
     else
       obind (olift (require_run_control_run_id (cn_externs env) control)) (\<lambda>run_id.
       obind (olift (pause_targets trial_id (run_control_active_trial_ids (cn_externs env) control))) (\<lambda>targets.
       let pause_label = (case label of None \<Rightarrow> ''pause'' | Some l \<Rightarrow> l)
       in obind (olift (run_control_active_trials (cn_externs env) control)) (\<lambda>active.
          obind (\<lambda>w. case pause_loop env run_id pause_label active targets w of (x, w) \<Rightarrow> (Ok x, w)) (\<lambda>outcome.
          pause_finish env run_id pause_label active targets outcome))))))"

definition pause_run ::
  "control_env \<Rightarrow> lease_moment \<Rightarrow> string option \<Rightarrow> string option \<Rightarrow> pause_result control_op" where
  "pause_run env m trial_id label = with_operation_lease env m OpPause (pause_run_locked env trial_id label)"

section \<open>Killing\<close>

record kill_result =
  kr_run_id :: string
  kr_previous_status :: string
  kr_killed_trials :: "string list"

datatype kill_outcome = Killed | KillFailed trial_error | KilledUnrecorded trial_error

definition kill_one :: "control_env \<Rightarrow> string \<Rightarrow> string \<Rightarrow> control_world \<Rightarrow> kill_outcome \<times> control_world" where
  "kill_one env run_id trial_id w =
     (case obind (cleanup_local_docker_attempt_runtime (cn_trials env) run_id trial_id) (\<lambda>cleaned.
           if cleaned > 0 then mark_trial_attempt_killed (cn_trials env) run_id trial_id
           else ofail (MissingRuntimeWorker trial_id)) (cw_trials w) of
        (Inl e, t) \<Rightarrow> (KillFailed e, w\<lparr>cw_trials := t\<rparr>)
      | (Inr _, t) \<Rightarrow>
          if trial_id \<in> tw_dirs t then
            (case write_trial_state (cn_trials env) trial_id ''killed'' None None (Some ''killed_by_user'') t of
               (Inl e, t) \<Rightarrow> (KilledUnrecorded e, w\<lparr>cw_trials := t\<rparr>)
             | (Inr _, t) \<Rightarrow> (Killed, w\<lparr>cw_trials := t\<rparr>))
          else (Killed, w\<lparr>cw_trials := t\<rparr>))"

text \<open>The loop collects the killed trials, the survivors and the number of failures.\<close>

fun kill_loop ::
  "control_env \<Rightarrow> string \<Rightarrow> run_control_active_trial list \<Rightarrow> string list \<Rightarrow> control_world \<Rightarrow>
   (string list \<times> run_control_active_trial list \<times> nat) \<times> control_world" where
  "kill_loop env run_id active [] w = (([], [], 0), w)"
| "kill_loop env run_id active (trial_id # ids) w =
     (case kill_one env run_id trial_id w of
        (outcome, w) \<Rightarrow>
          (case kill_loop env run_id active ids w of
             ((killed, survivors, failures), w) \<Rightarrow>
               (case outcome of
                  Killed \<Rightarrow> ((trial_id # killed, survivors, failures), w)
                | KillFailed _ \<Rightarrow>
                    ((killed, (case find_active trial_id active of None \<Rightarrow> survivors | Some a \<Rightarrow> a # survivors),
                      failures + 1), w)
                | KilledUnrecorded _ \<Rightarrow> ((killed, survivors, failures + 1), w))))"

text \<open>Without a failure the containers of the whole run are swept; a failure of the sweep counts as one.\<close>

definition kill_sweep :: "control_env \<Rightarrow> nat \<Rightarrow> nat control_op" where
  "kill_sweep env failures w =
     (if failures \<noteq> 0 then (Ok failures, w)
      else case on_trials (cleanup_local_docker_run_runtime (cn_trials env)) w of
             (Inl _, w) \<Rightarrow> (Ok 1, w)
           | (Inr _, w) \<Rightarrow> (Ok 0, w))"

definition kill_finish ::
  "control_env \<Rightarrow> string \<Rightarrow> string \<Rightarrow> string list \<Rightarrow> string list \<times> run_control_active_trial list \<times> nat \<Rightarrow> kill_result control_op" where
  "kill_finish env run_id status ids = (\<lambda>(killed, survivors, failures).
     obind (kill_sweep env failures) (\<lambda>failures.
     if failures = 0 then
       obind (write_run_control env run_id ''killed'' [] None) (\<lambda>_.
       oreturn \<lparr>kr_run_id = run_id, kr_previous_status = status, kr_killed_trials = killed\<rparr>)
     else
       obind (write_run_control env run_id ''interrupted'' survivors None) (\<lambda>_.
       ofail (KillPartialFailure (length killed) (length ids)))))"

definition kill_run_locked :: "control_env \<Rightarrow> kill_result control_op" where
  "kill_run_locked env =
     obind (load_run_control env) (\<lambda>control.
     obind (olift (run_control_status (cn_externs env) control)) (\<lambda>status.
     if status = ''completed'' then ofail (KillTerminalStatus status)
     else
       obind (olift (require_run_control_run_id (cn_externs env) control)) (\<lambda>run_id.
       obind (olift (run_control_active_trials (cn_externs env) control)) (\<lambda>active.
       let ids = run_control_active_trial_ids (cn_externs env) control
       in obind (\<lambda>w. case kill_loop env run_id active ids w of (x, w) \<Rightarrow> (Ok x, w))
            (kill_finish env run_id status ids)))))"

definition kill_run :: "control_env \<Rightarrow> lease_moment \<Rightarrow> kill_result control_op" where
  "kill_run env m = with_operation_lease env m OpKill (kill_run_locked env)"

section \<open>Resuming\<close>

text \<open>A trial whose containers are gone is resumed by forking it, which is not modelled: the operation
  ends with the trial and the label to fork from.\<close>

datatype resume_result = RuntimeUnpause string | ForkFrom string "string option"

definition resume_target :: "string option \<Rightarrow> string list \<Rightarrow> (control_error, string) result" where
  "resume_target trial_id active_trial_ids =
     (case trial_id of
        Some i \<Rightarrow>
          if active_trial_ids \<noteq> [] \<and> i \<notin> set active_trial_ids then Err (ResumeTargetNotActive i) else Ok i
      | None \<Rightarrow>
          (case active_trial_ids of
             [] \<Rightarrow> Err ResumeNoActiveTrial
           | [i] \<Rightarrow> Ok i
           | _ \<Rightarrow> Err (ResumeMultipleActiveTrials (length active_trial_ids))))"

definition unpause_live ::
  "control_env \<Rightarrow> string \<Rightarrow> string \<Rightarrow> bool \<Rightarrow> json \<Rightarrow> bool control_op" where
  "unpause_live env run_id target overrides control =
     obind (on_trials (load_latest_trial_attempt (cn_trials env) run_id target)) (\<lambda>attempt.
     if attempt = None then oreturn False
     else
       obind (on_trials (load_db_container_ids (cn_trials env) run_id target)) (\<lambda>ids.
       if ids \<noteq> [] \<and> overrides then ofail ResumeUnsupported
       else
         obind (on_trials (resume_trial_runtime_containers (cn_trials env) run_id target)) (\<lambda>resumed.
         if \<not> resumed then oreturn False
         else
           obind (on_trials (write_trial_state (cn_trials env) target ''running'' None None None)) (\<lambda>_.
           obind (olift (run_control_active_trials (cn_externs env) control)) (\<lambda>active.
           obind (write_run_control env run_id ''running'' active None) (\<lambda>_.
           oreturn True))))))"

definition resume_trial ::
  "control_env \<Rightarrow> lease_moment \<Rightarrow> string option \<Rightarrow> string option \<Rightarrow> bool \<Rightarrow> resume_result control_op" where
  "resume_trial env m trial_id label overrides =
     with_operation_lease env m OpResume
       (obind (load_run_control env) (\<lambda>control.
        obind (olift (run_control_status (cn_externs env) control)) (\<lambda>status.
        if status \<noteq> ''paused'' then ofail (ResumeNonPaused status)
        else
          obind (olift (require_run_control_run_id (cn_externs env) control)) (\<lambda>run_id.
          obind (olift (resume_target trial_id (run_control_active_trial_ids (cn_externs env) control))) (\<lambda>target.
          obind (oget (\<lambda>w. tw_dirs (cw_trials w))) (\<lambda>dirs.
          if target \<notin> dirs then ofail (ResumeTrialNotFound target)
          else
            obind (unpause_live env run_id target (label \<noteq> None \<or> overrides) control) (\<lambda>unpaused.
            if unpaused then oreturn (RuntimeUnpause target)
            else
              obind (on_trials (load_latest_trial_attempt (cn_trials env) run_id target)) (\<lambda>attempt.
              obind (olift (ok_or (ResumeMissingDbAttempt target) attempt)) (\<lambda>attempt.
              if tar_phase attempt \<noteq> PhPaused then ofail (ControlTrial (TrialNotPaused (tar_phase attempt)))
              else oreturn (ForkFrom target
                (or_else label (pointer_str (cn_externs env) control ''/pause/label''))))))))))))"

section \<open>Lemmas\<close>

lemma pointer_str_json_object:
  assumes "pointer_laws (ex_pointer ex)" "plain_token k"
  shows "pointer_str ex (json_object entries) (CHR ''/'' # k) = Option.bind (map_of (rev entries) k) as_str"
  using pointer_json_object [OF assms] by (simp add: pointer_str_def)

lemma plain_tokens [simp]:
  "plain_token ''status''" "plain_token ''run_id''" "plain_token ''active_trials''"
  "plain_token ''worker_id''" "plain_token ''variant_id''" "plain_token ''schedule_idx''"
  "plain_token ''started_at''"
  by (simp_all add: plain_token_def)

lemma non_blank_trimmed: "trim s = s \<Longrightarrow> s \<noteq> [] \<Longrightarrow> non_blank (Some s) = Some s"
  by (simp add: non_blank_def)

text \<open>Names that survive the record: no blanks around them, schedule indices in range.\<close>

definition storable_active_trial :: "run_control_active_trial \<Rightarrow> bool" where
  "storable_active_trial a \<longleftrightarrow>
     trim (rcat_worker_id a) = rcat_worker_id a \<and> rcat_worker_id a \<noteq> [] \<and>
     trim (rcat_variant_id a) = rcat_variant_id a \<and> rcat_variant_id a \<noteq> [] \<and>
     (case rcat_schedule_idx a of None \<Rightarrow> True | Some i \<Rightarrow> i \<le> usize_max)"

definition stamped :: "string \<Rightarrow> run_control_active_trial \<Rightarrow> run_control_active_trial" where
  "stamped now a = a\<lparr>rcat_started_at := Some (case rcat_started_at a of None \<Rightarrow> now | Some s \<Rightarrow> s)\<rparr>"

lemma parse_active_trial_entry:
  assumes "pointer_laws (ex_pointer ex)" "storable_active_trial a"
  shows "parse_active_trial ex (rcat_trial_id a) (active_trial_entry a now) = Ok (stamped now a)"
  using assms(2)
  by (cases "rcat_schedule_idx a")
    (simp_all add: parse_active_trial_def active_trial_entry_def storable_active_trial_def stamped_def json_option_def
      pointer_str_json_object [OF assms(1)] pointer_json_object [OF assms(1)] non_blank_trimmed)

lemma parse_active_trials_entries:
  assumes "pointer_laws (ex_pointer ex)" "\<And>a. a \<in> set actives \<Longrightarrow> storable_active_trial a"
  shows "parse_active_trials ex (map (\<lambda>a. (rcat_trial_id a, active_trial_entry a now)) actives) =
    Ok (map (stamped now) actives)"
  using assms(2)
proof (induction actives)
  case (Cons a actives)
  then show ?case using parse_active_trial_entry [OF assms(1), of a now] by simp
qed simp

lemma payload_entries:
  assumes "pointer_laws (ex_pointer ex)" "distinct (map rcat_trial_id actives)"
  shows "active_entries ex (run_control_payload run_id status actives pause now) =
    Some (map (\<lambda>a. (rcat_trial_id a, active_trial_entry a now)) (sort_key rcat_trial_id actives))"
  by (simp add: active_entries_def run_control_payload_def pointer_json_object [OF assms(1)]
      run_control_active_trials_payload_def fold_bt_insert_sort [OF assms(2)])

lemma payload_status:
  "pointer_laws (ex_pointer ex) \<Longrightarrow> run_control_status ex (run_control_payload run_id status actives pause now) = Ok status"
  by (simp add: run_control_status_def run_control_payload_def pointer_str_json_object)

lemma payload_run_id:
  "pointer_laws (ex_pointer ex) \<Longrightarrow>
   run_control_run_id ex (run_control_payload run_id status actives pause now) = non_blank (Some run_id)"
  by (simp add: run_control_run_id_def run_control_payload_def pointer_str_json_object)

text \<open>The container calls leave files and rows alone.\<close>

lemma docker_calls_frame:
  assumes "oforeach handles (\<lambda>h. if P h then docker_call_op env (c h) else ofail DockerFault) w = (r, w')"
  shows "tw_attempts w' = tw_attempts w \<and> tw_runtime_files w' = tw_runtime_files w \<and>
    tw_trial_states w' = tw_trial_states w \<and> tw_dirs w' = tw_dirs w"
proof -
  have "(\<lambda>s. tw_attempts s = tw_attempts w \<and> tw_runtime_files s = tw_runtime_files w \<and>
      tw_trial_states s = tw_trial_states w \<and> tw_dirs s = tw_dirs w)
    (snd (oforeach handles (\<lambda>h. if P h then docker_call_op env (c h) else ofail DockerFault) w))"
    by (rule oforeach_invariant) (auto simp: docker_call_op_def ofail_def split: docker_reply.splits)
  with assms show ?thesis by simp
qed

lemma runtime_handles_read: "snd (runtime_trial_container_handles env run_id trial_id w) = w"
  using trial_reads(5) [of env trial_id w] trial_reads(2) [of env run_id trial_id w]
  by (auto simp: runtime_trial_container_handles_def obind_def oreturn_def split: prod.splits sum.splits)

lemma docker_connect_Ok: "docker_connect env w = (Ok x, w') \<longleftrightarrow> te_docker_connect env \<and> w' = w"
  by (auto simp: docker_connect_def olift_def ensure_def)

lemma load_latest_Ok:
  "load_latest_trial_attempt env run_id trial_id w = (Ok r, w') \<longleftrightarrow>
   te_db env trial_id SiteLatest = None \<and> w' = w \<and> r = latest_attempt w run_id trial_id"
  by (auto simp: load_latest_trial_attempt_def db_call_def op_defs split: option.splits)

text \<open>A successful pause rewrote the latest attempt, unless it was already finished.\<close>

lemma pause_containers_Ok:
  assumes "pause_trial_runtime_containers env run_id trial_id w = (Ok (), w')"
  shows "\<exists>w1 r. tw_attempts w1 = tw_attempts w \<and> tw_runtime_files w1 = tw_runtime_files w \<and>
    tw_trial_states w1 = tw_trial_states w \<and> tw_dirs w1 = tw_dirs w \<and>
    latest_attempt w1 run_id trial_id = Some r \<and>
    (if tas_phase (tar_state r) = PhCommitted \<or> tas_phase (tar_state r) = PhKilled then w' = w1
     else persist_attempt_state env run_id trial_id (paused_attempt (tar_state r)) w1 = (Ok (), w'))"
proof -
  obtain handles where "fst (runtime_trial_container_handles env run_id trial_id w) = Ok handles" "handles \<noteq> []"
    using assms runtime_handles_read [of env run_id trial_id w]
    by (auto simp: pause_trial_runtime_containers_def obind_eq_Ok ofail_def split: if_splits)
  with assms obtain w1 r where
      loop: "oforeach handles (\<lambda>h. if te_docker env (PauseContainer h) = DockerDone
        then docker_call_op env (PauseContainer h) else ofail DockerFault) w = (Ok (), w1)"
    and r: "latest_attempt w1 run_id trial_id = Some r"
    and last: "(if tas_phase (tar_state r) = PhCommitted \<or> tas_phase (tar_state r) = PhKilled then oreturn ()
        else persist_attempt_state env run_id trial_id (paused_attempt (tar_state r))) w1 = (Ok (), w')"
    using runtime_handles_read [of env run_id trial_id w]
    by (auto simp: pause_trial_runtime_containers_def obind_eq_Ok docker_connect_Ok load_latest_Ok Let_def olift_def
        ok_or_eq_Inr)
  from docker_calls_frame [OF loop] r last show ?thesis
    by (intro exI [of _ w1] exI [of _ r]) (auto simp: oreturn_def split: if_splits)
qed

lemma latest_attempt_cong: "tw_attempts w = tw_attempts w' \<Longrightarrow> latest_attempt w = latest_attempt w'"
  by (intro ext) (simp add: latest_attempt_def attempt_numbers_def)

lemma attempts_wf_cong: "tw_attempts w = tw_attempts w' \<Longrightarrow> attempts_wf w = attempts_wf w'"
  by (simp add: attempts_wf_def)

lemma resume_containers_Ok:
  assumes "resume_trial_runtime_containers env run_id trial_id w = (Ok True, w')"
  shows "\<exists>w1 r phase. tw_attempts w1 = tw_attempts w \<and> latest_attempt w run_id trial_id = Some r \<and>
    tas_phase (tar_state r) = PhPaused \<and> tas_paused_from_phase (tar_state r) = Some phase \<and>
    persist_attempt_state env run_id trial_id
      ((tar_state r)\<lparr>tas_phase := phase, tas_paused_from_phase := None\<rparr>) w1 = (Ok (), w')"
proof -
  obtain r where r: "latest_attempt w run_id trial_id = Some r" "te_db env trial_id SiteLatest = None"
      "tas_phase (tar_state r) = PhPaused"
    using assms
    by (auto simp: resume_trial_runtime_containers_def obind_eq_Ok load_latest_Ok oreturn_def ofail_def Let_def
        split: option.splits if_splits)
  with assms obtain handles w1 phase where
      loop: "oforeach handles (\<lambda>h. if te_docker env (UnpauseContainer h) = DockerDone
        then docker_call_op env (UnpauseContainer h) else ofail DockerFault) w = (Ok (), w1)"
    and phase: "tas_paused_from_phase (tar_state r) = Some phase"
    and last: "persist_attempt_state env run_id trial_id
      ((tar_state r)\<lparr>tas_phase := phase, tas_paused_from_phase := None\<rparr>) w1 = (Ok (), w')"
    using trial_reads(2) [of env run_id trial_id w]
    by (auto simp: resume_trial_runtime_containers_def obind_eq_Ok load_latest_Ok docker_connect_Ok oreturn_def Let_def
        olift_def ok_or_eq_Inr split: if_splits)
  from docker_calls_frame [OF loop] r phase last show ?thesis by blast
qed

text \<open>Writing the trial state file, and what a loop of pauses leaves in these files.\<close>

lemma write_trial_state_Ok:
  assumes "write_trial_state env trial_id status label checkpoint reason w = (Ok (), w')"
  shows "w' = w\<lparr>tw_trial_states := (tw_trial_states w)(trial_id \<mapsto> \<lparr>tsf_status = status, tsf_pause_label = label,
    tsf_checkpoint_selected = checkpoint, tsf_exit_reason = reason\<rparr>)\<rparr>"
  using assms by (auto simp: write_trial_state_def file_call_def op_defs split: if_splits)

lemma retry_sqlite_busy_frame:
  assumes "\<And>n s. P s \<Longrightarrow> P (snd (operation n s))" "P s"
  shows "P (snd (retry_sqlite_busy operation start s))"
  using assms
proof (induction operation start s rule: retry_sqlite_busy.induct)
  case (1 operation attempt s)
  obtain r t where rt: "operation attempt s = (r, t)" by (cases "operation attempt s")
  have "P t" using "1.prems"(1) [OF "1.prems"(2), of attempt] rt by simp
  then show ?case
    using "1.IH" [OF rt [symmetric]] "1.prems"(1) rt
    by (cases r) (auto simp: retry_sqlite_busy.simps [of operation attempt s])
qed

lemma persist_frame:
  "tw_trial_states (snd (persist_attempt_state env run_id trial_id state w)) = tw_trial_states w"
proof -
  have "tw_trial_states (snd (upsert_trial_attempt_state env run_id trial_id state v)) = tw_trial_states v" for v
    unfolding upsert_trial_attempt_state_def
    by (rule retry_sqlite_busy_frame [where P = "\<lambda>s. tw_trial_states s = tw_trial_states v"])
      (auto simp: upsert_attempt_once split: option.splits)
  note upsert = this
  obtain fr v where v: "write_trial_attempt_state env trial_id state w = (fr, v)" "tw_trial_states v = tw_trial_states w"
    by (cases "te_file env trial_id RuntimeWrite") (simp_all add: write_trial_attempt_state_def file_call_def op_defs)
  obtain dr u where u: "upsert_trial_attempt_state env run_id trial_id state v = (dr, u)"
    by (cases "upsert_trial_attempt_state env run_id trial_id state v")
  have "tw_trial_states u = tw_trial_states w" using upsert [of v] u v(2) by simp
  then show ?thesis by (cases fr; cases dr) (simp_all add: persist_attempt_state_def v(1) u)
qed

lemma pause_containers_frame:
  "tw_trial_states (snd (pause_trial_runtime_containers env run_id trial_id w)) = tw_trial_states w"
proof -
  have loop: "tw_trial_states (snd (oforeach handles (\<lambda>h. if P h then docker_call_op env (c h) else ofail DockerFault) v)) =
      tw_trial_states v" for handles v and P :: "string \<Rightarrow> bool" and c
    using docker_calls_frame [of handles P env c v] by (cases "oforeach handles (\<lambda>h. if P h then docker_call_op env (c h)
      else ofail DockerFault) v") simp
  show ?thesis
    unfolding pause_trial_runtime_containers_def
    by (rule obind_invariant [where P = "\<lambda>s. tw_trial_states s = tw_trial_states w"])
      (auto simp: runtime_handles_read ofail_def oreturn_def docker_connect_def olift_def Let_def persist_frame loop
        trial_reads intro!: obind_invariant [where P = "\<lambda>s. tw_trial_states s = tw_trial_states w"])
qed

lemma resolve_mode_read: "snd (resolve_active_trial_control_mode env run_id trial_id w) = w"
  using trial_reads(3) [of env run_id trial_id w]
  by (simp add: resolve_active_trial_control_mode_def obind_read [OF runtime_handles_read] obind_read [OF trial_reads(3)]
      oreturn_def ofail_def split: sum.split)

definition marked_paused :: "string \<Rightarrow> trial_world \<Rightarrow> string \<Rightarrow> bool" where
  "marked_paused label t trial_id \<longleftrightarrow>
     tw_trial_states t trial_id = Some \<lparr>tsf_status = ''paused'', tsf_pause_label = Some label,
       tsf_checkpoint_selected = Some label, tsf_exit_reason = Some ''paused_by_user''\<rparr>"

lemma pause_one_trial_states:
  assumes "pause_one env run_id label active target w = (r, w')"
  shows "tw_trial_states (cw_trials w') = tw_trial_states (cw_trials w) \<and> \<not> is_ok r \<or>
    (\<forall>i. i \<noteq> target \<longrightarrow> tw_trial_states (cw_trials w') i = tw_trial_states (cw_trials w) i) \<and>
    marked_paused label (cw_trials w') target \<and>
    (case r of Inr a \<Rightarrow> find_active target active = Some a | Inl _ \<Rightarrow> False)"
proof -
  let ?pause = "obind (resolve_active_trial_control_mode (cn_trials env) run_id target) (\<lambda>_.
    obind (pause_trial_runtime_containers (cn_trials env) run_id target) (\<lambda>_.
    write_trial_state (cn_trials env) target ''paused'' (Some label) (Some label) (Some ''paused_by_user'')))"
  obtain q t where qt: "?pause (cw_trials w) = (q, t)" by (cases "?pause (cw_trials w)")
  have Err: "tw_trial_states t = tw_trial_states (cw_trials w)" if "q = Err e" for e
    using qt that resolve_mode_read [of "cn_trials env" run_id target "cw_trials w"]
      pause_containers_frame [of "cn_trials env" run_id target "cw_trials w"]
    by (auto simp: obind_def write_trial_state_def file_call_def op_defs split: prod.splits sum.splits if_splits)
  have Ok: "tw_trial_states t = (tw_trial_states (cw_trials w))(target \<mapsto> \<lparr>tsf_status = ''paused'',
      tsf_pause_label = Some label, tsf_checkpoint_selected = Some label, tsf_exit_reason = Some ''paused_by_user''\<rparr>)"
    if "q = Ok x" for x
    using qt that resolve_mode_read [of "cn_trials env" run_id target "cw_trials w"]
      pause_containers_frame [of "cn_trials env" run_id target "cw_trials w"]
    by (auto simp: obind_eq_Ok dest!: write_trial_state_Ok)
  from assms qt Err Ok show ?thesis
    by (cases "find_active target active"; cases q) (auto simp: pause_one_def marked_paused_def split: if_splits)
qed

text \<open>Pausing a list of trials marks exactly those it reports, and reports the active trials named.\<close>

lemma pause_loop_result:
  assumes "pause_loop env run_id label active targets w = ((paused, failures), w')"
  shows "length paused + length failures = length targets \<and>
    (failures = [] \<longrightarrow> paused = map (\<lambda>i. the (find_active i active)) targets \<and>
      (\<forall>i \<in> set targets. find_active i active \<noteq> None \<and> marked_paused label (cw_trials w') i)) \<and>
    (\<forall>i. marked_paused label (cw_trials w) i \<or> i \<notin> set targets \<longrightarrow>
      marked_paused label (cw_trials w') i = marked_paused label (cw_trials w) i)"
  using assms
proof (induction targets arbitrary: w paused failures)
  case (Cons target targets)
  obtain r v where r: "pause_one env run_id label active target w = (r, v)" by (cases "pause_one env run_id label active target w")
  obtain paused' failures' where rest: "pause_loop env run_id label active targets v = ((paused', failures'), w')"
    using Cons.prems r by (auto split: prod.splits sum.splits)
  note IH = Cons.IH [OF rest]
  note one = pause_one_trial_states [OF r]
  have keep: "marked_paused label (cw_trials v) i = marked_paused label (cw_trials w) i"
    if "marked_paused label (cw_trials w) i \<or> i \<noteq> target" for i
    using one that by (cases "i = target") (auto simp: marked_paused_def)
  show ?case
  proof (cases r)
    case (Inl f)
    with Cons.prems r rest have "paused = paused'" "failures = f # failures'" by auto
    with IH keep show ?thesis by auto
  next
    case (Inr a)
    with Cons.prems r rest have 1: "paused = a # paused'" "failures = failures'" by auto
    have 2: "find_active target active = Some a" "marked_paused label (cw_trials v) target"
      using one Inr by auto
    then have "marked_paused label (cw_trials w') target" using IH by blast
    with IH keep 1 2 show ?thesis by auto
  qed
qed simp

lemma write_run_control_Ok:
  assumes "write_run_control env run_id status actives pause w = (Ok (), w')"
  shows "w' = w\<lparr>cw_control := Some (run_control_payload run_id status actives pause (cn_now env)), cw_run_status := Some status\<rparr>"
  using assms by (auto simp: write_run_control_def control_db_def ensure_def op_defs Let_def split: if_splits)

lemma load_run_control_Ok:
  "load_run_control env w = (Ok control, w') \<longleftrightarrow> cn_db env ControlRead \<and> cw_control w = Some control \<and> w' = w"
  by (auto simp: load_run_control_def control_db_def ensure_def op_defs ok_or_def split: option.splits)

lemma payload_trial_ids:
  assumes "pointer_laws (ex_pointer ex)"
  shows "set (run_control_active_trial_ids ex (run_control_payload run_id status actives pause now)) =
    rcat_trial_id ` set actives"
proof -
  have "set (bt_keys (fold (\<lambda>a. bt_insert (rcat_trial_id a) (active_trial_entry a now)) actives m)) =
      rcat_trial_id ` set actives \<union> set (bt_keys m)" for m
    by (induction actives arbitrary: m) (auto simp: set_bt_keys split: if_splits)
  then show ?thesis
    by (simp add: run_control_active_trial_ids_def active_entries_def run_control_payload_def
        pointer_json_object [OF assms] run_control_active_trials_payload_def bt_keys_def)
qed

lemma find_active_id: "find_active i active = Some a \<Longrightarrow> rcat_trial_id a = i \<and> a \<in> set active"
  by (auto simp: find_active_def find_Some_iff)

lemma with_operation_lease_frame:
  assumes "with_operation_lease env m op_type body w = (r, w')"
  shows "(\<exists>e. r = Err (ControlLease e) \<and> cw_control w' = cw_control w \<and> cw_run_status w' = cw_run_status w \<and> cw_trials w' = cw_trials w) \<or>
    (\<exists>lease v. body (w\<lparr>cw_lease := lease\<rparr>) = (r, v) \<and> cw_control w' = cw_control v \<and>
      cw_run_status w' = cw_run_status v \<and> cw_trials w' = cw_trials v)"
proof (cases "acquire_run_operation_lease (cn_lease env) m op_type (cw_lease w)")
  case (Pair a lease)
  show ?thesis
  proof (cases a)
    case (Inl e)
    with Pair assms show ?thesis by (auto simp: with_operation_lease_def)
  next
    case (Inr operation_id)
    obtain q v where q: "body (w\<lparr>cw_lease := lease\<rparr>) = (q, v)" by (cases "body (w\<lparr>cw_lease := lease\<rparr>)")
    with Pair Inr assms have "r = q"
        "w' = v\<lparr>cw_lease := drop_operation_lease (cn_lease env) operation_id (cw_lease v)\<rparr>"
      by (simp_all add: with_operation_lease_def)
    with q show ?thesis by (intro disjI2 exI [of _ lease] exI [of _ v]) simp
  qed
qed

lemma pause_finish_result:
  assumes "pointer_laws (ex_pointer (cn_externs env))"
    and "pause_finish env run_id label active targets (paused, failures) w = (r, w')"
    and "length paused + length failures = length targets"
    and "r = Ok res \<or> r = Err (PausePartialFailure n tried)"
  shows "cw_trials w' = cw_trials w \<and> (\<exists>control'. cw_control w' = Some control' \<and>
    (if failures = []
     then r = Ok res \<and> run_control_status (cn_externs env) control' = Ok ''paused'' \<and> cw_run_status w' = Some ''paused'' \<and>
       set (run_control_active_trial_ids (cn_externs env) control') = rcat_trial_id ` set paused
     else r \<noteq> Ok res \<and> run_control_status (cn_externs env) control' = Ok ''interrupted'' \<and>
       cw_run_status w' = Some ''interrupted'' \<and> n < tried \<and> tried = length targets))"
proof (cases "failures = []")
  case True
  with assms(2,4) show ?thesis
    by (auto simp: pause_finish_def obind_def oreturn_def ofail_def payload_status [OF assms(1)] payload_trial_ids [OF assms(1)]
        write_run_control_def control_db_def ensure_def op_defs Let_def split: if_splits)
next
  case False
  then have "0 < length failures" by simp
  with assms(3) have "length paused < length targets" by linarith
  with False assms(2,4) show ?thesis
    by (auto simp: pause_finish_def obind_def oreturn_def ofail_def payload_status [OF assms(1)] payload_trial_ids [OF assms(1)]
        write_run_control_def control_db_def ensure_def op_defs Let_def split: if_splits)
qed

lemma active_trials_error:
  assumes "run_control_active_trials ex control = Err e"
  shows "e \<noteq> PausePartialFailure n tried"
proof -
  have "parse_active_trials ex entries = Err e \<Longrightarrow> e \<noteq> PausePartialFailure n tried" for entries
    by (induction entries) (auto simp: parse_active_trial_def rbind_eq_Inl ok_or_eq_Inl split: option.splits if_splits)
  with assms show ?thesis by (auto simp: run_control_active_trials_def split: option.splits)
qed

lemma pause_locked_result:
  assumes "pointer_laws (ex_pointer (cn_externs env))"
    and "pause_run_locked env trial_id label w = (r, w')"
    and "r = Ok res \<or> r = Err (PausePartialFailure n tried)"
  shows "\<exists>control control' targets. cw_control w = Some control \<and> cw_control w' = Some control' \<and>
    run_control_status (cn_externs env) control = Ok ''running'' \<and>
    pause_targets trial_id (run_control_active_trial_ids (cn_externs env) control) = Ok targets \<and>
    (if r = Ok res
     then run_control_status (cn_externs env) control' = Ok ''paused'' \<and> cw_run_status w' = Some ''paused'' \<and>
       set (run_control_active_trial_ids (cn_externs env) control') = set targets \<and>
       (\<forall>i \<in> set targets. marked_paused (case label of None \<Rightarrow> ''pause'' | Some l \<Rightarrow> l) (cw_trials w') i)
     else run_control_status (cn_externs env) control' = Ok ''interrupted'' \<and> cw_run_status w' = Some ''interrupted'' \<and>
       n < tried \<and> tried = length targets)"
proof -
  let ?ex = "cn_externs env" and ?label = "case label of None \<Rightarrow> ''pause'' | Some l \<Rightarrow> l"
  obtain control where control: "cw_control w = Some control" "cn_db env ControlRead"
    using assms(2,3) by (auto simp: pause_run_locked_def load_run_control_def control_db_def ensure_def op_defs ok_or_def
        split: option.splits if_splits)
  then have load: "load_run_control env w = (Ok control, w)" by (simp add: load_run_control_Ok)
  obtain status where status: "run_control_status ?ex control = Ok status"
    using assms(2,3) by (cases "run_control_status ?ex control")
      (auto simp: pause_run_locked_def obind_def load olift_def run_control_status_def ok_or_def split: option.splits)
  then have running: "status = ''running''"
    using assms(2,3) by (auto simp: pause_run_locked_def obind_def load olift_def ofail_def split: if_splits)
  obtain run_id where run_id: "require_run_control_run_id ?ex control = Ok run_id"
    using assms(2,3) status running by (auto simp: pause_run_locked_def obind_def load olift_def
        require_run_control_run_id_def ok_or_def split: option.splits)
  obtain targets where targets: "pause_targets trial_id (run_control_active_trial_ids ?ex control) = Ok targets"
    using assms(2,3) status running run_id by (auto simp: pause_run_locked_def obind_def load olift_def
        pause_targets_def split: option.splits if_splits)
  obtain active where active: "run_control_active_trials ?ex control = Ok active"
    using assms(2,3) status running run_id targets
    by (cases "run_control_active_trials ?ex control")
      (auto simp: pause_run_locked_def obind_def load olift_def Let_def dest: active_trials_error)
  obtain paused failures v where loop: "pause_loop env run_id ?label active targets w = ((paused, failures), v)"
    by (metis surj_pair)
  have finish: "pause_finish env run_id ?label active targets (paused, failures) v = (r, w')"
    using assms(2) status running run_id targets active loop
    by (simp add: pause_run_locked_def obind_def load olift_def Let_def)
  note result = pause_loop_result [OF loop]
  have ids: "rcat_trial_id (the (find_active i active)) = i" if "failures = []" "i \<in> set targets" for i
  proof -
    from result that obtain a where "find_active i active = Some a" by blast
    then show ?thesis by (auto dest: find_active_id)
  qed
  then have "rcat_trial_id ` set paused = set targets" if "failures = []"
    using result that by (auto simp: image_image)
  moreover obtain control' where "cw_trials w' = cw_trials v" "cw_control w' = Some control'"
      "if failures = []
       then r = Ok res \<and> run_control_status ?ex control' = Ok ''paused'' \<and> cw_run_status w' = Some ''paused'' \<and>
         set (run_control_active_trial_ids ?ex control') = rcat_trial_id ` set paused
       else r \<noteq> Ok res \<and> run_control_status ?ex control' = Ok ''interrupted'' \<and>
         cw_run_status w' = Some ''interrupted'' \<and> n < tried \<and> tried = length targets"
    using pause_finish_result [OF assms(1) finish _ assms(3)] result by blast
  ultimately show ?thesis using result control status running targets
    by (intro exI [of _ control] exI [of _ control'] exI [of _ targets]) (cases "failures = []"; simp)
qed

section \<open>Properties\<close>

text \<open>
  What is written into the control record is what is read back: the status, the run id, and the
  active trials, in the order of their trial ids and with the time of the write where they had no
  start time.
\<close>

lemma run_control_roundtrip:
  assumes "pointer_laws (ex_pointer ex)" "distinct (map rcat_trial_id actives)"
    and "list_all storable_active_trial actives" "trim run_id = run_id" "run_id \<noteq> []"
    and "control = run_control_payload run_id status actives pause now"
  shows "run_control_status ex control = Ok status \<and> require_run_control_run_id ex control = Ok run_id \<and>
    run_control_active_trials ex control = Ok (map (stamped now) (sort_key rcat_trial_id actives)) \<and>
    run_control_active_trial_ids ex control = sort (map rcat_trial_id actives)"
proof -
  have "run_control_active_trials ex control = Ok (map (stamped now) (sort_key rcat_trial_id actives))"
    using assms(3) parse_active_trials_entries [OF assms(1), of "sort_key rcat_trial_id actives"]
    by (simp add: run_control_active_trials_def assms(6) payload_entries [OF assms(1,2)] list_all_iff)
  moreover have "map rcat_trial_id (sort_key rcat_trial_id actives) = sort (map rcat_trial_id actives)"
    by (rule properties_for_sort [symmetric]) simp_all
  then have "run_control_active_trial_ids ex control = sort (map rcat_trial_id actives)"
    by (simp add: run_control_active_trial_ids_def assms(6) payload_entries [OF assms(1,2)] bt_keys_def comp_def)
  ultimately show ?thesis
    using assms(4,5) payload_status [OF assms(1)] payload_run_id [OF assms(1)]
    by (simp add: assms(6) require_run_control_run_id_def non_blank_trimmed)
qed

definition sample_actives :: "run_control_active_trial list" where
  "sample_actives =
     [\<lparr>rcat_trial_id = ''trial_2'', rcat_worker_id = ''w1'', rcat_schedule_idx = Some 1,
       rcat_variant_id = ''v'', rcat_started_at = None\<rparr>,
      \<lparr>rcat_trial_id = ''trial_1'', rcat_worker_id = ''w0'', rcat_schedule_idx = Some 0,
       rcat_variant_id = ''v'', rcat_started_at = Some ''t0''\<rparr>]"

lemma sample_actives_storable: "list_all storable_active_trial sample_actives"
  by (simp add: sample_actives_def storable_active_trial_def trim_def usize_max_def is_whitespace_def)

lemma sample_actives_sorted: "sort_key rcat_trial_id sample_actives = rev sample_actives"
  by (rule properties_for_sort_key) (auto simp: sample_actives_def)

text \<open>
  C26: Pausing the containers of an unfinished trial and resuming them brings its attempt back: while
  paused, both copies of the attempt have the phase \<open>paused\<close> and remember the phase they were in; after
  the resume they have that phase again and are otherwise what they were.
\<close>

theorem pause_resume_restores_attempt:
  assumes "attempts_wf w" "latest_attempt w run_id trial_id = Some r"
    and "tas_phase (tar_state r) \<notin> {PhCommitted, PhKilled, PhPaused}"
    and "pause_trial_runtime_containers env run_id trial_id w = (Ok (), w1)"
    and "resume_trial_runtime_containers env' run_id trial_id w1 = (Ok True, w2)"
    and "paused = (tar_state r)\<lparr>tas_phase := PhPaused, tas_paused_from_phase := Some (tas_phase (tar_state r))\<rparr>"
    and "resumed = (tar_state r)\<lparr>tas_paused_from_phase := None\<rparr>"
  shows "latest_attempt w1 run_id trial_id = Some (attempt_record trial_id paused) \<and>
    tw_runtime_files w1 trial_id = Some paused \<and>
    latest_attempt w2 run_id trial_id = Some (attempt_record trial_id resumed) \<and>
    tw_runtime_files w2 trial_id = Some resumed"
proof -
  have p: "paused_attempt (tar_state r) = paused" using assms(3) by (simp add: paused_attempt_def assms(6))
  obtain v r' where v: "tw_attempts v = tw_attempts w" and r': "latest_attempt v run_id trial_id = Some r'"
    and rest: "if tas_phase (tar_state r') = PhCommitted \<or> tas_phase (tar_state r') = PhKilled then w1 = v
      else persist_attempt_state env run_id trial_id (paused_attempt (tar_state r')) v = (Ok (), w1)"
    using pause_containers_Ok [OF assms(4)] by (elim exE conjE)
  have "r' = r" using r' assms(2) latest_attempt_cong [OF v] by simp
  with rest assms(3) p have v: "tw_attempts v = tw_attempts w" "persist_attempt_state env run_id trial_id paused v = (Ok (), w1)"
    by (simp_all add: v)
  note w1 = persist_attempt_state_Ok [OF v(2)]
  have "tas_key paused = tas_key (tar_state r)" by (simp add: assms(6))
  from latest_attempt_rewrite [OF assms(1,2) this, of w1] v(1)
  have latest1: "latest_attempt w1 run_id trial_id = Some (attempt_record trial_id paused)" "attempts_wf w1"
    by (simp_all add: w1)
  have "(tar_state (attempt_record trial_id paused))\<lparr>tas_phase := tas_phase (tar_state r), tas_paused_from_phase := None\<rparr> = resumed"
    by (simp add: attempt_record_def assms(6,7))
  with resume_containers_Ok [OF assms(5)] obtain u where
      u: "tw_attempts u = tw_attempts w1" "persist_attempt_state env' run_id trial_id resumed u = (Ok (), w2)"
    by (auto simp: latest1 assms(6) attempt_record_def)
  note w2 = persist_attempt_state_Ok [OF u(2)]
  have "tas_key resumed = tas_key (tar_state (attempt_record trial_id paused))"
    by (simp add: assms(6,7) attempt_record_def)
  from latest_attempt_rewrite [OF latest1(2,1) this, of w2] u(1)
  have "latest_attempt w2 run_id trial_id = Some (attempt_record trial_id resumed)" by (simp add: w2)
  with latest1 show ?thesis by (simp add: w1 w2)
qed

definition stored_world :: trial_world where
  "stored_world = upsert_attempt_rows ''run'' ''trial_1'' sample_attempt sample_world"

lemma sample_persist:
  "persist_attempt_state sample_trial_env run_id trial_id state w =
     (Ok (), upsert_attempt_rows run_id trial_id state (w\<lparr>tw_runtime_files := (tw_runtime_files w)(trial_id \<mapsto> state)\<rparr>))"
  by (simp add: persist_attempt_state_def write_trial_attempt_state_def file_call_def op_defs sample_trial_env_def
      upsert_trial_attempt_state_def retry_sqlite_busy.simps transactional_def db_call_def)

lemma sample_attempt_facts:
  "tak_attempt (tas_key sample_attempt) = 1" "tas_phase sample_attempt = PhAgentRunning"
  "tas_task_sandbox sample_attempt = Some \<lparr>tss_container_id = ''c1'', tss_image = ''image'', tss_workdir = ''work'',
    tss_platform = None, tss_materialization = JNull\<rparr>"
  "tas_grading_sandbox sample_attempt = None" "tas_cleanup sample_attempt = []"
  "trial_attempt_container_ids sample_attempt = [''c1'']"
  by (simp_all add: sample_attempt_def new_trial_attempt_state_def trial_attempt_container_ids_def)

lemma stored_attempts:
  "tw_attempts stored_world = [(''run'', ''trial_1'', 1) \<mapsto> attempt_record ''trial_1'' sample_attempt]"
  by (simp add: stored_world_def sample_world_def sample_attempt_facts)

lemma stored_world_wf: "attempts_wf stored_world"
  by (simp add: attempts_wf_def stored_attempts sample_attempt_facts attempt_record_def split: if_splits)

lemma stored_latest: "latest_attempt stored_world ''run'' ''trial_1'' = Some (attempt_record ''trial_1'' sample_attempt)"
proof -
  have "attempt_numbers stored_world ''run'' ''trial_1'' = {1}" by (auto simp: attempt_numbers_def stored_attempts)
  then show ?thesis by (simp add: latest_attempt_def stored_attempts)
qed

lemma live_single:
  assumes "tw_containers w = [(''run'', ''trial_1'', 1, ''task'', ''c1'') \<mapsto> row]" "acr_status row = ''active''"
  shows "db_container_ids w ''run'' ''trial_1'' = [''c1'']"
proof -
  have rows: "live_container_rows w ''run'' ''trial_1'' = {(1, ''task'', ''c1'')}"
    using assms by (auto simp: live_container_rows_def)
  show ?thesis by (simp add: db_container_ids_def rows push_new_def)
qed

lemma stored_containers:
  "tw_containers stored_world = [(''run'', ''trial_1'', 1, ''task'', ''c1'') \<mapsto>
     \<lparr>acr_status = ''active'', acr_image = Some ''image'', acr_workdir = Some ''work''\<rparr>]"
  by (simp add: stored_world_def upsert_attempt_rows_def sample_attempt_facts upsert_trial_attempt_container_def
      sample_world_def)

lemma stored_runtime_file: "tw_runtime_files stored_world ''trial_1'' = Some sample_attempt"
  by (simp add: stored_world_def sample_world_def)

lemma stored_pause:
  "\<exists>w1. pause_trial_runtime_containers sample_trial_env ''run'' ''trial_1'' stored_world = (Ok (), w1) \<and>
     db_container_ids w1 ''run'' ''trial_1'' = [''c1'']"
proof -
  have handles: "runtime_trial_container_handles sample_trial_env ''run'' ''trial_1'' stored_world = (Ok [''c1''], stored_world)"
    by (simp add: runtime_trial_container_handles_def load_trial_attempt_container_ids_def trial_attempt_state_exists_def
        stored_runtime_file load_trial_attempt_state_def file_call_def op_defs sample_trial_env_def sample_attempt_facts
        dedupe_handles_def push_new_def)
  define w0 where "w0 = stored_world\<lparr>tw_docker := tw_docker stored_world @ [PauseContainer ''c1'']\<rparr>"
  have w0: "latest_attempt w0 ''run'' ''trial_1'' = Some (attempt_record ''trial_1'' sample_attempt)"
    using stored_latest latest_attempt_cong [of w0 stored_world] by (simp add: w0_def)
  define w1 where "w1 = upsert_attempt_rows ''run'' ''trial_1'' (paused_attempt sample_attempt)
    (w0\<lparr>tw_runtime_files := (tw_runtime_files w0)(''trial_1'' \<mapsto> paused_attempt sample_attempt)\<rparr>)"
  have calls: "docker_connect sample_trial_env stored_world = (Ok (), stored_world)"
      "docker_call_op sample_trial_env (PauseContainer ''c1'') stored_world = (Ok (), w0)"
      "te_docker sample_trial_env (PauseContainer ''c1'') = DockerDone"
      "load_latest_trial_attempt sample_trial_env ''run'' ''trial_1'' w0 = (Ok (Some (attempt_record ''trial_1'' sample_attempt)), w0)"
    by (simp_all add: docker_connect_def docker_call_op_def olift_def sample_trial_env_def w0_def [symmetric]
        load_latest_trial_attempt_def db_call_def oreturn_def oget_def obind_def w0)
  have "pause_trial_runtime_containers sample_trial_env ''run'' ''trial_1'' stored_world = (Ok (), w1)"
    by (simp add: pause_trial_runtime_containers_def obind_def handles calls olift_def attempt_record_def oreturn_def
        sample_attempt_facts sample_persist w1_def)
  moreover have "db_container_ids w1 ''run'' ''trial_1'' = [''c1'']"
    by (rule live_single [where row = "\<lparr>acr_status = ''active'', acr_image = Some ''image'', acr_workdir = Some ''work''\<rparr>"])
      (simp_all add: w1_def w0_def stored_containers upsert_attempt_rows_def upsert_trial_attempt_container_def
        sample_attempt_facts paused_attempt_def)
  ultimately show ?thesis by blast
qed

lemma sample_resume:
  assumes "latest_attempt w ''run'' ''trial_1'' = Some r" "tas_phase (tar_state r) = PhPaused"
    and "tas_paused_from_phase (tar_state r) = Some phase" "db_container_ids w ''run'' ''trial_1'' = [''c1'']"
  shows "\<exists>w2. resume_trial_runtime_containers sample_trial_env ''run'' ''trial_1'' w = (Ok True, w2)"
proof -
  have "te_db sample_trial_env = (\<lambda>_ _. None)" "te_docker_connect sample_trial_env"
      "te_docker sample_trial_env = (\<lambda>_. DockerDone)"
    by (simp_all add: sample_trial_env_def)
  with assms show ?thesis
    by (simp add: resume_trial_runtime_containers_def load_latest_trial_attempt_def load_db_container_ids_def db_call_def
        docker_connect_def docker_call_op_def op_defs sample_persist Let_def)
qed

theorem pause_resume_restores_attempt_witness:
  "\<exists>w1 w2. pause_trial_runtime_containers sample_trial_env ''run'' ''trial_1'' stored_world = (Ok (), w1) \<and>
     resume_trial_runtime_containers sample_trial_env ''run'' ''trial_1'' w1 = (Ok True, w2) \<and>
     latest_attempt w2 ''run'' ''trial_1'' = Some (attempt_record ''trial_1'' (sample_attempt\<lparr>tas_paused_from_phase := None\<rparr>))"
proof -
  obtain w1 where 1: "pause_trial_runtime_containers sample_trial_env ''run'' ''trial_1'' stored_world = (Ok (), w1)"
      "db_container_ids w1 ''run'' ''trial_1'' = [''c1'']"
    using stored_pause by blast
  have "\<exists>r. latest_attempt w1 ''run'' ''trial_1'' = Some r \<and> tas_phase (tar_state r) = PhPaused \<and>
      tas_paused_from_phase (tar_state r) = Some PhAgentRunning"
  proof -
    obtain v r where v: "tw_attempts v = tw_attempts stored_world" "latest_attempt v ''run'' ''trial_1'' = Some r"
      "if tas_phase (tar_state r) = PhCommitted \<or> tas_phase (tar_state r) = PhKilled then w1 = v
       else persist_attempt_state sample_trial_env ''run'' ''trial_1'' (paused_attempt (tar_state r)) v = (Ok (), w1)"
      using pause_containers_Ok [OF 1(1)] by (elim exE conjE)
    have r: "r = attempt_record ''trial_1'' sample_attempt" using v(1,2) latest_attempt_cong [OF v(1)] stored_latest by simp
    with v(3) have "w1 = upsert_attempt_rows ''run'' ''trial_1'' (paused_attempt sample_attempt)
        (v\<lparr>tw_runtime_files := (tw_runtime_files v)(''trial_1'' \<mapsto> paused_attempt sample_attempt)\<rparr>)"
      by (simp add: attempt_record_def sample_attempt_facts sample_persist)
    then have "tw_attempts w1 = (tw_attempts stored_world)((''run'', ''trial_1'', tak_attempt (tas_key (paused_attempt sample_attempt))) \<mapsto>
        attempt_record ''trial_1'' (paused_attempt sample_attempt))" by (simp add: v(1))
    from latest_attempt_rewrite [OF stored_world_wf stored_latest _ this]
    show ?thesis by (simp add: attempt_record_def paused_attempt_def sample_attempt_facts)
  qed
  with sample_resume 1(2) obtain w2 where
    2: "resume_trial_runtime_containers sample_trial_env ''run'' ''trial_1'' w1 = (Ok True, w2)" by blast
  have "tar_state (attempt_record ''trial_1'' sample_attempt) = sample_attempt" by (simp add: attempt_record_def)
  with pause_resume_restores_attempt [OF stored_world_wf stored_latest _ 1(1) 2 refl refl] 1(1) 2
  show ?thesis by (auto simp: sample_attempt_facts)
qed

text \<open>
  C27: A pause that succeeds found the run running; it marked every targeted trial as paused, set the run
  to \<open>paused\<close> in the record and in the table of runs, and left exactly the targeted trials in the record:
  with one trial of several as its target, the others are still running and no longer listed. A pause that
  fails for some of its targets leaves the run \<open>interrupted\<close>, having paused fewer trials than targeted.
\<close>

theorem pause_run_outcome:
  assumes "pointer_laws (ex_pointer (cn_externs env))"
    and "pause_run env m trial_id label w = (r, w')"
    and "r = Ok res \<or> r = Err (PausePartialFailure n tried)"
  shows "\<exists>control control' targets. cw_control w = Some control \<and> cw_control w' = Some control' \<and>
    run_control_status (cn_externs env) control = Ok ''running'' \<and>
    pause_targets trial_id (run_control_active_trial_ids (cn_externs env) control) = Ok targets \<and>
    (if r = Ok res
     then run_control_status (cn_externs env) control' = Ok ''paused'' \<and> cw_run_status w' = Some ''paused'' \<and>
       set (run_control_active_trial_ids (cn_externs env) control') = set targets \<and>
       (\<forall>i \<in> set targets. marked_paused (case label of None \<Rightarrow> ''pause'' | Some l \<Rightarrow> l) (cw_trials w') i)
     else run_control_status (cn_externs env) control' = Ok ''interrupted'' \<and> cw_run_status w' = Some ''interrupted'' \<and>
       n < tried \<and> tried = length targets)"
proof -
  let ?ex = "cn_externs env" and ?label = "case label of None \<Rightarrow> ''pause'' | Some l \<Rightarrow> l"
  obtain lease v where body: "pause_run_locked env trial_id label (w\<lparr>cw_lease := lease\<rparr>) = (r, v)"
      and same: "cw_control w' = cw_control v" "cw_run_status w' = cw_run_status v" "cw_trials w' = cw_trials v"
    using with_operation_lease_frame [OF assms(2) [unfolded pause_run_def]] assms(3) by blast
  from pause_locked_result [OF assms(1) body assms(3)] same show ?thesis by (simp split del: if_split cong: if_cong)
qed

text \<open>One of two active trials paused.\<close>

definition sample_control_env :: control_env where
  "sample_control_env = \<lparr>cn_externs = sample_externs, cn_lease = sample_lease_env, cn_trials = sample_trial_env,
     cn_contract = (\<lambda>_. True), cn_db = (\<lambda>_. True), cn_now = ''t1''\<rparr>"

definition sample_control_world :: control_world where
  "sample_control_world = \<lparr>cw_lease = NoLease,
     cw_control = Some (run_control_payload ''run'' ''running'' sample_actives None ''t0''),
     cw_run_status = Some ''running'', cw_trials = stored_world\<rparr>"


lemma sample_externs_pointer: "pointer_laws (ex_pointer sample_externs)"
  by (simp add: sample_externs_def sample_pointer_laws)

lemma sample_control_reads:
  assumes "control = run_control_payload ''run'' ''running'' sample_actives None ''t0''"
  shows "run_control_status sample_externs control = Ok ''running''"
    "require_run_control_run_id sample_externs control = Ok ''run''"
    "run_control_active_trial_ids sample_externs control = [''trial_1'', ''trial_2'']"
    "run_control_active_trials sample_externs control = Ok (map (stamped ''t0'') (rev sample_actives))"
proof -
  note laws = sample_externs_pointer
  have d: "distinct (map rcat_trial_id sample_actives)" by (simp add: sample_actives_def)
  show "run_control_status sample_externs control = Ok ''running''" by (simp add: assms payload_status [OF laws])
  show "require_run_control_run_id sample_externs control = Ok ''run''"
    by (simp add: assms require_run_control_run_id_def payload_run_id [OF laws] non_blank_def trim_def is_whitespace_def)
  note entries = payload_entries [OF laws d, of "''run''" "''running''" None "''t0''"]
  show "run_control_active_trial_ids sample_externs control = [''trial_1'', ''trial_2'']"
    by (simp add: assms run_control_active_trial_ids_def entries sample_actives_sorted bt_keys_def)
      (simp add: sample_actives_def)
  show "run_control_active_trials sample_externs control = Ok (map (stamped ''t0'') (rev sample_actives))"
    using parse_active_trials_entries [OF laws, of "rev sample_actives" "''t0''"] sample_actives_storable
    by (simp add: assms run_control_active_trials_def entries sample_actives_sorted list_all_iff)
qed

lemma sample_pause_one:
  assumes "cw_trials w = stored_world"
  shows "\<exists>w1. pause_one sample_control_env ''run'' ''pause'' (map (stamped ''t0'') (rev sample_actives)) ''trial_1'' w =
    (Ok (stamped ''t0'' (sample_actives ! 1)), w1)"
proof -
  obtain t where t: "pause_trial_runtime_containers sample_trial_env ''run'' ''trial_1'' stored_world = (Ok (), t)"
    using stored_pause by blast
  have find: "find_active ''trial_1'' (map (stamped ''t0'') (rev sample_actives)) = Some (stamped ''t0'' (sample_actives ! 1))"
    by (simp add: find_active_def sample_actives_def stamped_def)
  have dir: "''trial_1'' \<in> tw_dirs stored_world" by (simp add: stored_world_def sample_world_def)
  have mode: "resolve_active_trial_control_mode sample_trial_env ''run'' ''trial_1'' stored_world = (Ok (), stored_world)"
    by (simp add: resolve_active_trial_control_mode_def runtime_trial_container_handles_def
        load_trial_attempt_container_ids_def trial_attempt_state_exists_def stored_runtime_file load_trial_attempt_state_def
        file_call_def op_defs sample_trial_env_def sample_attempt_facts)
  have trials: "cn_trials sample_control_env = sample_trial_env" by (simp add: sample_control_env_def)
  have "te_file sample_trial_env = (\<lambda>_ _. True)" by (simp add: sample_trial_env_def)
  then show ?thesis
    using assms by (simp add: pause_one_def find dir trials obind_def mode t write_trial_state_def file_call_def oreturn_def omodify_def)
qed

theorem pause_run_outcome_witness:
  "\<exists>res w' control'. pause_run sample_control_env (moment 0 0) (Some ''trial_1'') None sample_control_world = (Ok res, w') \<and>
     cw_control w' = Some control' \<and> cw_run_status w' = Some ''paused'' \<and>
     set (run_control_active_trial_ids sample_externs control') = {''trial_1''}"
proof -
  obtain oid lease where lease: "acquire_run_operation_lease sample_lease_env (moment 0 0) OpPause NoLease = (Ok oid, LeaseFile lease)"
    using healthy_acquire [OF sample_lease_healthy] by blast
  define control where "control = run_control_payload ''run'' ''running'' sample_actives None ''t0''"
  note reads = sample_control_reads [OF control_def]
  have env: "cn_externs sample_control_env = sample_externs" "cn_lease sample_control_env = sample_lease_env"
      "cn_contract sample_control_env = (\<lambda>_. True)" "cn_db sample_control_env = (\<lambda>_. True)"
    by (simp_all add: sample_control_env_def)
  define w where "w = sample_control_world\<lparr>cw_lease := LeaseFile lease\<rparr>"
  have w: "cw_control w = Some control" "cw_trials w = stored_world"
    by (simp_all add: w_def sample_control_world_def control_def)
  have load: "load_run_control sample_control_env w = (Ok control, w)" by (simp add: load_run_control_Ok env w)
  obtain w1 where one: "pause_one sample_control_env ''run'' ''pause'' (map (stamped ''t0'') (rev sample_actives)) ''trial_1'' w =
      (Ok (stamped ''t0'' (sample_actives ! 1)), w1)"
    using sample_pause_one [OF w(2)] by blast
  have "\<exists>res v. pause_run_locked sample_control_env (Some ''trial_1'') None w = (Ok res, v)"
    by (simp add: pause_run_locked_def obind_def load env olift_def reads pause_targets_def one pause_finish_def
        write_run_control_def control_db_def ensure_def omodify_def oreturn_def Let_def)
  then obtain res v where locked: "pause_run_locked sample_control_env (Some ''trial_1'') None w = (Ok res, v)" by blast
  obtain w' where run: "pause_run sample_control_env (moment 0 0) (Some ''trial_1'') None sample_control_world = (Ok res, w')"
    using lease locked by (simp add: pause_run_def with_operation_lease_def env w_def sample_control_world_def)
  have "cw_control sample_control_world = Some control" by (simp add: sample_control_world_def control_def)
  moreover obtain old control' targets where "cw_control sample_control_world = Some old" "cw_control w' = Some control'"
      "pause_targets (Some ''trial_1'') (run_control_active_trial_ids sample_externs old) = Ok targets"
      "cw_run_status w' = Some ''paused''" "set (run_control_active_trial_ids sample_externs control') = set targets"
    using pause_run_outcome [OF _ run disjI1 [OF refl], unfolded env, OF sample_externs_pointer] by auto
  ultimately have "targets = [''trial_1'']" "cw_control w' = Some control'" "cw_run_status w' = Some ''paused''"
      "set (run_control_active_trial_ids sample_externs control') = set targets"
    by (simp_all add: reads pause_targets_def)
  with run show ?thesis by (intro exI [of _ res] exI [of _ w'] exI [of _ control']) simp
qed

end
