(* ===== verification/Recovery.thy ===== *)
theory Recovery
  imports Run_Control
begin

text \<open>
  Recovering a run whose engine is gone (\<open>recover_run\<close> of \<open>lab-runner/src/experiment/runner.rs\<close>): the
  progress is rebuilt from the commit journal, the containers of lost trials are removed and their slots
  go back to the queue. The operation composes the control record, the attempts of trials, the run
  store and both leases.
\<close>

section \<open>Loops that count\<close>

fun osum :: "'x list \<Rightarrow> ('x \<Rightarrow> ('s, 'e, nat) op) \<Rightarrow> ('s, 'e, nat) op" where
  "osum [] f = oreturn 0"
| "osum (x # xs) f = obind (f x) (\<lambda>n. obind (osum xs f) (\<lambda>k. oreturn (n + k)))"

text \<open>A loop whose iterations respect a preorder on states, and what each of them did on the way.\<close>

lemma osum_trace:
  assumes "\<And>s. R s s" "\<And>s t u. R s t \<Longrightarrow> R t u \<Longrightarrow> R s u"
    and "\<forall>x s n t. f x s = (Ok n, t) \<longrightarrow> R s t"
    and "osum xs f s = (Ok n, t)"
  shows "R s t \<and> (\<forall>x \<in> set xs. \<exists>u k v. R s u \<and> f x u = (Ok k, v) \<and> R v t)"
  using assms(4)
proof (induction xs arbitrary: s n)
  case (Cons x xs)
  then obtain k u m where 1: "f x s = (Ok k, u)" "osum xs f u = (Ok m, t)"
    by (auto simp: obind_eq_Ok oreturn_def)
  have step: "R s u" using assms(3) 1(1) by blast
  have rest: "R u t" "\<forall>y \<in> set xs. \<exists>v k w. R u v \<and> f y v = (Ok k, w) \<and> R w t"
    using Cons.IH [OF 1(2)] by simp_all
  have "\<exists>v k w. R s v \<and> f y v = (Ok k, w) \<and> R w t" if "y \<in> set (x # xs)" for y
  proof (cases "y = x")
    case True
    then show ?thesis using assms(1) 1(1) rest(1) by blast
  next
    case False
    with that have "y \<in> set xs" by simp
    with rest(2) obtain v k w where "R u v" "f y v = (Ok k, w)" "R w t" by blast
    then show ?thesis using assms(2) [OF step] by blast
  qed
  with assms(2) [OF step rest(1)] show ?case by blast
qed (simp add: oreturn_def assms(1))

section \<open>Claim intents\<close>

datatype recovery_site =
    ReadSession | ReadProgress | ReadJournal | ReadPending | ReadIntents | ReadAttempts | ReadActiveSlots
  | WriteProgress | WriteReport

datatype recovery_error =
    RecControl control_error
  | RecLease lease_error
  | RecTrial trial_error
  | RecStore store_error
  | RecState state_error
  | RecRow row_error
  | RecIo recovery_site
  | AlreadyCompleted
  | AlreadyKilled
  | PreflightFailed
  | StatusMissing
  | NotRecoverable string
  | SessionMissing
  | SessionMismatch string string
  | IntentMissingWorker
  | IntentMissingVariant

definition claim_intent_json :: "string \<Rightarrow> nat \<Rightarrow> run_control_active_trial \<Rightarrow> string \<Rightarrow> string \<Rightarrow> json" where
  "claim_intent_json trial_id schedule_idx active run_id created_at =
     json_object
       [(''schema_version'', JString ''trial_claim_intent_v1''), (''run_id'', JString run_id),
        (''trial_id'', JString trial_id), (''schedule_idx'', jnat schedule_idx),
        (''worker_id'', JString (rcat_worker_id active)), (''variant_id'', JString (rcat_variant_id active)),
        (''started_at'', json_option JString (rcat_started_at active)), (''created_at'', JString created_at)]"

text \<open>One intent file; files of another schema or without a trial id are skipped.\<close>

definition parse_claim_intent ::
  "externs \<Rightarrow> json \<Rightarrow> (recovery_error, run_control_active_trial option) result" where
  "parse_claim_intent ex value =
     (if pointer_str ex value ''/schema_version'' \<noteq> Some ''trial_claim_intent_v1'' then Ok None
      else case pointer_str ex value ''/trial_id'' of
        None \<Rightarrow> Ok None
      | Some trial_id \<Rightarrow>
          rbind (map_err RecRow (optional_json_usize ex value ''/schedule_idx'')) (\<lambda>schedule_idx.
          rbind (ok_or IntentMissingWorker (non_blank (pointer_str ex value ''/worker_id''))) (\<lambda>worker_id.
          rbind (ok_or IntentMissingVariant (non_blank (pointer_str ex value ''/variant_id''))) (\<lambda>variant_id.
          Ok (Some \<lparr>rcat_trial_id = trial_id, rcat_worker_id = worker_id, rcat_schedule_idx = schedule_idx,
            rcat_variant_id = variant_id, rcat_started_at = pointer_str ex value ''/started_at''\<rparr>)))))"

fun parse_claim_intents ::
  "externs \<Rightarrow> json list \<Rightarrow> (recovery_error, run_control_active_trial list) result" where
  "parse_claim_intents ex [] = Ok []"
| "parse_claim_intents ex (value # values) =
     rbind (parse_claim_intent ex value) (\<lambda>intent.
     rbind (parse_claim_intents ex values) (\<lambda>rest.
     Ok (case intent of None \<Rightarrow> rest | Some a \<Rightarrow> a # rest)))"

definition load_trial_claim_intents ::
  "externs \<Rightarrow> json list \<Rightarrow> (recovery_error, run_control_active_trial list) result" where
  "load_trial_claim_intents ex values =
     rbind (parse_claim_intents ex values) (\<lambda>intents. Ok (sort_active_trials intents))"

section \<open>The state of a run\<close>

text \<open>
  The claim intents are the intent files of the trial directories, in the order the directory is read;
  the session state is known by the run id it carries.
\<close>

record recovery_world =
  rw_control :: control_world
  rw_store :: run_store
  rw_engine :: stored_lease
  rw_session :: "string option"
  rw_intents :: "json list"
  rw_report :: "json option"

record recovery_env =
  rn_control :: control_env
  rn_moment :: lease_moment
  rn_db :: "db_point \<Rightarrow> bool"
  rn_contracts :: schema_contracts
  rn_io :: "recovery_site \<Rightarrow> bool"

type_synonym 'a recovery_op = "(recovery_world, recovery_error, 'a) op"

definition on_control :: "'a control_op \<Rightarrow> 'a recovery_op" where
  "on_control m w = (case m (rw_control w) of (r, c) \<Rightarrow> (map_err RecControl r, w\<lparr>rw_control := c\<rparr>))"

definition on_run_trials :: "'a trial_op \<Rightarrow> 'a recovery_op" where
  "on_run_trials m w =
     (case m (cw_trials (rw_control w)) of
        (r, t) \<Rightarrow> (map_err RecTrial r, w\<lparr>rw_control := (rw_control w)\<lparr>cw_trials := t\<rparr>\<rparr>))"

definition on_run_store :: "'a store_op \<Rightarrow> 'a recovery_op" where
  "on_run_store m w = (case m (rw_store w) of (r, s) \<Rightarrow> (map_err RecStore r, w\<lparr>rw_store := s\<rparr>))"

definition on_engine_lease :: "'a engine_op \<Rightarrow> 'a recovery_op" where
  "on_engine_lease m w = (case m (rw_engine w) of (r, e) \<Rightarrow> (map_err RecLease r, w\<lparr>rw_engine := e\<rparr>))"

definition recovery_io :: "recovery_env \<Rightarrow> recovery_site \<Rightarrow> unit recovery_op" where
  "recovery_io env site = olift (ensure (rn_io env site) (RecIo site))"

abbreviation rn_trials :: "recovery_env \<Rightarrow> trial_env" where
  "rn_trials env \<equiv> cn_trials (rn_control env)"

section \<open>Rebuilding the progress\<close>

definition recover_reconciled_status :: "string \<Rightarrow> (recovery_error, string) result" where
  "recover_reconciled_status previous =
     (if previous \<in> {''running'', ''paused'', ''interrupted'', ''failed''} then Ok ''interrupted''
      else if previous = ''completed'' then Err AlreadyCompleted
      else if previous = ''killed'' then Err AlreadyKilled
      else if previous = ''preflight_failed'' then Err PreflightFailed
      else if previous = '''' then Err StatusMissing
      else Err (NotRecoverable previous))"

definition slot_matches_commit :: "slot_completion \<Rightarrow> slot_commit_record \<Rightarrow> bool" where
  "slot_matches_commit slot committed \<longleftrightarrow>
     sc_slot_commit_id slot = scr_slot_commit_id committed \<and> sc_trial_id slot = scr_trial_id committed \<and>
     sc_status slot = scr_slot_status committed"

definition note_divergence :: "nat \<Rightarrow> nat option \<Rightarrow> nat option" where
  "note_divergence i divergence = Some (case divergence of None \<Rightarrow> i | Some j \<Rightarrow> min j i)"

definition progress_divergence ::
  "slot_completion list \<Rightarrow> (nat, slot_commit_record) btree \<Rightarrow> nat option" where
  "progress_divergence completed committed =
     (let by_schedule = fold (\<lambda>slot. bt_insert (sc_schedule_index slot) slot) completed [];
          from_progress = fold (\<lambda>slot d.
            if (case bt_get committed (sc_schedule_index slot) of
                  Some c \<Rightarrow> slot_matches_commit slot c | None \<Rightarrow> False) then d
            else note_divergence (sc_schedule_index slot) d) completed None
      in fold (\<lambda>(i, c) d.
           if (case bt_get by_schedule i of Some slot \<Rightarrow> slot_matches_commit slot c | None \<Rightarrow> False) then d
           else note_divergence i d) committed from_progress)"

definition commit_completion :: "nat \<times> slot_commit_record \<Rightarrow> slot_completion" where
  "commit_completion entry =
     (case entry of (i, committed) \<Rightarrow>
       \<lparr>sc_schedule_index = i, sc_trial_id = scr_trial_id committed, sc_status = scr_slot_status committed,
        sc_slot_commit_id = scr_slot_commit_id committed, sc_attempt = max (scr_attempt committed) 1\<rparr>)"

definition reconcile_progress ::
  "(nat, slot_commit_record) btree \<Rightarrow> string \<Rightarrow> schedule_progress \<Rightarrow> schedule_progress \<times> nat" where
  "reconcile_progress committed now progress =
     (let divergence = progress_divergence (sp_completed_slots progress) committed;
          completed = sort_key sc_schedule_index (map commit_completion committed);
          progress = progress\<lparr>sp_completed_slots := completed\<rparr>;
          progress = (if divergence \<noteq> None
                      then progress\<lparr>sp_pruned_variants := [], sp_consecutive_failures := []\<rparr> else progress);
          next_index = (case find (\<lambda>i. i \<notin> sc_schedule_index ` set completed) [0..<sp_total_slots progress] of
                          None \<Rightarrow> sp_total_slots progress | Some i \<Rightarrow> i)
      in (progress\<lparr>sp_next_schedule_index := next_index, sp_schema_version := ''schedule_progress_v2'',
            sp_updated_at := now\<rparr>,
          case divergence of None \<Rightarrow> next_index | Some i \<Rightarrow> i))"

section \<open>Trials with a recorded attempt\<close>

text \<open>\<open>ORDER BY schedule_idx, attempt\<close>; attempts equal in both come in the order of their trial ids.\<close>

definition recovery_keys :: "trial_world \<Rightarrow> string \<Rightarrow> (nat \<times> nat \<times> string) set" where
  "recovery_keys t run_id =
     {(i, a, trial_id). \<exists>r. tw_attempts t (run_id, trial_id, a) = Some r \<and> tar_schedule_idx r = i}"

definition trial_attempts_for_recovery :: "trial_world \<Rightarrow> string \<Rightarrow> trial_attempt_record list" where
  "trial_attempts_for_recovery t run_id =
     map (\<lambda>(i, a, trial_id). the (tw_attempts t (run_id, trial_id, a)))
       (sorted_list_of_set (recovery_keys t run_id))"

definition mirror_attempt ::
  "recovery_env \<Rightarrow> string \<Rightarrow> string \<Rightarrow> trial_attempt_state \<Rightarrow> unit recovery_op" where
  "mirror_attempt env run_id trial_id state =
     obind (on_run_trials (upsert_trial_attempt_state (rn_trials env) run_id trial_id state)) (\<lambda>_.
     on_run_trials (write_trial_attempt_state (rn_trials env) trial_id state))"

text \<open>One attempt: how many slots were released.\<close>

definition reconcile_attempt ::
  "recovery_env \<Rightarrow> string \<Rightarrow> (nat, slot_commit_record) btree \<Rightarrow> trial_attempt_record \<Rightarrow> nat recovery_op" where
  "reconcile_attempt env run_id committed attempt =
     (let trial_id = tar_trial_id attempt; state = tar_state attempt
      in if (case bt_get committed (tar_schedule_idx attempt) of
               Some c \<Rightarrow> scr_trial_id c = trial_id | None \<Rightarrow> False)
         then obind (mirror_attempt env run_id trial_id
                (state\<lparr>tas_phase := PhCommitted, tas_paused_from_phase := None\<rparr>)) (\<lambda>_. oreturn 0)
         else if \<not> trial_phase_requires_recovery_release (tar_phase attempt) then oreturn 0
         else
           obind (on_run_trials (cleanup_local_docker_attempt_runtime (rn_trials env) run_id trial_id)) (\<lambda>_.
           obind (on_run_trials (write_trial_state (rn_trials env) trial_id ''failed'' None None
             (Some ''worker_lost_recovered''))) (\<lambda>_.
           obind (mirror_attempt env run_id trial_id
             (state\<lparr>tas_phase := PhAbandoned, tas_paused_from_phase := None\<rparr>)) (\<lambda>_.
           obind (on_run_store (release_schedule_slot_to_pending (rn_db env) run_id (tar_schedule_idx attempt))) (\<lambda>_.
           oreturn 1)))))"

definition reconcile_runtime_trials_for_recovery ::
  "recovery_env \<Rightarrow> string \<Rightarrow> (nat, slot_commit_record) btree \<Rightarrow> (nat \<times> string set) recovery_op" where
  "reconcile_runtime_trials_for_recovery env run_id committed =
     obind (recovery_io env ReadAttempts) (\<lambda>_.
     obind (oget (\<lambda>w. trial_attempts_for_recovery (cw_trials (rw_control w)) run_id)) (\<lambda>attempts.
     obind (osum attempts (reconcile_attempt env run_id committed)) (\<lambda>released.
     oreturn (released, tar_trial_id ` set attempts))))"

section \<open>Trials without one\<close>

text \<open>The active trials of the record, and the claimed ones that are neither committed, nor waiting for
  their commit, nor listed.\<close>

fun add_intents ::
  "(nat, slot_commit_record) btree \<Rightarrow> nat set \<Rightarrow> run_control_active_trial list \<Rightarrow>
   run_control_active_trial list \<Rightarrow> run_control_active_trial list" where
  "add_intents committed pending active [] = active"
| "add_intents committed pending active (intent # intents) =
     (case rcat_schedule_idx intent of
        None \<Rightarrow> add_intents committed pending active intents
      | Some i \<Rightarrow>
          if bt_get committed i \<noteq> None \<or> i \<in> pending \<or> rcat_trial_id intent \<in> rcat_trial_id ` set active
          then add_intents committed pending active intents
          else add_intents committed pending (active @ [intent]) intents)"

definition mark_lost :: "recovery_env \<Rightarrow> string \<Rightarrow> unit recovery_op" where
  "mark_lost env trial_id =
     obind (on_run_trials (write_trial_state (rn_trials env) trial_id ''failed'' None None
       (Some ''worker_lost_recovered''))) (\<lambda>_.
     obind (on_run_trials (reconcile_trial_attempt_as_abandoned (rn_trials env) trial_id)) (\<lambda>_.
     oreturn ()))"

definition trial_dir_exists :: "string \<Rightarrow> bool recovery_op" where
  "trial_dir_exists trial_id = oget (\<lambda>w. trial_id \<in> tw_dirs (cw_trials (rw_control w)))"

definition release_active_trial ::
  "recovery_env \<Rightarrow> string \<Rightarrow> (nat, slot_commit_record) btree \<Rightarrow> nat \<Rightarrow> string set \<Rightarrow>
   run_control_active_trial \<Rightarrow> nat recovery_op" where
  "release_active_trial env run_id committed next_index runtime_ids active =
     (if rcat_trial_id active \<in> runtime_ids then oreturn 0
      else case rcat_schedule_idx active of
        None \<Rightarrow> oreturn 0
      | Some i \<Rightarrow>
          if i < next_index \<and> bt_get committed i \<noteq> None then oreturn 0
          else
            obind (trial_dir_exists (rcat_trial_id active)) (\<lambda>exists.
            obind (if exists then mark_lost env (rcat_trial_id active) else oreturn ()) (\<lambda>_.
            obind (on_run_store (release_schedule_slot_to_pending (rn_db env) run_id i)) (\<lambda>_.
            oreturn 1))))"

definition release_active_slot ::
  "recovery_env \<Rightarrow> string \<Rightarrow> (nat, slot_commit_record) btree \<Rightarrow> string set \<Rightarrow> schedule_slot_record \<Rightarrow>
   nat recovery_op" where
  "release_active_slot env run_id committed runtime_ids slot =
     (if bt_get committed (ssr_schedule_idx slot) \<noteq> None then oreturn 0
      else if (case ssr_trial_id slot of Some trial_id \<Rightarrow> trial_id \<in> runtime_ids | None \<Rightarrow> False) then oreturn 0
      else
        obind (case ssr_trial_id slot of
                 None \<Rightarrow> oreturn ()
               | Some trial_id \<Rightarrow>
                   obind (trial_dir_exists trial_id) (\<lambda>exists.
                   if \<not> exists then oreturn ()
                   else obind (on_run_trials (cleanup_local_docker_attempt_runtime (rn_trials env) run_id trial_id)) (\<lambda>_.
                        mark_lost env trial_id))) (\<lambda>_.
        obind (on_run_store (release_schedule_slot_to_pending (rn_db env) run_id (ssr_schedule_idx slot))) (\<lambda>_.
        oreturn 1)))"

section \<open>The operation\<close>

record recover_result =
  rr_run_id :: string
  rr_previous_status :: string
  rr_recovered_status :: string
  rr_rewound_to_schedule_idx :: nat
  rr_active_trials_released :: nat
  rr_label_drift_containers_removed :: nat
  rr_committed_slots_verified :: nat

record recovery_plan =
  rp_control :: json
  rp_previous :: string
  rp_recovered :: string
  rp_run_id :: string
  rp_progress :: schedule_progress
  rp_committed :: "(nat, slot_commit_record) btree"

definition check_session :: "recovery_env \<Rightarrow> string \<Rightarrow> unit recovery_op" where
  "check_session env run_id =
     obind (recovery_io env ReadSession) (\<lambda>_.
     obind (oget rw_session) (\<lambda>session.
     case session of
       None \<Rightarrow> ofail SessionMissing
     | Some session_id \<Rightarrow>
         if session_id \<noteq> run_id then ofail (SessionMismatch run_id session_id) else oreturn ()))"

text \<open>Everything that is read before the engine lease is adopted.\<close>

definition load_recovery_plan :: "recovery_env \<Rightarrow> recovery_plan recovery_op" where
  "load_recovery_plan env =
     (let ex = cn_externs (rn_control env)
      in obind (on_control (load_run_control (rn_control env))) (\<lambda>control.
         obind (olift (map_err RecControl (run_control_status ex control))) (\<lambda>previous.
         obind (olift (recover_reconciled_status previous)) (\<lambda>recovered.
         obind (olift (map_err RecControl (require_run_control_run_id ex control))) (\<lambda>run_id.
         obind (check_session env run_id) (\<lambda>_.
         obind (recovery_io env ReadProgress) (\<lambda>_.
         obind (oget (\<lambda>w. st_progress (rw_store w) run_id)) (\<lambda>stored.
         obind (olift (map_err RecState (load_schedule_progress stored))) (\<lambda>progress.
         obind (recovery_io env ReadJournal) (\<lambda>_.
         obind (oget (\<lambda>w. load_slot_commit_records (rw_store w) run_id)) (\<lambda>records.
         oreturn \<lparr>rp_control = control, rp_previous = previous, rp_recovered = recovered, rp_run_id = run_id,
           rp_progress = progress, rp_committed = commit_record_by_schedule records\<rparr>)))))))))))"

text \<open>The slot table is brought in line with the journal.\<close>

definition recover_slots :: "recovery_env \<Rightarrow> recovery_plan \<Rightarrow> unit recovery_op" where
  "recover_slots env plan =
     obind (on_run_store (ensure_schedule_slots (rn_db env) (rp_run_id plan) (sp_schedule (rp_progress plan)))) (\<lambda>_.
     oforeach (rp_committed plan) (\<lambda>(schedule_idx, record).
       on_run_store (mark_schedule_slot_committed (rn_db env) (rp_run_id plan) schedule_idx (scr_trial_id record)
         (scr_attempt record) (scr_slot_commit_id record) (scr_slot_status record))))"

definition recover_active_trials :: "recovery_env \<Rightarrow> recovery_plan \<Rightarrow> run_control_active_trial list recovery_op" where
  "recover_active_trials env plan =
     (let ex = cn_externs (rn_control env)
      in obind (olift (map_err RecControl (run_control_active_trials ex (rp_control plan)))) (\<lambda>active.
         obind (recovery_io env ReadPending) (\<lambda>_.
         obind (oget (\<lambda>w. ptc_schedule_idx ` set (load_pending_trial_completions (rw_store w) (rp_run_id plan)))) (\<lambda>pending.
         obind (recovery_io env ReadIntents) (\<lambda>_.
         obind (oget rw_intents) (\<lambda>values.
         obind (olift (load_trial_claim_intents ex values)) (\<lambda>intents.
         oreturn (add_intents (rp_committed plan) pending active intents))))))))"

text \<open>Lost trials are cleaned up and their slots released: how many were released, and how many of these
  had a recorded attempt.\<close>

definition recover_trials ::
  "recovery_env \<Rightarrow> recovery_plan \<Rightarrow> nat \<Rightarrow> run_control_active_trial list \<Rightarrow> (nat \<times> nat) recovery_op" where
  "recover_trials env plan next_index active =
     (let run_id = rp_run_id plan; committed = rp_committed plan
      in obind (reconcile_runtime_trials_for_recovery env run_id committed) (\<lambda>(runtime_released, runtime_ids).
         obind (osum active (release_active_trial env run_id committed next_index runtime_ids)) (\<lambda>listed.
         obind (recovery_io env ReadActiveSlots) (\<lambda>_.
         obind (oget (\<lambda>w. active_schedule_slots (rw_store w) run_id)) (\<lambda>slots.
         obind (osum slots (release_active_slot env run_id committed runtime_ids)) (\<lambda>stale.
         oreturn (runtime_released + listed + stale, runtime_released)))))))"

definition store_progress :: "recovery_env \<Rightarrow> string \<Rightarrow> schedule_progress \<Rightarrow> unit recovery_op" where
  "store_progress env run_id progress =
     obind (olift (map_err RecState (write_schedule_progress progress))) (\<lambda>next.
     case next of
       None \<Rightarrow> oreturn ()
     | Some value \<Rightarrow> on_run_store (put_schedule_progress (rn_db env) (rn_contracts env) run_id value))"

definition recovery_report :: "recover_result \<Rightarrow> string \<Rightarrow> json" where
  "recovery_report r now =
     json_object
       [(''schema_version'', JString ''recovery_report_v1''), (''run_id'', JString (rr_run_id r)),
        (''previous_status'', JString (rr_previous_status r)), (''recovered_status'', JString (rr_recovered_status r)),
        (''rewound_to_schedule_idx'', jnat (rr_rewound_to_schedule_idx r)),
        (''active_trials_released'', jnat (rr_active_trials_released r)),
        (''label_drift_containers_removed'', jnat (rr_label_drift_containers_removed r)),
        (''committed_slots_verified'', jnat (rr_committed_slots_verified r)),
        (''notes'', JArray
          [JString (''engine lease adopted for run '' @ rr_run_id r),
           JString (''committed slots verified '' @ show_nat (rr_committed_slots_verified r)),
           JString ''active trials reconciled and released'']),
        (''recovered_at'', JString now)]"

definition recover_run_locked :: "recovery_env \<Rightarrow> bool \<Rightarrow> recover_result recovery_op" where
  "recover_run_locked env force =
     obind (load_recovery_plan env) (\<lambda>plan.
     obind (on_engine_lease (adopt_engine_lease_for_recovery (cn_lease (rn_control env)) (rn_moment env)
       (rp_run_id plan) force)) (\<lambda>_.
     obind (recover_slots env plan) (\<lambda>_.
     obind (recover_active_trials env plan) (\<lambda>active.
     let (progress, rewound_to) = reconcile_progress (rp_committed plan) (cn_now (rn_control env)) (rp_progress plan)
     in obind (recover_trials env plan (sp_next_schedule_index progress) active) (\<lambda>(released, runtime_released).
        obind (if runtime_released > 0 then on_run_trials (cleanup_local_docker_run_runtime (rn_trials env))
               else oreturn 0) (\<lambda>removed.
        obind (store_progress env (rp_run_id plan) progress) (\<lambda>_.
        obind (on_control (write_run_control (rn_control env) (rp_run_id plan) (rp_recovered plan) [] None)) (\<lambda>_.
        let res = \<lparr>rr_run_id = rp_run_id plan, rr_previous_status = rp_previous plan,
              rr_recovered_status = rp_recovered plan, rr_rewound_to_schedule_idx = rewound_to,
              rr_active_trials_released = released, rr_label_drift_containers_removed = removed,
              rr_committed_slots_verified = length (sp_completed_slots progress)\<rparr>
        in obind (recovery_io env WriteReport) (\<lambda>_.
           obind (omodify (\<lambda>w. w\<lparr>rw_report := Some (recovery_report res (cn_now (rn_control env)))\<rparr>)) (\<lambda>_.
           oreturn res))))))))))"

definition recover_run :: "recovery_env \<Rightarrow> bool \<Rightarrow> recover_result recovery_op" where
  "recover_run env force w =
     (let lease_env = cn_lease (rn_control env); set_lease = (\<lambda>l w. w\<lparr>rw_control := (rw_control w)\<lparr>cw_lease := l\<rparr>\<rparr>)
      in case acquire_run_operation_lease lease_env (rn_moment env) OpRecover (cw_lease (rw_control w)) of
           (Inl e, l) \<Rightarrow> (Err (RecLease e), set_lease l w)
         | (Inr operation_id, l) \<Rightarrow>
             (case recover_run_locked env force (set_lease l w) of
                (r, w) \<Rightarrow> (r, set_lease (drop_operation_lease lease_env operation_id (cw_lease (rw_control w))) w)))"

section \<open>Releases\<close>

text \<open>Between two stores, slots of one run were released and nothing else happened to the slot table, the
  journal and the progress.\<close>

definition only_releases :: "string \<Rightarrow> recovery_world \<Rightarrow> recovery_world \<Rightarrow> bool" where
  "only_releases run_id w w' \<longleftrightarrow>
     st_journal (rw_store w') = st_journal (rw_store w) \<and> st_progress (rw_store w') = st_progress (rw_store w) \<and>
     (\<forall>k. st_slots (rw_store w') k = st_slots (rw_store w) k \<or>
       (\<exists>r. st_slots (rw_store w) k = Some r \<and> ssr_state r \<noteq> SlotCommitted \<and>
         st_slots (rw_store w') k = Some (released_slot r) \<and> fst k = run_id))"

lemma only_releasesD:
  assumes "only_releases run_id w w'"
  shows "st_slots (rw_store w') k = st_slots (rw_store w) k \<or>
    (\<exists>r. st_slots (rw_store w) k = Some r \<and> ssr_state r \<noteq> SlotCommitted \<and>
      st_slots (rw_store w') k = Some (released_slot r) \<and> fst k = run_id)"
    "st_journal (rw_store w') = st_journal (rw_store w)" "st_progress (rw_store w') = st_progress (rw_store w)"
  using assms unfolding only_releases_def by blast+

lemma released_slot_idem: "released_slot (released_slot r) = released_slot r" "ssr_state (released_slot r) = SlotPending"
  by (simp_all add: released_slot_def)

lemma only_releases_refl [simp]: "only_releases run_id w w"
  by (simp add: only_releases_def)

lemma only_releases_trans [trans]:
  assumes "only_releases run_id u v" "only_releases run_id v w"
  shows "only_releases run_id u w"
proof -
  have "st_slots (rw_store w) k = st_slots (rw_store u) k \<or>
      (\<exists>r. st_slots (rw_store u) k = Some r \<and> ssr_state r \<noteq> SlotCommitted \<and>
        st_slots (rw_store w) k = Some (released_slot r) \<and> fst k = run_id)" for k
    using only_releasesD(1) [OF assms(1), of k] only_releasesD(1) [OF assms(2), of k]
    by (cases "st_slots (rw_store u) k") (auto simp: released_slot_idem)
  with only_releasesD(2,3) [OF assms(1)] only_releasesD(2,3) [OF assms(2)]
  show ?thesis unfolding only_releases_def by simp
qed

lemma only_releases_None:
  assumes "only_releases run_id w w'"
  shows "(\<exists>r. st_slots (rw_store w') k = Some r) \<longleftrightarrow> (\<exists>r. st_slots (rw_store w) k = Some r)"
proof (cases "st_slots (rw_store w) k")
  case None
  with only_releasesD(1) [OF assms, of k] show ?thesis by simp
next
  case (Some r)
  with only_releasesD(1) [OF assms, of k] show ?thesis by auto
qed

lemma only_releases_store: "rw_store w' = rw_store w \<Longrightarrow> only_releases run_id w w'"
  by (simp add: only_releases_def)

lemma only_releases_final:
  assumes "only_releases run_id w w'"
  shows "st_slots (rw_store w') k = Some r \<Longrightarrow> ssr_state r = SlotActive \<Longrightarrow> st_slots (rw_store w) k = Some r"
    "st_slots (rw_store w) k = Some r \<Longrightarrow> ssr_state r = SlotCommitted \<Longrightarrow> st_slots (rw_store w') k = Some r"
  using only_releasesD(1) [OF assms, of k] by (auto simp: released_slot_idem)

text \<open>Trial operations leave the store alone.\<close>

lemma on_run_trials_store: "on_run_trials m w = (r, w') \<Longrightarrow> rw_store w' = rw_store w"
  by (auto simp: on_run_trials_def split: prod.splits)

lemma on_control_store: "on_control m w = (r, w') \<Longrightarrow> rw_store w' = rw_store w"
  by (auto simp: on_control_def split: prod.splits)

lemma release_Ok:
  assumes "on_run_store (release_schedule_slot_to_pending io run_id i) w = (Ok u, w')"
  shows "only_releases run_id w w' \<and> (\<forall>r. st_slots (rw_store w') (run_id, i) = Some r \<longrightarrow> ssr_state r \<noteq> SlotActive) \<and>
    (\<forall>k. k \<noteq> (run_id, i) \<longrightarrow> st_slots (rw_store w') k = st_slots (rw_store w) k)"
  using assms
  by (cases "st_slots (rw_store w) (run_id, i)")
    (auto simp: on_run_store_def release_schedule_slot_to_pending_def store_op_simps as_i64_def only_releases_def
      modify_slots_def released_slot_idem split: if_splits prod.splits)

lemma mirror_attempt_Ok: "mirror_attempt env run_id trial_id state w = (Ok u, w') \<Longrightarrow> rw_store w' = rw_store w"
  by (auto simp: mirror_attempt_def obind_eq_Ok dest!: on_run_trials_store)

lemma mark_lost_Ok: "mark_lost env trial_id w = (Ok u, w') \<Longrightarrow> rw_store w' = rw_store w"
  by (auto simp: mark_lost_def obind_eq_Ok oreturn_def dest!: on_run_trials_store)

text \<open>What one successful iteration of each loop does to the slots.\<close>

definition keeps_others :: "string \<Rightarrow> nat \<Rightarrow> recovery_world \<Rightarrow> recovery_world \<Rightarrow> bool" where
  "keeps_others run_id i w w' \<longleftrightarrow> (\<forall>k. k \<noteq> (run_id, i) \<longrightarrow> st_slots (rw_store w') k = st_slots (rw_store w) k)"

definition not_active :: "string \<Rightarrow> nat \<Rightarrow> recovery_world \<Rightarrow> bool" where
  "not_active run_id i w \<longleftrightarrow> (\<forall>r. st_slots (rw_store w) (run_id, i) = Some r \<longrightarrow> ssr_state r \<noteq> SlotActive)"

lemma not_active_later: "not_active run_id i w \<Longrightarrow> only_releases run_id w w' \<Longrightarrow> not_active run_id i w'"
  by (auto simp: not_active_def dest: only_releases_final(1))

definition attempt_lost :: "(nat, slot_commit_record) btree \<Rightarrow> trial_attempt_record \<Rightarrow> bool" where
  "attempt_lost committed attempt \<longleftrightarrow>
     \<not> (case bt_get committed (tar_schedule_idx attempt) of
          Some c \<Rightarrow> scr_trial_id c = tar_trial_id attempt | None \<Rightarrow> False) \<and>
     trial_phase_requires_recovery_release (tar_phase attempt)"

lemma reconcile_attempt_Ok:
  assumes "reconcile_attempt env run_id committed attempt w = (Ok n, w')"
  shows "only_releases run_id w w' \<and>
    (if attempt_lost committed attempt
     then not_active run_id (tar_schedule_idx attempt) w' \<and> keeps_others run_id (tar_schedule_idx attempt) w w'
     else rw_store w' = rw_store w)"
proof (cases "attempt_lost committed attempt")
  case True
  then obtain w1 where "rw_store w1 = rw_store w"
      "on_run_store (release_schedule_slot_to_pending (rn_db env) run_id (tar_schedule_idx attempt)) w1 = (Ok (), w')"
    using assms
    by (auto simp: reconcile_attempt_def attempt_lost_def Let_def obind_eq_Ok oreturn_def
        dest!: on_run_trials_store mirror_attempt_Ok)
  from release_Ok [OF this(2)] this(1) True show ?thesis
    by (simp add: not_active_def keeps_others_def) (simp add: only_releases_def)
next
  case False
  with assms have "rw_store w' = rw_store w"
    by (auto simp: reconcile_attempt_def attempt_lost_def Let_def obind_eq_Ok oreturn_def
        split: if_splits dest!: on_run_trials_store mirror_attempt_Ok)
  with False show ?thesis by (simp add: only_releases_store)
qed

definition trial_lost ::
  "(nat, slot_commit_record) btree \<Rightarrow> nat \<Rightarrow> string set \<Rightarrow> run_control_active_trial \<Rightarrow> nat option" where
  "trial_lost committed next_index runtime_ids active =
     (if rcat_trial_id active \<in> runtime_ids then None
      else case rcat_schedule_idx active of
        None \<Rightarrow> None
      | Some i \<Rightarrow> if i < next_index \<and> bt_get committed i \<noteq> None then None else Some i)"

lemma release_active_trial_Ok:
  assumes "release_active_trial env run_id committed next_index runtime_ids active w = (Ok n, w')"
  shows "only_releases run_id w w' \<and>
    (case trial_lost committed next_index runtime_ids active of
       Some i \<Rightarrow> not_active run_id i w' \<and> keeps_others run_id i w w' | None \<Rightarrow> rw_store w' = rw_store w)"
proof (cases "trial_lost committed next_index runtime_ids active")
  case None
  with assms show ?thesis
    by (auto simp: release_active_trial_def trial_lost_def oreturn_def split: if_splits option.splits)
next
  case (Some i)
  then obtain w1 where "rw_store w1 = rw_store w"
      "on_run_store (release_schedule_slot_to_pending (rn_db env) run_id i) w1 = (Ok (), w')"
    using assms
    by (auto simp: release_active_trial_def trial_lost_def obind_eq_Ok oreturn_def trial_dir_exists_def oget_def
        split: if_splits option.splits dest!: mark_lost_Ok)
  from release_Ok [OF this(2)] this(1) Some show ?thesis
    by (simp add: not_active_def keeps_others_def) (simp add: only_releases_def)
qed

definition slot_lost ::
  "(nat, slot_commit_record) btree \<Rightarrow> string set \<Rightarrow> schedule_slot_record \<Rightarrow> bool" where
  "slot_lost committed runtime_ids slot \<longleftrightarrow>
     bt_get committed (ssr_schedule_idx slot) = None \<and>
     \<not> (case ssr_trial_id slot of Some trial_id \<Rightarrow> trial_id \<in> runtime_ids | None \<Rightarrow> False)"

lemma release_active_slot_Ok:
  assumes "release_active_slot env run_id committed runtime_ids slot w = (Ok n, w')"
  shows "only_releases run_id w w' \<and>
    (if slot_lost committed runtime_ids slot
     then not_active run_id (ssr_schedule_idx slot) w' \<and> keeps_others run_id (ssr_schedule_idx slot) w w'
     else rw_store w' = rw_store w)"
proof (cases "slot_lost committed runtime_ids slot")
  case False
  with assms have "rw_store w' = rw_store w"
    by (auto simp: release_active_slot_def slot_lost_def oreturn_def split: if_splits option.splits)
  with False show ?thesis by (simp add: only_releases_store)
next
  case True
  then obtain w1 where "rw_store w1 = rw_store w"
      "on_run_store (release_schedule_slot_to_pending (rn_db env) run_id (ssr_schedule_idx slot)) w1 = (Ok (), w')"
    using assms
    by (cases "ssr_trial_id slot")
      (auto simp: release_active_slot_def slot_lost_def obind_eq_Ok oreturn_def trial_dir_exists_def oget_def
        split: if_splits dest!: mark_lost_Ok on_run_trials_store)
  from release_Ok [OF this(2)] this(1) True show ?thesis
    by (simp add: not_active_def keeps_others_def) (simp add: only_releases_def)
qed

lemma releasing_loop:
  assumes "\<forall>x s n t. f x s = (Ok n, t) \<longrightarrow> only_releases run_id s t" "osum xs f s = (Ok n, t)"
  shows "only_releases run_id s t"
    "\<forall>x \<in> set xs. \<exists>u k v. only_releases run_id s u \<and> f x u = (Ok k, v) \<and> only_releases run_id v t"
proof -
  have "only_releases run_id s t \<and>
      (\<forall>x \<in> set xs. \<exists>u k v. only_releases run_id s u \<and> f x u = (Ok k, v) \<and> only_releases run_id v t)"
    by (rule osum_trace [OF only_releases_refl only_releases_trans assms(1) assms(2)])
  then show "only_releases run_id s t"
    "\<forall>x \<in> set xs. \<exists>u k v. only_releases run_id s u \<and> f x u = (Ok k, v) \<and> only_releases run_id v t"
    by simp_all
qed

text \<open>The whole of \<open>recover_trials\<close>: only releases, and every lost slot is among them.\<close>

lemma recover_trials_Ok:
  assumes "recover_trials env plan next_index active w = (Ok n, w')"
    and "runtime_ids = tar_trial_id ` set (trial_attempts_for_recovery (cw_trials (rw_control w)) (rp_run_id plan))"
  shows "only_releases (rp_run_id plan) w w' \<and>
    (\<forall>attempt \<in> set (trial_attempts_for_recovery (cw_trials (rw_control w)) (rp_run_id plan)).
       attempt_lost (rp_committed plan) attempt \<longrightarrow> not_active (rp_run_id plan) (tar_schedule_idx attempt) w') \<and>
    (\<exists>v. only_releases (rp_run_id plan) w v \<and>
      (\<forall>slot \<in> set (active_schedule_slots (rw_store v) (rp_run_id plan)).
         slot_lost (rp_committed plan) runtime_ids slot \<longrightarrow> not_active (rp_run_id plan) (ssr_schedule_idx slot) w') \<and>
      only_releases (rp_run_id plan) v w')"
proof -
  let ?run = "rp_run_id plan" and ?c = "rp_committed plan"
  let ?attempts = "trial_attempts_for_recovery (cw_trials (rw_control w)) ?run"
  obtain released u v listed stale where
      1: "osum ?attempts (reconcile_attempt env ?run ?c) w = (Ok released, u)"
    and 2: "osum active (release_active_trial env ?run ?c next_index runtime_ids) u = (Ok listed, v)"
    and 3: "osum (active_schedule_slots (rw_store v) ?run) (release_active_slot env ?run ?c runtime_ids) v = (Ok stale, w')"
    using assms(1)
    by (auto simp: recover_trials_def reconcile_runtime_trials_for_recovery_def Let_def obind_eq_Ok oreturn_def oget_def
        recovery_io_def olift_def ensure_def assms(2) split: if_splits)
  have k1: "\<forall>x s n t. reconcile_attempt env ?run ?c x s = (Ok n, t) \<longrightarrow> only_releases ?run s t"
    by (auto dest: reconcile_attempt_Ok)
  have k2: "\<forall>x s n t. release_active_trial env ?run ?c next_index runtime_ids x s = (Ok n, t) \<longrightarrow> only_releases ?run s t"
    by (auto dest: release_active_trial_Ok)
  have k3: "\<forall>x s n t. release_active_slot env ?run ?c runtime_ids x s = (Ok n, t) \<longrightarrow> only_releases ?run s t"
    by (auto dest: release_active_slot_Ok)
  note r1 = releasing_loop [OF k1 1] and r2 = releasing_loop(1) [OF k2 2] and r3 = releasing_loop [OF k3 3]
  note uw = only_releases_trans [OF r2 r3(1)]
  have "not_active ?run (tar_schedule_idx attempt) w'" if "attempt \<in> set ?attempts" "attempt_lost ?c attempt" for attempt
  proof -
    from r1(2) that(1) obtain s k t where "reconcile_attempt env ?run ?c attempt s = (Ok k, t)" "only_releases ?run t u" by blast
    with reconcile_attempt_Ok [OF this(1)] that(2) uw show ?thesis
      by (auto intro: not_active_later only_releases_trans)
  qed
  moreover have "not_active ?run (ssr_schedule_idx slot) w'"
    if "slot \<in> set (active_schedule_slots (rw_store v) ?run)" "slot_lost ?c runtime_ids slot" for slot
  proof -
    from r3(2) that(1) obtain s k t where "release_active_slot env ?run ?c runtime_ids slot s = (Ok k, t)"
        "only_releases ?run t w'" by blast
    with release_active_slot_Ok [OF this(1)] that(2) show ?thesis by (auto intro: not_active_later)
  qed
  ultimately show ?thesis
    using only_releases_trans [OF r1(1) r2] only_releases_trans [OF r1(1) uw] r3(1) by blast
qed

section \<open>The slot table and the journal\<close>

lemma mark_Ok:
  assumes "on_run_store (mark_schedule_slot_committed io run_id i trial_id attempt sid status) w = (Ok u, w')"
  shows "\<exists>slots. w' = w\<lparr>rw_store := (rw_store w)\<lparr>st_slots := slots\<rparr>\<rparr> \<and>
    slots (run_id, i) = map_option (committed_slot trial_id attempt sid status) (st_slots (rw_store w) (run_id, i)) \<and>
    (\<forall>k. k \<noteq> (run_id, i) \<longrightarrow> slots k = st_slots (rw_store w) k)"
proof -
  obtain r st where m: "mark_schedule_slot_committed io run_id i trial_id attempt sid status (rw_store w) = (r, st)"
    by (cases "mark_schedule_slot_committed io run_id i trial_id attempt sid status (rw_store w)")
  with assms have r: "r = Ok ()" and w': "w' = w\<lparr>rw_store := st\<rparr>" by (cases r; simp add: on_run_store_def)+
  have "st = (rw_store w)\<lparr>st_slots := (case st_slots (rw_store w) (run_id, i) of None \<Rightarrow> st_slots (rw_store w)
      | Some existing \<Rightarrow> (st_slots (rw_store w))((run_id, i) \<mapsto> committed_slot trial_id attempt sid status existing))\<rparr>"
    using m r by (cases "st_slots (rw_store w) (run_id, i)")
      (auto simp: mark_schedule_slot_committed_def store_op_simps as_i64_def split: if_splits)
  then show ?thesis unfolding w'
    by (intro exI [of _ "st_slots st"]) (cases "st_slots (rw_store w) (run_id, i)"; simp)
qed

lemma mark_all_Ok:
  assumes "oforeach entries (\<lambda>(i, c). on_run_store (mark_schedule_slot_committed io run_id i (scr_trial_id c)
      (scr_attempt c) (scr_slot_commit_id c) (scr_slot_status c))) w = (Ok (), w')"
    and "distinct (map fst entries)"
  shows "\<exists>slots. w' = w\<lparr>rw_store := (rw_store w)\<lparr>st_slots := slots\<rparr>\<rparr> \<and>
    (\<forall>i c. (i, c) \<in> set entries \<longrightarrow> slots (run_id, i) = map_option (committed_slot (scr_trial_id c) (scr_attempt c)
      (scr_slot_commit_id c) (scr_slot_status c)) (st_slots (rw_store w) (run_id, i))) \<and>
    (\<forall>j. j \<notin> fst ` set entries \<longrightarrow> slots (run_id, j) = st_slots (rw_store w) (run_id, j))"
  using assms
proof (induction entries arbitrary: w)
  case Nil
  then show ?case by (intro exI [of _ "st_slots (rw_store w)"]) (simp add: oreturn_def)
next
  case (Cons e entries)
  obtain i c where e: "e = (i, c)" by (cases e)
  from Cons.prems obtain v where
      one: "on_run_store (mark_schedule_slot_committed io run_id i (scr_trial_id c) (scr_attempt c)
        (scr_slot_commit_id c) (scr_slot_status c)) w = (Ok (), v)"
    and rest: "oforeach entries (\<lambda>(i, c). on_run_store (mark_schedule_slot_committed io run_id i (scr_trial_id c)
        (scr_attempt c) (scr_slot_commit_id c) (scr_slot_status c))) v = (Ok (), w')"
    by (auto simp: e obind_eq_Ok)
  obtain slots where v: "v = w\<lparr>rw_store := (rw_store w)\<lparr>st_slots := slots\<rparr>\<rparr>"
      "slots (run_id, i) = map_option (committed_slot (scr_trial_id c) (scr_attempt c) (scr_slot_commit_id c)
        (scr_slot_status c)) (st_slots (rw_store w) (run_id, i))"
      "\<forall>k. k \<noteq> (run_id, i) \<longrightarrow> slots k = st_slots (rw_store w) k"
    using mark_Ok [OF one] by blast
  have "distinct (map fst entries)" using Cons.prems(2) by simp
  from Cons.IH [OF rest this] obtain slots' where w': "w' = v\<lparr>rw_store := (rw_store v)\<lparr>st_slots := slots'\<rparr>\<rparr>"
    and in': "\<forall>i c. (i, c) \<in> set entries \<longrightarrow> slots' (run_id, i) = map_option (committed_slot (scr_trial_id c) (scr_attempt c)
      (scr_slot_commit_id c) (scr_slot_status c)) (st_slots (rw_store v) (run_id, i))"
    and out': "\<forall>j. j \<notin> fst ` set entries \<longrightarrow> slots' (run_id, j) = st_slots (rw_store v) (run_id, j)"
    by blast
  have i: "i \<notin> fst ` set entries" using Cons.prems(2) by (simp add: e)
  have "slots' (run_id, i) = slots (run_id, i)" using out' i v(1) by simp
  moreover have "st_slots (rw_store v) (run_id, j) = st_slots (rw_store w) (run_id, j)" if "(j, d) \<in> set entries" for j d
  proof -
    have "j \<noteq> i" using that i by force
    then show ?thesis using v by simp
  qed
  moreover have "slots' (run_id, j) = st_slots (rw_store w) (run_id, j)" if "j \<notin> fst ` set (e # entries)" for j
    using that out' v by (simp add: e)
  ultimately show ?case using v(2) in'
    by (intro exI [of _ slots']) (auto simp: w' v(1) e)
qed

lemma recover_slots_Ok:
  assumes "recover_slots env plan w = (Ok (), w')" "bt_wf (rp_committed plan)"
  shows "\<exists>slots. w' = w\<lparr>rw_store := (rw_store w)\<lparr>st_slots := slots\<rparr>\<rparr> \<and>
    (\<forall>i c. bt_get (rp_committed plan) i = Some c \<longrightarrow>
      slots (rp_run_id plan, i) = map_option (committed_slot (scr_trial_id c) (scr_attempt c)
        (scr_slot_commit_id c) (scr_slot_status c))
        (ensured_slot (rp_run_id plan) (sp_schedule (rp_progress plan)) (rw_store w) (rp_run_id plan, i))) \<and>
    (\<forall>i. bt_get (rp_committed plan) i = None \<longrightarrow>
      slots (rp_run_id plan, i) =
        ensured_slot (rp_run_id plan) (sp_schedule (rp_progress plan)) (rw_store w) (rp_run_id plan, i))"
proof -
  let ?run = "rp_run_id plan"
  define v where "v = w\<lparr>rw_store := (rw_store w)\<lparr>st_slots := ensured_slot ?run (sp_schedule (rp_progress plan)) (rw_store w)\<rparr>\<rparr>"
  have loop: "oforeach (rp_committed plan) (\<lambda>(i, c). on_run_store (mark_schedule_slot_committed (rn_db env) ?run i
      (scr_trial_id c) (scr_attempt c) (scr_slot_commit_id c) (scr_slot_status c))) v = (Ok (), w')"
    using assms(1) unfolding recover_slots_def v_def
    by (auto simp: obind_eq_Ok on_run_store_def map_err_eq_Inr split: prod.splits
        dest!: ensure_schedule_slots_outcome)
  have d: "distinct (map fst (rp_committed plan))" using assms(2) by (simp add: bt_wf_def strict_sorted_iff)
  have mem: "(i, c) \<in> set (rp_committed plan) \<longleftrightarrow> bt_get (rp_committed plan) i = Some c" for i c
    using d by (simp add: bt_get_def)
  have dom: "i \<in> fst ` set (rp_committed plan) \<longleftrightarrow> bt_get (rp_committed plan) i \<noteq> None" for i
    by (simp add: bt_get_def map_of_eq_None_iff)
  from mark_all_Ok [OF loop d] obtain slots where "w' = v\<lparr>rw_store := (rw_store v)\<lparr>st_slots := slots\<rparr>\<rparr>"
    "\<forall>i c. bt_get (rp_committed plan) i = Some c \<longrightarrow> slots (?run, i) = map_option (committed_slot (scr_trial_id c)
      (scr_attempt c) (scr_slot_commit_id c) (scr_slot_status c)) (st_slots (rw_store v) (?run, i))"
    "\<forall>j. j \<notin> fst ` set (rp_committed plan) \<longrightarrow> slots (?run, j) = st_slots (rw_store v) (?run, j)"
    by (auto simp: mem)
  then show ?thesis by (intro exI [of _ slots]) (auto simp: v_def dom)
qed

text \<open>The rebuilt progress is the journal, and the next slot is the first one without a commit.\<close>

lemma sc_schedule_index_commit_completion [simp]: "sc_schedule_index (commit_completion e) = fst e"
  by (simp add: commit_completion_def split: prod.split)

lemma reconcile_progress_result:
  assumes "bt_wf committed" "reconcile_progress committed now progress = (p, rewound)"
  shows "sp_completed_slots p = map commit_completion committed \<and> sp_total_slots p = sp_total_slots progress \<and>
    sp_schema_version p = ''schedule_progress_v2'' \<and>
    sp_next_schedule_index p \<le> sp_total_slots p \<and>
    (\<forall>i < sp_next_schedule_index p. bt_get committed i \<noteq> None) \<and>
    (sp_next_schedule_index p < sp_total_slots p \<longrightarrow> bt_get committed (sp_next_schedule_index p) = None)"
proof -
  let ?completed = "map commit_completion committed"
  have "map sc_schedule_index ?completed = map fst committed" by simp
  then have sorted: "sort_key sc_schedule_index ?completed = ?completed"
    using assms(1) by (intro sort_key_id_if_sorted) (simp add: bt_wf_def strict_sorted_iff comp_def)
  have dom: "i \<in> sc_schedule_index ` set ?completed \<longleftrightarrow> bt_get committed i \<noteq> None" for i
    by (auto simp: bt_get_def map_of_eq_None_iff image_image)
  define n where "n = (case find (\<lambda>i. i \<notin> sc_schedule_index ` set ?completed) [0..<sp_total_slots progress] of
      None \<Rightarrow> sp_total_slots progress | Some i \<Rightarrow> i)"
  have n: "n \<le> sp_total_slots progress \<and> (\<forall>i < n. bt_get committed i \<noteq> None) \<and>
      (n < sp_total_slots progress \<longrightarrow> bt_get committed n = None)"
  proof (cases "find (\<lambda>i. i \<notin> sc_schedule_index ` set ?completed) [0..<sp_total_slots progress]")
    case None
    then have "n = sp_total_slots progress" by (simp add: n_def)
    with None show ?thesis unfolding dom by (simp add: find_None_iff)
  next
    case (Some i)
    then have "n = i" by (simp add: n_def)
    with Some show ?thesis unfolding dom by (auto simp: find_Some_iff)
  qed
  have "sp_completed_slots p = ?completed" "sp_total_slots p = sp_total_slots progress"
      "sp_next_schedule_index p = n" "sp_schema_version p = ''schedule_progress_v2''"
    using assms(2)
    by (auto simp: reconcile_progress_def Let_def sorted n_def split: if_splits cong: option.case_cong)
  with n show ?thesis by simp
qed

lemma store_progress_Ok:
  assumes "store_progress env run_id p w = (Ok (), w')" "sp_schema_version p = ''schedule_progress_v2''"
    and "\<forall>slot \<in> set (sp_completed_slots p). sc_attempt slot \<noteq> 0"
  shows "w' = w\<lparr>rw_store := (rw_store w)\<lparr>st_progress := (st_progress (rw_store w))(run_id \<mapsto> p)\<rparr>\<rparr>"
proof -
  have "map (\<lambda>slot. if sc_attempt slot = 0 then slot\<lparr>sc_attempt := 1\<rparr> else slot) (sp_completed_slots p) = sp_completed_slots p"
    using assms(3) by (simp add: map_idI)
  then have "normalize_schedule_progress p = p" using assms(2) by (simp add: normalize_schedule_progress_def)
  with assms(1) show ?thesis
    by (cases "validate_schedule_progress p")
      (auto simp: store_progress_def write_schedule_progress_def Let_def olift_def on_run_store_def put_schedule_progress_def
        at_point_outcome modify_progress_def omodify_def obind_def ofail_def split: if_splits)
qed

lemma recovery_reads:
  "recovery_io env site w = (Ok u, w') \<Longrightarrow> w' = w"
  "recover_active_trials env plan w = (Ok active, w') \<Longrightarrow> w' = w"
  by (auto simp: recovery_io_def recover_active_trials_def Let_def obind_eq_Ok olift_def oget_def oreturn_def)

lemma check_session_Ok: "check_session env run_id w = (Ok u, w') \<Longrightarrow> w' = w"
  by (auto simp: check_session_def obind_eq_Ok oget_def oreturn_def ofail_def split: option.splits if_splits
      dest!: recovery_reads(1))

lemma recovered_status_Ok:
  "recover_reconciled_status previous = Ok recovered \<Longrightarrow>
   recovered = ''interrupted'' \<and> previous \<in> {''running'', ''paused'', ''interrupted'', ''failed''}"
  unfolding recover_reconciled_status_def by (metis Inl_Inr_False Inr_inject)

lemma on_control_load:
  assumes "on_control (load_run_control cenv) w = (Ok control, w')"
  shows "w' = w \<and> cw_control (rw_control w) = Some control"
proof -
  obtain r c where c: "load_run_control cenv (rw_control w) = (r, c)" by (cases "load_run_control cenv (rw_control w)")
  with assms have "r = Ok control" "w' = w\<lparr>rw_control := c\<rparr>" by (simp_all add: on_control_def map_err_eq_Inr)
  with c load_run_control_Ok [of cenv "rw_control w" control c] show ?thesis by simp
qed

lemma load_plan_Ok:
  assumes "load_recovery_plan env w = (Ok plan, w')"
  shows "w' = w \<and> rp_committed plan = commit_record_by_schedule (load_slot_commit_records (rw_store w) (rp_run_id plan)) \<and>
    rp_recovered plan = ''interrupted'' \<and>
    (\<exists>control. cw_control (rw_control w) = Some control \<and> rp_control plan = control \<and>
       run_control_status (cn_externs (rn_control env)) control = Ok (rp_previous plan)) \<and>
    rp_previous plan \<in> {''running'', ''paused'', ''interrupted'', ''failed''}"
proof -
  let ?ex = "cn_externs (rn_control env)"
  obtain control where control: "cw_control (rw_control w) = Some control" "on_control (load_run_control (rn_control env)) w = (Ok control, w)"
    using assms by (auto simp: load_recovery_plan_def Let_def obind_eq_Ok dest: on_control_load)
  obtain previous recovered run_id where 1: "run_control_status ?ex control = Ok previous"
      "recover_reconciled_status previous = Ok recovered" "require_run_control_run_id ?ex control = Ok run_id"
    using assms control(2)
    by (auto simp: load_recovery_plan_def Let_def obind_eq_Ok olift_def map_err_eq_Inr)
  have plan: "obind (check_session env run_id) (\<lambda>_.
       obind (recovery_io env ReadProgress) (\<lambda>_.
       obind (oget (\<lambda>w. st_progress (rw_store w) run_id)) (\<lambda>stored.
       obind (olift (map_err RecState (load_schedule_progress stored))) (\<lambda>progress.
       obind (recovery_io env ReadJournal) (\<lambda>_.
       obind (oget (\<lambda>w. load_slot_commit_records (rw_store w) run_id)) (\<lambda>records.
       oreturn \<lparr>rp_control = control, rp_previous = previous, rp_recovered = recovered, rp_run_id = run_id,
         rp_progress = progress, rp_committed = commit_record_by_schedule records\<rparr>)))))) w = (Ok plan, w')"
    using assms 1 control(2) by (simp add: load_recovery_plan_def Let_def obind_def [of _ _ w] olift_def)
  have "w' = w \<and> rp_committed plan = commit_record_by_schedule (load_slot_commit_records (rw_store w) run_id) \<and>
      rp_run_id plan = run_id \<and> rp_control plan = control \<and> rp_previous plan = previous \<and> rp_recovered plan = recovered"
    using plan by (auto simp: obind_eq_Ok oget_def oreturn_def olift_def dest!: recovery_reads(1) check_session_Ok)
  with control(1) 1(1) recovered_status_Ok [OF 1(2)] show ?thesis by simp
qed

section \<open>The whole operation\<close>

lemma recover_locked_Ok:
  assumes "recover_run_locked env force w = (Ok res, w')"
  shows "\<exists>plan u v active n t p.
    load_recovery_plan env w = (Ok plan, w) \<and> rw_store u = rw_store w \<and> rw_control u = rw_control w \<and>
    rw_intents u = rw_intents w \<and>
    recover_slots env plan u = (Ok (), v) \<and> recover_active_trials env plan v = (Ok active, v) \<and>
    recover_trials env plan (sp_next_schedule_index p) active v = (Ok n, t) \<and>
    fst (reconcile_progress (rp_committed plan) (cn_now (rn_control env)) (rp_progress plan)) = p \<and>
    (\<exists>t1 t2. rw_store t1 = rw_store t \<and> store_progress env (rp_run_id plan) p t1 = (Ok (), t2) \<and>
      rw_store w' = rw_store t2) \<and>
    cw_control (rw_control w') = Some (run_control_payload (rp_run_id plan) (rp_recovered plan) [] None (cn_now (rn_control env))) \<and>
    cw_run_status (rw_control w') = Some (rp_recovered plan) \<and>
    rr_run_id res = rp_run_id plan \<and> rr_previous_status res = rp_previous plan"
proof -
  obtain plan where plan: "load_recovery_plan env w = (Ok plan, w)"
    using assms by (auto simp: recover_run_locked_def obind_eq_Ok dest: load_plan_Ok)
  obtain p rewound where p: "reconcile_progress (rp_committed plan) (cn_now (rn_control env)) (rp_progress plan) = (p, rewound)"
    by (cases "reconcile_progress (rp_committed plan) (cn_now (rn_control env)) (rp_progress plan)")
  obtain e u where u: "on_engine_lease (adopt_engine_lease_for_recovery (cn_lease (rn_control env)) (rn_moment env)
      (rp_run_id plan) force) w = (Ok e, u)" and after_lease: "obind (recover_slots env plan) (\<lambda>_.
      obind (recover_active_trials env plan) (\<lambda>active.
      obind (recover_trials env plan (sp_next_schedule_index p) active) (\<lambda>(released, runtime_released).
      obind (if runtime_released > 0 then on_run_trials (cleanup_local_docker_run_runtime (rn_trials env))
             else oreturn 0) (\<lambda>removed.
      obind (store_progress env (rp_run_id plan) p) (\<lambda>_.
      obind (on_control (write_run_control (rn_control env) (rp_run_id plan) (rp_recovered plan) [] None)) (\<lambda>_.
      let res = \<lparr>rr_run_id = rp_run_id plan, rr_previous_status = rp_previous plan,
            rr_recovered_status = rp_recovered plan, rr_rewound_to_schedule_idx = rewound,
            rr_active_trials_released = released, rr_label_drift_containers_removed = removed,
            rr_committed_slots_verified = length (sp_completed_slots p)\<rparr>
      in obind (recovery_io env WriteReport) (\<lambda>_.
         obind (omodify (\<lambda>w. w\<lparr>rw_report := Some (recovery_report res (cn_now (rn_control env)))\<rparr>)) (\<lambda>_.
         oreturn res)))))))) u = (Ok res, w')"
    using assms plan by (auto simp: recover_run_locked_def obind_eq_Ok p)
  have u': "rw_store u = rw_store w" "rw_control u = rw_control w" "rw_intents u = rw_intents w"
    using u by (auto simp: on_engine_lease_def split: prod.splits)
  obtain v active v1 released runtime_released t where v: "recover_slots env plan u = (Ok (), v)"
    and active: "recover_active_trials env plan v = (Ok active, v1)"
    and t: "recover_trials env plan (sp_next_schedule_index p) active v1 = (Ok (released, runtime_released), t)"
    and after_trials: "obind (if runtime_released > 0 then on_run_trials (cleanup_local_docker_run_runtime (rn_trials env))
             else oreturn 0) (\<lambda>removed.
      obind (store_progress env (rp_run_id plan) p) (\<lambda>_.
      obind (on_control (write_run_control (rn_control env) (rp_run_id plan) (rp_recovered plan) [] None)) (\<lambda>_.
      let res = \<lparr>rr_run_id = rp_run_id plan, rr_previous_status = rp_previous plan,
            rr_recovered_status = rp_recovered plan, rr_rewound_to_schedule_idx = rewound,
            rr_active_trials_released = released, rr_label_drift_containers_removed = removed,
            rr_committed_slots_verified = length (sp_completed_slots p)\<rparr>
      in obind (recovery_io env WriteReport) (\<lambda>_.
         obind (omodify (\<lambda>w. w\<lparr>rw_report := Some (recovery_report res (cn_now (rn_control env)))\<rparr>)) (\<lambda>_.
         oreturn res))))) t = (Ok res, w')"
    using after_lease by (auto simp: obind_eq_Ok)
  have v1: "v1 = v" by (rule recovery_reads(2) [OF active])
  obtain removed t1 t2 t3 where t1: "rw_store t1 = rw_store t"
    and t2: "store_progress env (rp_run_id plan) p t1 = (Ok (), t2)"
    and t3: "on_control (write_run_control (rn_control env) (rp_run_id plan) (rp_recovered plan) [] None) t2 = (Ok (), t3)"
    and w': "rw_store w' = rw_store t3" "rw_control w' = rw_control t3"
    and res: "rr_run_id res = rp_run_id plan" "rr_previous_status res = rp_previous plan"
    using after_trials
    by (auto simp: obind_eq_Ok Let_def oreturn_def omodify_def split: if_splits
        dest!: recovery_reads(1) on_run_trials_store)
  have "cw_control (rw_control t3) = Some (run_control_payload (rp_run_id plan) (rp_recovered plan) [] None (cn_now (rn_control env)))"
      "cw_run_status (rw_control t3) = Some (rp_recovered plan)" "rw_store t3 = rw_store t2"
    using t3 by (auto simp: on_control_def map_err_eq_Inr split: prod.splits dest!: write_run_control_Ok)
  with plan u' v active t p t1 t2 w' res show ?thesis unfolding v1 by (metis fst_conv)
qed

lemma recover_run_Ok:
  assumes "recover_run env force w = (Ok res, w')"
  shows "\<exists>l v. recover_run_locked env force (w\<lparr>rw_control := (rw_control w)\<lparr>cw_lease := l\<rparr>\<rparr>) = (Ok res, v) \<and>
    rw_store w' = rw_store v \<and> cw_control (rw_control w') = cw_control (rw_control v) \<and>
    cw_run_status (rw_control w') = cw_run_status (rw_control v)"
proof -
  obtain a l where l: "acquire_run_operation_lease (cn_lease (rn_control env)) (rn_moment env) OpRecover
      (cw_lease (rw_control w)) = (a, l)" by fastforce
  obtain r v where v: "recover_run_locked env force (w\<lparr>rw_control := (rw_control w)\<lparr>cw_lease := l\<rparr>\<rparr>) = (r, v)" by fastforce
  from assms l v show ?thesis
    by (cases a) (auto simp: recover_run_def Let_def intro!: exI [of _ l] exI [of _ v])
qed

text \<open>What a successful recovery did to the store, in terms of the state it started from.\<close>

lemma recover_run_store:
  assumes "recover_run env force w = (Ok res, w')"
    and "run_id = rr_run_id res" "committed = commit_record_by_schedule (load_slot_commit_records (rw_store w) run_id)"
  shows "\<exists>plan v active n t p. load_recovery_plan env (w\<lparr>rw_control := rw_control v\<rparr>) = (Ok plan, w\<lparr>rw_control := rw_control v\<rparr>) \<and>
    cw_trials (rw_control v) = cw_trials (rw_control w) \<and> cw_control (rw_control v) = cw_control (rw_control w) \<and>
    rw_intents v = rw_intents w \<and> rp_run_id plan = run_id \<and> rp_committed plan = committed \<and> rp_recovered plan = ''interrupted'' \<and>
    rw_store v = (rw_store w)\<lparr>st_slots := st_slots (rw_store v)\<rparr> \<and>
    (\<forall>i c. bt_get committed i = Some c \<longrightarrow>
      st_slots (rw_store v) (run_id, i) = map_option (committed_slot (scr_trial_id c) (scr_attempt c)
        (scr_slot_commit_id c) (scr_slot_status c)) (ensured_slot run_id (sp_schedule (rp_progress plan)) (rw_store w) (run_id, i))) \<and>
    (\<forall>i. bt_get committed i = None \<longrightarrow>
      st_slots (rw_store v) (run_id, i) = ensured_slot run_id (sp_schedule (rp_progress plan)) (rw_store w) (run_id, i)) \<and>
    recover_active_trials env plan v = (Ok active, v) \<and>
    recover_trials env plan (sp_next_schedule_index p) active v = (Ok n, t) \<and>
    fst (reconcile_progress committed (cn_now (rn_control env)) (rp_progress plan)) = p \<and>
    rw_store w' = (rw_store t)\<lparr>st_progress := (st_progress (rw_store t))(run_id \<mapsto> p)\<rparr> \<and>
    cw_control (rw_control w') = Some (run_control_payload run_id ''interrupted'' [] None (cn_now (rn_control env))) \<and>
    cw_run_status (rw_control w') = Some ''interrupted''"
proof -
  obtain l w1 where locked: "recover_run_locked env force (w\<lparr>rw_control := (rw_control w)\<lparr>cw_lease := l\<rparr>\<rparr>) = (Ok res, w1)"
    and w': "rw_store w' = rw_store w1" "cw_control (rw_control w') = cw_control (rw_control w1)"
      "cw_run_status (rw_control w') = cw_run_status (rw_control w1)"
    using recover_run_Ok [OF assms(1)] by blast
  define w0 where "w0 = w\<lparr>rw_control := (rw_control w)\<lparr>cw_lease := l\<rparr>\<rparr>"
  obtain plan u v active n t p t1 t2 where plan: "load_recovery_plan env w0 = (Ok plan, w0)"
    and u: "rw_store u = rw_store w0" "rw_control u = rw_control w0" "rw_intents u = rw_intents w0"
    and v: "recover_slots env plan u = (Ok (), v)"
    and active: "recover_active_trials env plan v = (Ok active, v)"
    and t: "recover_trials env plan (sp_next_schedule_index p) active v = (Ok n, t)"
    and p: "fst (reconcile_progress (rp_committed plan) (cn_now (rn_control env)) (rp_progress plan)) = p"
    and t1: "rw_store t1 = rw_store t" "store_progress env (rp_run_id plan) p t1 = (Ok (), t2)" "rw_store w1 = rw_store t2"
    and ctl: "cw_control (rw_control w1) = Some (run_control_payload (rp_run_id plan) (rp_recovered plan) [] None (cn_now (rn_control env)))"
      "cw_run_status (rw_control w1) = Some (rp_recovered plan)"
    and res: "rr_run_id res = rp_run_id plan"
    using recover_locked_Ok [OF locked [folded w0_def]] by blast
  note facts = load_plan_Ok [OF plan]
  have c: "rp_committed plan = committed" "rp_run_id plan = run_id"
    using facts res by (simp_all add: assms(2,3) w0_def)
  have wf: "bt_wf (rp_committed plan)" using facts by (simp add: commit_record_by_schedule_wf)
  obtain rewound where rp: "reconcile_progress (rp_committed plan) (cn_now (rn_control env)) (rp_progress plan) = (p, rewound)"
    using p by (metis prod.collapse)
  note prog = reconcile_progress_result [OF wf rp]
  have "\<forall>slot \<in> set (sp_completed_slots p). sc_attempt slot \<noteq> 0"
    using prog by (auto simp: commit_completion_def)
  with store_progress_Ok [OF t1(2)] prog
  have store: "rw_store t2 = (rw_store t1)\<lparr>st_progress := (st_progress (rw_store t1))(rp_run_id plan \<mapsto> p)\<rparr>" by simp
  obtain slots where slots: "v = u\<lparr>rw_store := (rw_store u)\<lparr>st_slots := slots\<rparr>\<rparr>"
    and in_slots: "\<forall>i c. bt_get (rp_committed plan) i = Some c \<longrightarrow> slots (rp_run_id plan, i) =
        map_option (committed_slot (scr_trial_id c) (scr_attempt c) (scr_slot_commit_id c) (scr_slot_status c))
        (ensured_slot (rp_run_id plan) (sp_schedule (rp_progress plan)) (rw_store u) (rp_run_id plan, i))"
    and out_slots: "\<forall>i. bt_get (rp_committed plan) i = None \<longrightarrow> slots (rp_run_id plan, i) =
        ensured_slot (rp_run_id plan) (sp_schedule (rp_progress plan)) (rw_store u) (rp_run_id plan, i)"
    using recover_slots_Ok [OF v wf] by blast
  have v_store: "rw_store v = (rw_store w)\<lparr>st_slots := slots\<rparr>" and u_store: "rw_store u = rw_store w"
    using u(1) by (simp_all add: slots w0_def)
  have "rw_control v = rw_control w0" using u(2) by (simp add: slots)
  then have w0: "w\<lparr>rw_control := rw_control v\<rparr> = w0" "cw_trials (rw_control v) = cw_trials (rw_control w)"
      "cw_control (rw_control v) = cw_control (rw_control w)" "rw_intents v = rw_intents w"
    using u(3) by (simp_all add: w0_def slots)
  show ?thesis
    using plan active t p facts c store t1(1,3) ctl w' in_slots out_slots
    by (intro exI [of _ plan] exI [of _ v] exI [of _ active] exI [of _ n] exI [of _ t] exI [of _ p])
      (simp add: w0 v_store u_store)
qed

text \<open>The attempts considered are those of the run.\<close>

lemma finite_recovery_keys: "attempts_wf t \<Longrightarrow> finite (recovery_keys t run_id)"
proof -
  assume "attempts_wf t"
  then have "finite (dom (tw_attempts t))" by (simp add: attempts_wf_def)
  then have "finite ((\<lambda>(r, trial_id, a). (tar_schedule_idx (the (tw_attempts t (r, trial_id, a))), a, trial_id)) ` dom (tw_attempts t))"
    by simp
  moreover have "recovery_keys t run_id \<subseteq>
      (\<lambda>(r, trial_id, a). (tar_schedule_idx (the (tw_attempts t (r, trial_id, a))), a, trial_id)) ` dom (tw_attempts t)"
    by (force simp: recovery_keys_def)
  ultimately show ?thesis by (rule rev_finite_subset)
qed

lemma attempt_trial_id:
  assumes "attempts_wf t" "tw_attempts t (run_id, trial_id, a) = Some r"
  shows "tar_trial_id r = trial_id"
proof -
  from assms have "r = attempt_record trial_id (tar_state r)" unfolding attempts_wf_def by blast
  then show ?thesis by (metis attempt_record_def trial_attempt_record.select_convs(1))
qed

lemma set_trial_attempts_for_recovery:
  assumes "attempts_wf t"
  shows "r \<in> set (trial_attempts_for_recovery t run_id) \<longleftrightarrow>
    (\<exists>a. tw_attempts t (run_id, tar_trial_id r, a) = Some r)"
proof -
  have "r \<in> set (trial_attempts_for_recovery t run_id) \<longleftrightarrow>
      (\<exists>trial_id a. tw_attempts t (run_id, trial_id, a) = Some r)"
    using finite_recovery_keys [OF assms] by (force simp: trial_attempts_for_recovery_def recovery_keys_def)
  with attempt_trial_id [OF assms] show ?thesis by blast
qed

lemma active_slot_listed:
  assumes "finite (run_slot_indices st run_id)" "st_slots st (run_id, i) = Some r" "ssr_state r = SlotActive"
  shows "r \<in> set (active_schedule_slots st run_id)"
proof -
  have "i \<in> run_slot_indices st run_id" using assms(2) by (force simp: run_slot_indices_def)
  with assms show ?thesis by (force simp: active_schedule_slots_def)
qed

lemma run_slot_indices_alt: "run_slot_indices st run_id = {i. st_slots st (run_id, i) \<noteq> None}"
  by (force simp: run_slot_indices_def)

lemma only_releases_indices: "only_releases run_id w w' \<Longrightarrow> run_slot_indices (rw_store w') r = run_slot_indices (rw_store w) r"
  unfolding run_slot_indices_alt by (intro Collect_cong) (simp add: only_releases_None)

text \<open>A slot that no iteration treats as lost is left as it is.\<close>

lemma osum_keeps:
  assumes "\<forall>x \<in> set xs. \<forall>s n t. f x s = (Ok n, t) \<longrightarrow> P s \<longrightarrow> P t" "osum xs f s = (Ok n, t)" "P s"
  shows "P t"
  using assms
proof (induction xs arbitrary: s n)
  case (Cons x xs)
  then obtain k u m where 1: "f x s = (Ok k, u)" "osum xs f u = (Ok m, t)" by (auto simp: obind_eq_Ok oreturn_def)
  have "P u" using Cons.prems(1,3) 1(1) by simp
  with Cons.IH [OF _ 1(2)] Cons.prems(1) show ?case by simp
qed (simp add: oreturn_def)

lemma set_add_intents: "set (add_intents committed pending active intents) \<subseteq> set active \<union> set intents"
  by (induction committed pending active intents rule: add_intents.induct) (auto split: option.splits if_splits)

lemma recover_active_trials_subset:
  assumes "recover_active_trials env plan w = (Ok active, w')"
  shows "\<exists>listed intents. run_control_active_trials (cn_externs (rn_control env)) (rp_control plan) = Ok listed \<and>
    load_trial_claim_intents (cn_externs (rn_control env)) (rw_intents w) = Ok intents \<and>
    set active \<subseteq> set listed \<union> set intents"
proof -
  obtain listed intents pending where 1: "run_control_active_trials (cn_externs (rn_control env)) (rp_control plan) = Ok listed"
      "load_trial_claim_intents (cn_externs (rn_control env)) (rw_intents w) = Ok intents"
      "active = add_intents (rp_committed plan) pending listed intents"
    using assms by (auto simp: recover_active_trials_def Let_def obind_eq_Ok olift_def oget_def oreturn_def map_err_eq_Inr
        dest!: recovery_reads(1))
  with set_add_intents [of "rp_committed plan" pending listed intents] show ?thesis by blast
qed

lemma recover_trials_keeps:
  assumes "recover_trials env plan next_index active w = (Ok n, w')"
    and "attempts = trial_attempts_for_recovery (cw_trials (rw_control w)) (rp_run_id plan)"
    and "\<forall>attempt \<in> set attempts. tar_schedule_idx attempt = i \<longrightarrow> \<not> attempt_lost (rp_committed plan) attempt"
    and "\<forall>a \<in> set active. rcat_schedule_idx a = Some i \<longrightarrow> rcat_trial_id a \<in> tar_trial_id ` set attempts"
    and "st_slots (rw_store w) (rp_run_id plan, i) = Some slot"
    and "ssr_trial_id slot = Some trial_id" "trial_id \<in> tar_trial_id ` set attempts"
    and "\<forall>j r. st_slots (rw_store w) (rp_run_id plan, j) = Some r \<longrightarrow> ssr_schedule_idx r = j"
  shows "st_slots (rw_store w') (rp_run_id plan, i) = Some slot"
proof -
  let ?run = "rp_run_id plan" and ?c = "rp_committed plan" and ?ids = "tar_trial_id ` set attempts"
  let ?P = "\<lambda>s. st_slots (rw_store s) (?run, i) = Some slot"
  obtain released u v listed stale where
      1: "osum attempts (reconcile_attempt env ?run ?c) w = (Ok released, u)"
    and 2: "osum active (release_active_trial env ?run ?c next_index ?ids) u = (Ok listed, v)"
    and 3: "osum (active_schedule_slots (rw_store v) ?run) (release_active_slot env ?run ?c ?ids) v = (Ok stale, w')"
    using assms(1)
    by (auto simp: recover_trials_def reconcile_runtime_trials_for_recovery_def Let_def obind_eq_Ok oreturn_def oget_def
        recovery_io_def olift_def ensure_def assms(2) split: if_splits)
  have "\<forall>x \<in> set attempts. \<forall>s n t. reconcile_attempt env ?run ?c x s = (Ok n, t) \<longrightarrow> ?P s \<longrightarrow> ?P t"
    using assms(3) by (auto dest!: reconcile_attempt_Ok simp: keeps_others_def split: if_splits)
  then have u: "?P u" by (rule osum_keeps [where P = ?P, OF _ 1 assms(5)])
  have "\<forall>x \<in> set active. \<forall>s n t. release_active_trial env ?run ?c next_index ?ids x s = (Ok n, t) \<longrightarrow> ?P s \<longrightarrow> ?P t"
  proof (intro ballI allI impI)
    fix x s n t
    assume x: "x \<in> set active" and s: "release_active_trial env ?run ?c next_index ?ids x s = (Ok n, t)" "?P s"
    have "trial_lost ?c next_index ?ids x \<noteq> Some i"
      using assms(4) x by (auto simp: trial_lost_def split: if_splits option.splits)
    with release_active_trial_Ok [OF s(1)] s(2) show "?P t"
      by (cases "trial_lost ?c next_index ?ids x") (auto simp: keeps_others_def)
  qed
  then have v: "?P v" by (rule osum_keeps [where P = ?P, OF _ 2 u])
  have k1: "\<forall>x s n t. reconcile_attempt env ?run ?c x s = (Ok n, t) \<longrightarrow> only_releases ?run s t"
    by (auto dest: reconcile_attempt_Ok)
  have k2: "\<forall>x s n t. release_active_trial env ?run ?c next_index ?ids x s = (Ok n, t) \<longrightarrow> only_releases ?run s t"
    by (auto dest: release_active_trial_Ok)
  have wv: "only_releases ?run w v"
    by (rule only_releases_trans [OF releasing_loop(1) [OF k1 1] releasing_loop(1) [OF k2 2]])
  have idx: "ssr_schedule_idx r = j" if "st_slots (rw_store v) (?run, j) = Some r" for j r
    using only_releasesD(1) [OF wv, of "(?run, j)"] that assms(8) by auto
  have "\<forall>x \<in> set (active_schedule_slots (rw_store v) ?run). \<forall>s n t.
      release_active_slot env ?run ?c ?ids x s = (Ok n, t) \<longrightarrow> ?P s \<longrightarrow> ?P t"
  proof (intro ballI allI impI)
    fix x s n t
    assume x: "x \<in> set (active_schedule_slots (rw_store v) ?run)"
      and s: "release_active_slot env ?run ?c ?ids x s = (Ok n, t)" "?P s"
    have "ssr_schedule_idx x = i \<longrightarrow> \<not> slot_lost ?c ?ids x"
    proof
      assume i: "ssr_schedule_idx x = i"
      from x obtain j where j: "st_slots (rw_store v) (?run, j) = Some x"
        by (cases "finite (run_slot_indices (rw_store v) ?run)") (auto simp: active_schedule_slots_def run_slot_indices_alt)
      with idx i have "x = slot" using v by auto
      with assms(6,7) show "\<not> slot_lost ?c ?ids x" by (simp add: slot_lost_def)
    qed
    with release_active_slot_Ok [OF s(1)] s(2) show "?P t" by (auto simp: keeps_others_def split: if_splits)
  qed
  then show ?thesis by (rule osum_keeps [where P = ?P, OF _ 3 v])
qed

lemma paused_slot_kept:
  assumes "recover_run env force w = (Ok res, w')"
    and "run_id = rr_run_id res" "store_inv (rw_store w)" "attempts_wf (cw_trials (rw_control w))"
    and "st_slots (rw_store w) (run_id, i) = Some slot" "ssr_state slot = SlotActive" "ssr_trial_id slot = Some trial_id"
    and "tw_attempts (cw_trials (rw_control w)) (run_id, trial_id, a) = Some attempt"
    and "\<forall>t a attempt. tw_attempts (cw_trials (rw_control w)) (run_id, t, a) = Some attempt \<longrightarrow>
      tar_schedule_idx attempt = i \<longrightarrow> tar_phase attempt = PhPaused"
    and "bt_get (commit_record_by_schedule (load_slot_commit_records (rw_store w) run_id)) i = None"
    and "cw_control (rw_control w) = Some control" "run_control_active_trials (cn_externs (rn_control env)) control = Ok listed"
    and "load_trial_claim_intents (cn_externs (rn_control env)) (rw_intents w) = Ok intents"
    and "\<forall>x \<in> set (listed @ intents). rcat_schedule_idx x = Some i \<longrightarrow> rcat_trial_id x = trial_id"
  shows "\<exists>slot'. st_slots (rw_store w') (run_id, i) = Some slot' \<and> ssr_state slot' = SlotActive \<and>
    ssr_trial_id slot' = Some trial_id"
proof -
  define committed where "committed = commit_record_by_schedule (load_slot_commit_records (rw_store w) run_id)"
  obtain plan v active n t p where load: "load_recovery_plan env (w\<lparr>rw_control := rw_control v\<rparr>) = (Ok plan, w\<lparr>rw_control := rw_control v\<rparr>)"
    and plan: "rp_run_id plan = run_id" "rp_committed plan = committed"
    and same: "cw_trials (rw_control v) = cw_trials (rw_control w)" "cw_control (rw_control v) = cw_control (rw_control w)"
      "rw_intents v = rw_intents w"
    and marked: "\<forall>i c. bt_get committed i = Some c \<longrightarrow>
      st_slots (rw_store v) (run_id, i) = map_option (committed_slot (scr_trial_id c) (scr_attempt c)
        (scr_slot_commit_id c) (scr_slot_status c)) (ensured_slot run_id (sp_schedule (rp_progress plan)) (rw_store w) (run_id, i))"
    and others: "\<forall>i. bt_get committed i = None \<longrightarrow>
      st_slots (rw_store v) (run_id, i) = ensured_slot run_id (sp_schedule (rp_progress plan)) (rw_store w) (run_id, i)"
    and active: "recover_active_trials env plan v = (Ok active, v)"
    and t: "recover_trials env plan (sp_next_schedule_index p) active v = (Ok n, t)"
    and store: "rw_store w' = (rw_store t)\<lparr>st_progress := (st_progress (rw_store t))(run_id \<mapsto> p)\<rparr>"
    using recover_run_store [OF assms(1,2) committed_def] by (elim exE conjE)
  let ?attempts = "trial_attempts_for_recovery (cw_trials (rw_control v)) (rp_run_id plan)"
  obtain slot' where slot': "st_slots (rw_store v) (run_id, i) = Some slot'" "ssr_state slot' = SlotActive"
      "ssr_trial_id slot' = Some trial_id"
  proof -
    have "st_slots (rw_store v) (run_id, i) = ensured_slot run_id (sp_schedule (rp_progress plan)) (rw_store w) (run_id, i)"
      using others assms(10) by (simp add: committed_def)
    with that assms(5,6,7) show thesis
      by (cases "i < length (sp_schedule (rp_progress plan))") (simp_all add: ensured_slot_def)
  qed
  have idx: "\<forall>j r. st_slots (rw_store v) (rp_run_id plan, j) = Some r \<longrightarrow> ssr_schedule_idx r = j"
  proof (intro allI impI)
    fix j r assume r: "st_slots (rw_store v) (rp_run_id plan, j) = Some r"
    have e: "ssr_schedule_idx e = j" if "ensured_slot run_id schedule (rw_store w) (run_id, j) = Some e" for schedule e
      using that store_invD [OF assms(3), of "(run_id, j)"]
      by (auto simp: ensured_slot_def pending_slot_def split: if_splits option.splits)
    show "ssr_schedule_idx r = j"
    proof (cases "bt_get committed j")
      case None
      with others r e show ?thesis by (simp add: plan)
    next
      case (Some c)
      with marked r obtain e' where "ensured_slot run_id (sp_schedule (rp_progress plan)) (rw_store w) (run_id, j) = Some e'"
          "r = committed_slot (scr_trial_id c) (scr_attempt c) (scr_slot_commit_id c) (scr_slot_status c) e'"
        by (auto simp: plan)
      with e show ?thesis by simp
    qed
  qed
  have mem: "attempt \<in> set ?attempts \<longleftrightarrow> (\<exists>a. tw_attempts (cw_trials (rw_control w)) (run_id, tar_trial_id attempt, a) = Some attempt)" for attempt
    unfolding same plan by (rule set_trial_attempts_for_recovery [OF assms(4)])
  have here: "trial_id \<in> tar_trial_id ` set ?attempts"
    using assms(8) attempt_trial_id [OF assms(4,8)] mem by blast
  have "\<forall>x \<in> set ?attempts. tar_schedule_idx x = i \<longrightarrow> \<not> attempt_lost (rp_committed plan) x"
    using assms(9) mem by (auto simp: attempt_lost_def trial_phase_requires_recovery_release_def)
  moreover have "\<forall>x \<in> set active. rcat_schedule_idx x = Some i \<longrightarrow> rcat_trial_id x \<in> tar_trial_id ` set ?attempts"
  proof -
    have "rp_control plan = control" using load_plan_Ok [OF load] assms(11) same(2) by auto
    with recover_active_trials_subset [OF active] assms(12,13) same(3) have "set active \<subseteq> set (listed @ intents)" by auto
    with assms(14) here show ?thesis by blast
  qed
  ultimately have "st_slots (rw_store t) (rp_run_id plan, i) = Some slot'"
    using slot' here idx by (intro recover_trials_keeps [OF t refl]) (simp_all add: plan)
  with slot' show ?thesis by (simp add: store plan)
qed

section \<open>Properties\<close>

text \<open>
  C29: A recovery that succeeds found the run running, paused, interrupted or failed and leaves it
  \<open>interrupted\<close> with no active trials. The progress becomes exactly the commits of the journal, which
  itself is unchanged, and the next slot the first one without a commit; every slot with a commit is
  committed in the slot table under the journal's trial and commit id.
\<close>

theorem recovery_rebuilds_progress:
  assumes "recover_run env force w = (Ok res, w')"
    and "pointer_laws (ex_pointer (cn_externs (rn_control env)))"
    and "run_id = rr_run_id res" "committed = commit_record_by_schedule (load_slot_commit_records (rw_store w) run_id)"
  shows "st_journal (rw_store w') = st_journal (rw_store w) \<and>
    (\<exists>p. st_progress (rw_store w') run_id = Some p \<and> sp_completed_slots p = map commit_completion committed \<and>
      sp_next_schedule_index p \<le> sp_total_slots p \<and>
      (\<forall>i < sp_next_schedule_index p. bt_get committed i \<noteq> None) \<and>
      (sp_next_schedule_index p < sp_total_slots p \<longrightarrow> bt_get committed (sp_next_schedule_index p) = None)) \<and>
    (\<forall>i c r. bt_get committed i = Some c \<longrightarrow> st_slots (rw_store w') (run_id, i) = Some r \<longrightarrow>
      ssr_state r = SlotCommitted \<and> ssr_trial_id r = Some (scr_trial_id c) \<and>
      ssr_slot_commit_id r = Some (scr_slot_commit_id c)) \<and>
    cw_run_status (rw_control w') = Some ''interrupted'' \<and>
    (\<exists>control. cw_control (rw_control w') = Some control \<and>
      run_control_status (cn_externs (rn_control env)) control = Ok ''interrupted'' \<and>
      run_control_active_trial_ids (cn_externs (rn_control env)) control = [])"
proof -
  obtain plan v active n t p where plan: "rp_run_id plan = run_id" "rp_committed plan = committed"
    and v: "rw_store v = (rw_store w)\<lparr>st_slots := st_slots (rw_store v)\<rparr>"
    and marked: "\<forall>i c. bt_get committed i = Some c \<longrightarrow>
      st_slots (rw_store v) (run_id, i) = map_option (committed_slot (scr_trial_id c) (scr_attempt c)
        (scr_slot_commit_id c) (scr_slot_status c)) (ensured_slot run_id (sp_schedule (rp_progress plan)) (rw_store w) (run_id, i))"
    and t: "recover_trials env plan (sp_next_schedule_index p) active v = (Ok n, t)"
    and p: "fst (reconcile_progress committed (cn_now (rn_control env)) (rp_progress plan)) = p"
    and store: "rw_store w' = (rw_store t)\<lparr>st_progress := (st_progress (rw_store t))(run_id \<mapsto> p)\<rparr>"
    and ctl: "cw_control (rw_control w') = Some (run_control_payload run_id ''interrupted'' [] None (cn_now (rn_control env)))"
      "cw_run_status (rw_control w') = Some ''interrupted''"
    using recover_run_store [OF assms(1,3,4)] by blast
  have rel: "only_releases run_id v t" using recover_trials_Ok [OF t refl] by (simp add: plan)
  obtain rewound where "reconcile_progress committed (cn_now (rn_control env)) (rp_progress plan) = (p, rewound)"
    using p by (metis prod.collapse)
  note prog = reconcile_progress_result [OF _ this]
  have "bt_wf committed" by (simp add: assms(4) commit_record_by_schedule_wf)
  note prog = prog [OF this]
  have journal: "st_journal (rw_store w') = st_journal (rw_store w)"
    using only_releasesD(2) [OF rel] arg_cong [OF v, of st_journal] by (simp add: store)
  have slots: "ssr_state r = SlotCommitted \<and> ssr_trial_id r = Some (scr_trial_id c) \<and>
      ssr_slot_commit_id r = Some (scr_slot_commit_id c)"
    if c: "bt_get committed i = Some c" and r: "st_slots (rw_store w') (run_id, i) = Some r" for i c r
  proof -
    have t_slot: "st_slots (rw_store t) (run_id, i) = Some r" using r by (simp add: store)
    then obtain r0 where r0: "st_slots (rw_store v) (run_id, i) = Some r0"
      using only_releases_None [OF rel] by blast
    obtain r1 where r0': "r0 = committed_slot (scr_trial_id c) (scr_attempt c) (scr_slot_commit_id c) (scr_slot_status c) r1"
      using marked c r0 by auto
    then have "r = r0" using only_releases_final(2) [OF rel r0] t_slot by (simp add: committed_slot_def)
    then show ?thesis by (simp add: r0' committed_slot_def)
  qed
  have "run_control_active_trial_ids (cn_externs (rn_control env))
      (run_control_payload run_id ''interrupted'' [] None (cn_now (rn_control env))) = []"
    using payload_trial_ids [OF assms(2), of run_id "''interrupted''" "[]"] by simp
  with journal slots prog ctl payload_status [OF assms(2)] show ?thesis by (simp add: store)
qed


text \<open>
  The slot of a paused trial is still active after a successful recovery, although the run is
  then \<open>interrupted\<close> and lists no active trials: a broker started from that store gets the slot as blocked,
  which it never dispatches and does not count as unfinished.
\<close>

lemma recovery_keeps_paused_slot_active:
  assumes "recover_run env force w = (Ok res, w')"
    and "run_id = rr_run_id res" "store_inv (rw_store w)" "attempts_wf (cw_trials (rw_control w))"
    and "st_slots (rw_store w) (run_id, i) = Some slot" "ssr_state slot = SlotActive" "ssr_trial_id slot = Some trial_id"
    and "tw_attempts (cw_trials (rw_control w)) (run_id, trial_id, a) = Some attempt"
    and "\<forall>t a attempt. tw_attempts (cw_trials (rw_control w)) (run_id, t, a) = Some attempt \<longrightarrow>
      tar_schedule_idx attempt = i \<longrightarrow> tar_phase attempt = PhPaused"
    and "bt_get (commit_record_by_schedule (load_slot_commit_records (rw_store w) run_id)) i = None"
    and "cw_control (rw_control w) = Some control" "run_control_active_trials (cn_externs (rn_control env)) control = Ok listed"
    and "load_trial_claim_intents (cn_externs (rn_control env)) (rw_intents w) = Ok intents"
    and "\<forall>x \<in> set (listed @ intents). rcat_schedule_idx x = Some i \<longrightarrow> rcat_trial_id x = trial_id"
    and "i \<notin> sbr_committed_schedules recovery" "i \<notin> sbr_pending_completion_schedules recovery"
  shows "(\<exists>slot'. st_slots (rw_store w') (run_id, i) = Some slot' \<and> ssr_state slot' = SlotActive \<and>
      ssr_trial_id slot' = Some trial_id) \<and>
    restore_slot_state (rw_store w') run_id recovery i = Ok BBlockedActive"
proof -
  note kept = paused_slot_kept [OF assms(1-14)]
  then have "restore_slot_state (rw_store w') run_id recovery i = Ok BBlockedActive"
    using assms(15,16) by (auto simp: restore_slot_state_def schedule_slot_def)
  with kept show ?thesis by blast
qed

text \<open>A run of two slots: the first one has been committed, the trial of the second one is paused.\<close>

definition two_slots :: "trial_slot list" where
  "two_slots = [mk_slot 0 0 0, mk_slot 1 0 0]"

definition first_commit :: slot_commit_record where
  "first_commit = \<lparr>scr_schema_version = ''slot_commit_v1'', scr_record_type = ''commit'', scr_run_id = ''run'',
     scr_schedule_idx = 0, scr_slot_commit_id = ''slot_a'', scr_trial_id = ''trial_0'', scr_slot_status = ''completed'',
     scr_attempt = 1, scr_recorded_at = ''t0'', scr_expected_rows = None, scr_payload_digest = None,
     scr_written_rows = None, scr_facts_fsync_completed = None, scr_runtime_fsync_completed = None\<rparr>"

definition held_slot :: schedule_slot_record where
  "held_slot = claimed_slot ''trial_1'' ''w1'' ''owner'' None (pending_slot 1 (mk_slot 1 0 0))"

definition paused_state :: trial_attempt_state where
  "paused_state = (new_trial_attempt_state (''trials/trial_1'', ''in'', ''out'') 1 1 (''task'', ''variant'', 0))
     \<lparr>tas_phase := PhPaused, tas_paused_from_phase := Some PhAgentRunning\<rparr>"

definition paused_actives :: "run_control_active_trial list" where
  "paused_actives = [\<lparr>rcat_trial_id = ''trial_1'', rcat_worker_id = ''w1'', rcat_schedule_idx = Some 1,
     rcat_variant_id = ''v'', rcat_started_at = Some ''t0''\<rparr>]"

definition paused_run :: recovery_world where
  "paused_run =
     \<lparr>rw_control =
        \<lparr>cw_lease = NoLease, cw_control = Some (run_control_payload ''run'' ''paused'' paused_actives None ''t0''),
         cw_run_status = Some ''paused'',
         cw_trials = \<lparr>tw_attempts = [(''run'', ''trial_1'', 1) \<mapsto> attempt_record ''trial_1'' paused_state],
           tw_containers = Map.empty, tw_dirs = {''trial_1''}, tw_runtime_files = Map.empty,
           tw_trial_states = Map.empty, tw_docker = []\<rparr>\<rparr>,
      rw_store = empty_store
        \<lparr>st_slots := [(''run'', 0) \<mapsto> pending_slot 0 (mk_slot 0 0 0), (''run'', 1) \<mapsto> held_slot],
         st_journal := [(''run'', 0, 1, ''commit'') \<mapsto> first_commit],
         st_progress := [''run'' \<mapsto> new_schedule_progress ''run'' two_slots ''t0'']\<rparr>,
      rw_engine = NoStoredLease, rw_session = Some ''run'', rw_intents = [], rw_report = None\<rparr>"

definition calm_env :: recovery_env where
  "calm_env = \<lparr>rn_control = sample_control_env, rn_moment = moment 0 0, rn_db = (\<lambda>_. True),
     rn_contracts = \<lparr>contract_commit_record = (\<lambda>_. True), contract_progress = (\<lambda>_. True),
       contract_row = (\<lambda>_. True), contract_pending = (\<lambda>_ _. True)\<rparr>,
     rn_io = (\<lambda>_. True)\<rparr>"

lemma calm_env_simps [simp]:
  "rn_control calm_env = sample_control_env" "rn_moment calm_env = moment 0 0" "rn_db calm_env = (\<lambda>_. True)"
  "rn_io calm_env = (\<lambda>_. True)" "contract_progress (rn_contracts calm_env) = (\<lambda>_. True)"
  "cn_externs sample_control_env = sample_externs" "cn_lease sample_control_env = sample_lease_env"
  "cn_trials sample_control_env = sample_trial_env" "cn_contract sample_control_env = (\<lambda>_. True)"
  "cn_db sample_control_env = (\<lambda>_. True)"
  by (simp_all add: calm_env_def sample_control_env_def)

lemma paused_run_journal:
  assumes "st_journal st = [(''run'', 0, 1, ''commit'') \<mapsto> first_commit]"
  shows "commit_record_by_schedule (load_slot_commit_records st ''run'') = [(0, first_commit)]"
proof -
  have "journal_rank ` {k \<in> dom (st_journal st). fst k = ''run''} = {(0, 1, 1, ''commit'')}"
    by (auto simp: assms journal_rank_def)
  then have "load_slot_commit_records st ''run'' = [first_commit]"
    by (simp add: load_slot_commit_records_def unrank_def assms)
  then show ?thesis by (simp add: commit_record_by_schedule_def first_commit_def)
qed

lemma paused_control_reads:
  assumes "control = run_control_payload ''run'' ''paused'' paused_actives None ''t0''"
  shows "run_control_status sample_externs control = Ok ''paused''"
    "require_run_control_run_id sample_externs control = Ok ''run''"
    "run_control_active_trials sample_externs control = Ok paused_actives"
proof -
  note laws = sample_externs_pointer
  show "run_control_status sample_externs control = Ok ''paused''" by (simp add: assms payload_status [OF laws])
  show "require_run_control_run_id sample_externs control = Ok ''run''"
    by (simp add: assms require_run_control_run_id_def payload_run_id [OF laws] non_blank_def trim_def is_whitespace_def)
  have d: "distinct (map rcat_trial_id paused_actives)" by (simp add: paused_actives_def)
  have "map (stamped ''t0'') paused_actives = paused_actives" by (simp add: paused_actives_def stamped_def)
  moreover have "storable_active_trial a" if "a \<in> set paused_actives" for a
    using that by (simp add: paused_actives_def storable_active_trial_def trim_def is_whitespace_def usize_max_def)
  moreover have "sort_key rcat_trial_id paused_actives = paused_actives" by (simp add: paused_actives_def)
  ultimately show "run_control_active_trials sample_externs control = Ok paused_actives"
    using parse_active_trials_entries [OF laws, of paused_actives "''t0''"]
    by (simp add: assms run_control_active_trials_def payload_entries [OF laws d])
qed

text \<open>Recovering this run succeeds, stage by stage.\<close>

lemma paused_run_plan:
  "\<exists>plan. load_recovery_plan calm_env (paused_run\<lparr>rw_control := (rw_control paused_run)\<lparr>cw_lease := l\<rparr>\<rparr>) =
     (Ok plan, paused_run\<lparr>rw_control := (rw_control paused_run)\<lparr>cw_lease := l\<rparr>\<rparr>) \<and>
     plan = \<lparr>rp_control = run_control_payload ''run'' ''paused'' paused_actives None ''t0'', rp_previous = ''paused'',
       rp_recovered = ''interrupted'', rp_run_id = ''run'',
       rp_progress = new_schedule_progress ''run'' two_slots ''t0'', rp_committed = [(0, first_commit)]\<rparr>"
proof -
  let ?w = "paused_run\<lparr>rw_control := (rw_control paused_run)\<lparr>cw_lease := l\<rparr>\<rparr>"
  define control where "control = run_control_payload ''run'' ''paused'' paused_actives None ''t0''"
  note reads = paused_control_reads [OF control_def]
  have load: "on_control (load_run_control sample_control_env) ?w = (Ok control, ?w)"
  proof -
    have "load_run_control sample_control_env (rw_control ?w) = (Ok control, rw_control ?w)"
      unfolding load_run_control_Ok by (simp add: paused_run_def control_def)
    then show ?thesis by (simp add: on_control_def)
  qed
  have status: "recover_reconciled_status ''paused'' = Ok ''interrupted''" by (simp add: recover_reconciled_status_def)
  have session: "check_session calm_env ''run'' ?w = (Ok (), ?w)"
    by (simp add: check_session_def recovery_io_def op_defs paused_run_def)
  have io: "recovery_io calm_env site v = (Ok (), v)" for site v by (simp add: recovery_io_def olift_def)
  have progress: "load_schedule_progress (st_progress (rw_store paused_run) ''run'') = Ok (new_schedule_progress ''run'' two_slots ''t0'')"
    by (simp add: paused_run_def load_schedule_progress_def new_schedule_progress_def normalize_schedule_progress_def
        validate_schedule_progress_def)
  have journal: "commit_record_by_schedule (load_slot_commit_records (rw_store paused_run) ''run'') = [(0, first_commit)]"
    by (rule paused_run_journal) (simp add: paused_run_def)
  show ?thesis
    unfolding control_def [symmetric]
    by (simp add: load_recovery_plan_def Let_def obind_def load reads status session io progress journal olift_def oget_def
        oreturn_def)
qed

lemma paused_run_slots:
  assumes "rw_store u = rw_store paused_run" "rp_run_id plan = ''run''" "rp_committed plan = [(0, first_commit)]"
    and "sp_schedule (rp_progress plan) = two_slots"
  shows "\<exists>v. recover_slots calm_env plan u = (Ok (), v) \<and> rw_control v = rw_control u \<and> rw_intents v = rw_intents u \<and>
    st_slots (rw_store v) (''run'', 1) = Some held_slot \<and> st_pending (rw_store v) = Map.empty \<and>
    dom (st_slots (rw_store v)) = {(''run'', 0), (''run'', 1)} \<and>
    map_option ssr_state (st_slots (rw_store v) (''run'', 0)) = Some SlotCommitted"
  using assms
  by (simp add: recover_slots_def obind_def on_run_store_def ensure_schedule_slots_def transactional_def two_slots_def
      enumerate_rows_def at_point_outcome as_i64_def modify_slots_def op_defs paused_run_def upsert_schedule_slot_def
      mark_schedule_slot_committed_def schedule_slot_def pending_slot_def held_slot_def claimed_slot_def first_commit_def
      committed_slot_def empty_store_def)

lemma paused_run_trials:
  assumes "cw_trials (rw_control v) = cw_trials (rw_control paused_run)" "rp_run_id plan = ''run''"
    and "rp_committed plan = [(0, first_commit)]" "st_slots (rw_store v) (''run'', 1) = Some held_slot"
    and "dom (st_slots (rw_store v)) = {(''run'', 0), (''run'', 1)}"
    and "map_option ssr_state (st_slots (rw_store v) (''run'', 0)) = Some SlotCommitted"
  shows "recover_trials calm_env plan next_index paused_actives v = (Ok (0, 0), v)"
proof -
  have keys: "recovery_keys (cw_trials (rw_control paused_run)) ''run'' = {(1, 1, ''trial_1'')}"
  proof -
    have "tw_attempts (cw_trials (rw_control paused_run)) = [(''run'', ''trial_1'', 1) \<mapsto> attempt_record ''trial_1'' paused_state]"
      by (simp add: paused_run_def)
    moreover have "tar_schedule_idx (attempt_record ''trial_1'' paused_state) = 1"
      by (simp add: attempt_record_def paused_state_def new_trial_attempt_state_def)
    ultimately show ?thesis by (auto simp: recovery_keys_def split: if_splits)
  qed
  have attempts: "trial_attempts_for_recovery (cw_trials (rw_control v)) ''run'' = [attempt_record ''trial_1'' paused_state]"
    by (simp add: assms(1) trial_attempts_for_recovery_def keys) (simp add: paused_run_def)
  have "run_slot_indices (rw_store v) ''run'' = {0, 1}"
  proof -
    have "i \<in> run_slot_indices (rw_store v) ''run'' \<longleftrightarrow> i = 0 \<or> i = 1" for i
    proof -
      have "i \<in> run_slot_indices (rw_store v) ''run'' \<longleftrightarrow> (''run'', i) \<in> dom (st_slots (rw_store v))"
        by (simp only: run_slot_indices_alt domIff mem_Collect_eq)
      then show ?thesis unfolding assms(5) by simp
    qed
    then show ?thesis by (intro set_eqI) simp
  qed
  then have order: "sorted_list_of_set (run_slot_indices (rw_store v) ''run'') = [0, 1]" by simp
  obtain r0 where r0: "st_slots (rw_store v) (''run'', 0) = Some r0" "ssr_state r0 = SlotCommitted"
    using assms(6) by (cases "st_slots (rw_store v) (''run'', 0)") simp_all
  have held: "ssr_state held_slot = SlotActive" by (simp add: held_slot_def claimed_slot_def)
  have slots: "active_schedule_slots (rw_store v) ''run'' = [held_slot]"
    unfolding active_schedule_slots_def order list.map r0(1) assms(4) option.sel by (simp add: r0(2) held)
  have io: "recovery_io calm_env site w = (Ok (), w)" for site w by (simp add: recovery_io_def olift_def)
  have one: "reconcile_attempt calm_env ''run'' [(0, first_commit)] (attempt_record ''trial_1'' paused_state) v = (Ok 0, v)"
    by (simp add: reconcile_attempt_def attempt_record_def paused_state_def new_trial_attempt_state_def bt_get_def
        trial_phase_requires_recovery_release_def oreturn_def)
  have two: "release_active_trial calm_env ''run'' [(0, first_commit)] next_index {''trial_1''} (hd paused_actives) v = (Ok 0, v)"
    by (simp add: release_active_trial_def paused_actives_def oreturn_def)
  have three: "release_active_slot calm_env ''run'' [(0, first_commit)] {''trial_1''} held_slot v = (Ok 0, v)"
    by (simp add: release_active_slot_def held_slot_def claimed_slot_def pending_slot_def bt_get_def oreturn_def)
  have id: "tar_trial_id (attempt_record ''trial_1'' paused_state) = ''trial_1''" by (simp add: attempt_record_def)
  have list: "paused_actives = [hd paused_actives]" by (simp add: paused_actives_def)
  show ?thesis
    by (subst list) (simp add: recover_trials_def reconcile_runtime_trials_for_recovery_def Let_def obind_def io oget_def
        assms(2,3) attempts one oreturn_def id two slots three)
qed

lemma paused_run_recovers: "\<exists>res w'. recover_run calm_env False paused_run = (Ok res, w') \<and> rr_run_id res = ''run''"
proof -
  obtain oid l where lease: "acquire_run_operation_lease sample_lease_env (moment 0 0) OpRecover NoLease = (Ok oid, l)"
    using healthy_acquire [OF sample_lease_healthy] by blast
  define w where "w = paused_run\<lparr>rw_control := (rw_control paused_run)\<lparr>cw_lease := l\<rparr>\<rparr>"
  obtain plan where plan: "load_recovery_plan calm_env w = (Ok plan, w)"
    and plan_is: "plan = \<lparr>rp_control = run_control_payload ''run'' ''paused'' paused_actives None ''t0'', rp_previous = ''paused'',
       rp_recovered = ''interrupted'', rp_run_id = ''run'',
       rp_progress = new_schedule_progress ''run'' two_slots ''t0'', rp_committed = [(0, first_commit)]\<rparr>"
    using paused_run_plan [of l] unfolding w_def by blast
  obtain e where adopt: "adopt_engine_lease_for_recovery sample_lease_env (moment 0 0) ''run'' False NoStoredLease =
      (Ok e, StoredLease e)"
  proof -
    obtain e where "make_engine_lease sample_lease_env (moment 0 0) ''run'' 1 = Ok e"
      using sample_lease_healthy by (cases "operation_owner_host sample_lease_env")
        (auto simp: healthy_process_def make_engine_lease_def Let_def)
    with that sample_lease_healthy show thesis
      by (simp add: adopt_engine_lease_for_recovery_def load_engine_lease_def lease_op_simps write_engine_lease_outcome
          healthy_process_def)
  qed
  define u where "u = w\<lparr>rw_engine := StoredLease e\<rparr>"
  have engine: "on_engine_lease (adopt_engine_lease_for_recovery sample_lease_env (moment 0 0) ''run'' False) w = (Ok e, u)"
    using adopt by (simp add: on_engine_lease_def u_def w_def paused_run_def)
  have u: "rw_store u = rw_store paused_run" "cw_trials (rw_control u) = cw_trials (rw_control paused_run)" "rw_intents u = []"
    by (simp_all add: u_def w_def paused_run_def)
  obtain v where v: "recover_slots calm_env plan u = (Ok (), v)" "rw_control v = rw_control u" "rw_intents v = rw_intents u"
      "st_slots (rw_store v) (''run'', 1) = Some held_slot" "st_pending (rw_store v) = Map.empty"
      "dom (st_slots (rw_store v)) = {(''run'', 0), (''run'', 1)}"
      "map_option ssr_state (st_slots (rw_store v) (''run'', 0)) = Some SlotCommitted"
    using paused_run_slots [OF u(1), of plan] by (auto simp: plan_is new_schedule_progress_def)
  have active: "recover_active_trials calm_env plan v = (Ok paused_actives, v)"
    by (simp add: recover_active_trials_def Let_def obind_def recovery_io_def olift_def oget_def oreturn_def plan_is
        paused_control_reads(3) [OF refl] load_pending_trial_completions_def v(3,5) u(3) load_trial_claim_intents_def
        sort_active_trials_def)
  have trials: "recover_trials calm_env plan next_index paused_actives v = (Ok (0, 0), v)" for next_index
    by (rule paused_run_trials) (use v u in \<open>simp_all add: plan_is\<close>)
  obtain p rewound where p: "reconcile_progress [(0, first_commit)] (cn_now sample_control_env)
      (new_schedule_progress ''run'' two_slots ''t0'') = (p, rewound)" by fastforce
  have "sp_completed_slots p = [commit_completion (0, first_commit)]"
    using reconcile_progress_result [OF _ p] by (simp add: bt_wf_def)
  then have "validate_schedule_progress (normalize_schedule_progress p) = Ok ()"
    by (simp add: normalize_schedule_progress_def validate_schedule_progress_def commit_completion_def first_commit_def
        trim_def is_whitespace_def)
  then obtain x where store: "store_progress calm_env ''run'' p v = (Ok (), x)"
    by (simp add: store_progress_def write_schedule_progress_def Let_def obind_def olift_def on_run_store_def
        put_schedule_progress_def at_point_outcome modify_progress_def omodify_def)
  obtain y where control: "on_control (write_run_control sample_control_env ''run'' ''interrupted'' [] None) x = (Ok (), y)"
    by (simp add: on_control_def write_run_control_def control_db_def Let_def op_defs)
  have "\<exists>res z. recover_run_locked calm_env False w = (Ok res, z) \<and> rr_run_id res = ''run''"
    by (simp add: recover_run_locked_def obind_def [of _ _ w] plan engine plan_is [symmetric])
      (simp add: obind_def plan_is engine v(1) [unfolded plan_is] active [unfolded plan_is] p trials [unfolded plan_is]
        oreturn_def store control recovery_io_def olift_def omodify_def Let_def)
  then obtain res z where "recover_run_locked calm_env False w = (Ok res, z)" "rr_run_id res = ''run''" by blast
  then show ?thesis
    using lease by (simp add: recover_run_def Let_def w_def) (simp add: paused_run_def)
qed

lemma paused_run_facts:
  "store_inv (rw_store paused_run)" "finite (dom (st_slots (rw_store paused_run)))"
  "attempts_wf (cw_trials (rw_control paused_run))"
  "st_slots (rw_store paused_run) (''run'', 1) = Some held_slot"
  "ssr_state held_slot = SlotActive" "ssr_trial_id held_slot = Some ''trial_1''"
  "tw_attempts (cw_trials (rw_control paused_run)) = [(''run'', ''trial_1'', 1) \<mapsto> attempt_record ''trial_1'' paused_state]"
  "tar_phase (attempt_record ''trial_1'' paused_state) = PhPaused"
  "commit_record_by_schedule (load_slot_commit_records (rw_store paused_run) ''run'') = [(0, first_commit)]"
proof -
  show t: "tw_attempts (cw_trials (rw_control paused_run)) = [(''run'', ''trial_1'', 1) \<mapsto> attempt_record ''trial_1'' paused_state]"
    by (simp add: paused_run_def)
  show "attempts_wf (cw_trials (rw_control paused_run))"
    by (simp add: attempts_wf_def t attempt_record_def paused_state_def new_trial_attempt_state_def split: if_splits)
  show "commit_record_by_schedule (load_slot_commit_records (rw_store paused_run) ''run'') = [(0, first_commit)]"
    by (rule paused_run_journal) (simp add: paused_run_def)
  have "slot_wf (pending_slot 0 (mk_slot 0 0 0))" "slot_wf held_slot"
    by (simp_all add: slot_wf.simps pending_slot_def held_slot_def claimed_slot_def saturating_add_def usize_max_def)
  then show "store_inv (rw_store paused_run)"
    by (simp add: store_inv_def paused_run_def held_slot_def pending_slot_def split: if_splits)
qed (simp_all add: paused_run_def held_slot_def claimed_slot_def attempt_record_def paused_state_def)

lemma paused_run_hypotheses:
  "\<forall>t a attempt. tw_attempts (cw_trials (rw_control paused_run)) (''run'', t, a) = Some attempt \<longrightarrow>
     tar_schedule_idx attempt = 1 \<longrightarrow> tar_phase attempt = PhPaused"
  "tw_attempts (cw_trials (rw_control paused_run)) (''run'', ''trial_1'', 1) = Some (attempt_record ''trial_1'' paused_state)"
  "bt_get (commit_record_by_schedule (load_slot_commit_records (rw_store paused_run) ''run'')) 1 = None"
  "cw_control (rw_control paused_run) = Some (run_control_payload ''run'' ''paused'' paused_actives None ''t0'')"
  "load_trial_claim_intents ex (rw_intents paused_run) = Ok []"
  "\<forall>x \<in> set (paused_actives @ []). rcat_schedule_idx x = Some 1 \<longrightarrow> rcat_trial_id x = ''trial_1''"
  unfolding paused_run_facts(7,9)
  by (simp_all add: paused_run_facts(8) bt_get_def) (simp_all add: paused_run_def load_trial_claim_intents_def
      sort_active_trials_def paused_actives_def)

lemma calm_reads:
  "run_control_active_trials (cn_externs (rn_control calm_env)) (run_control_payload ''run'' ''paused'' paused_actives None ''t0'') =
     Ok paused_actives"
  by (simp add: paused_control_reads(3) [OF refl])

lemma paused_slot_still_active:
  assumes "recover_run calm_env False paused_run = (Ok res, w')" "rr_run_id res = ''run''"
  shows "\<exists>slot'. st_slots (rw_store w') (''run'', 1) = Some slot' \<and> ssr_state slot' = SlotActive \<and>
    ssr_trial_id slot' = Some ''trial_1''"
  by (rule paused_slot_kept [OF assms(1) assms(2) [symmetric] paused_run_facts(1,3,4,5,6) paused_run_hypotheses(2,1,3,4)
    calm_reads paused_run_hypotheses(5,6)])

theorem recovery_rebuilds_progress_witness:
  "\<exists>res w' p. recover_run calm_env False paused_run = (Ok res, w') \<and> st_progress (rw_store w') ''run'' = Some p \<and>
     map sc_slot_commit_id (sp_completed_slots p) = [''slot_a''] \<and> cw_run_status (rw_control w') = Some ''interrupted''"
proof -
  obtain res w' where run: "recover_run calm_env False paused_run = (Ok res, w')" "rr_run_id res = ''run''"
    using paused_run_recovers by blast
  have laws: "pointer_laws (ex_pointer (cn_externs (rn_control calm_env)))" by (simp add: sample_externs_pointer)
  from recovery_rebuilds_progress [OF run(1) laws refl refl]
  obtain p where "st_progress (rw_store w') ''run'' = Some p" "sp_completed_slots p = map commit_completion [(0, first_commit)]"
      "cw_run_status (rw_control w') = Some ''interrupted''"
    unfolding run(2) paused_run_facts(9) by blast
  with run(1) show ?thesis
    by (intro exI [of _ res] exI [of _ w'] exI [of _ p]) (simp add: commit_completion_def first_commit_def)
qed


end
