(* ===== verification/Committer.thy ===== *)
theory Committer
  imports Slot_Broker
begin

text \<open>
  The coordinator's commit path (\<open>lab-runner/src/experiment/commit.rs\<close>): \<open>RunCoordinator\<close>, which
  makes one slot durable, and \<open>DeterministicCommitter\<close>, which deduplicates completions and drains
  them in schedule order. The clock is an argument; each database call of one commit has its own
  outcome, given by \<open>ce_io\<close>; the performance record written after the transaction can fail too
  (\<open>ce_perf_ok\<close>). The best-effort mirrors (run sink, trial runtime state, progress output) only print
  a warning when they fail and are left out.
\<close>

section \<open>Slot completions\<close>

fun replace_completion :: "slot_completion \<Rightarrow> slot_completion list \<Rightarrow> slot_completion list option" where
  "replace_completion completion [] = None"
| "replace_completion completion (slot # slots) =
     (if sc_schedule_index slot = sc_schedule_index completion then Some (completion # slots)
      else map_option ((#) slot) (replace_completion completion slots))"

definition upsert_slot_completion :: "slot_completion \<Rightarrow> schedule_progress \<Rightarrow> schedule_progress" where
  "upsert_slot_completion completion progress =
     (let slots = sp_completed_slots progress;
          slots = (case replace_completion completion slots of
                     Some slots \<Rightarrow> slots
                   | None \<Rightarrow> slots @ [completion])
      in progress\<lparr>sp_completed_slots := sort_key sc_schedule_index slots\<rparr>)"

section \<open>Committing one slot\<close>

datatype commit_stage = IntentStage | EnsureStage | TransactionStage

record commit_env =
  ce_externs :: externs
  ce_contracts :: schema_contracts
  ce_io :: "nat \<Rightarrow> commit_stage \<Rightarrow> db_point \<Rightarrow> bool"
  ce_perf_ok :: "nat \<Rightarrow> bool"
  ce_now :: string

datatype commit_error = StoreFault store_error | PerfRecordFault nat

record commit_state =
  cms_store :: run_store
  cms_progress :: schedule_progress
  cms_trial_index :: nat
  cms_pruned_variants :: "nat set"
  cms_consecutive_failures :: "(nat, nat) btree"

type_synonym 'a commit_op = "(commit_state, commit_error, 'a) op"

definition on_store :: "'a store_op \<Rightarrow> 'a commit_op" where
  "on_store m s = (case m (cms_store s) of (r, st) \<Rightarrow> (map_err StoreFault r, s\<lparr>cms_store := st\<rparr>))"

definition empty_counts :: slot_commit_row_counts where
  "empty_counts = \<lparr>rc_trials = 0, rc_metrics = 0, rc_events = 0, rc_contract_stages = 0,
     rc_variant_snapshots = 0, rc_evidence = 0, rc_chain_states = 0, rc_conclusions = 0,
     rc_predictions = 0, rc_scores = 0\<rparr>"

definition expected_row_counts :: "trial_execution_result \<Rightarrow> slot_commit_row_counts" where
  "expected_row_counts result =
     \<lparr>rc_trials = length (ter_deferred_trial_records result),
      rc_metrics = length (ter_deferred_metric_rows result),
      rc_events = length (ter_deferred_event_rows result),
      rc_contract_stages = length (ter_deferred_contract_stage_rows result),
      rc_variant_snapshots = length (ter_deferred_variant_snapshot_rows result),
      rc_evidence = length (ter_deferred_evidence_records result),
      rc_chain_states = length (ter_deferred_chain_state_records result),
      rc_conclusions = length (ter_deferred_trial_conclusion_records result),
      rc_predictions = 0, rc_scores = 0\<rparr>"

definition intent_record ::
  "string \<Rightarrow> nat \<Rightarrow> string \<Rightarrow> string \<Rightarrow> string \<Rightarrow> nat \<Rightarrow> string \<Rightarrow> slot_commit_row_counts \<Rightarrow> string \<Rightarrow>
   slot_commit_record" where
  "intent_record run_id i sid trial_id status attempt now counts payload_digest =
     \<lparr>scr_schema_version = ''slot_commit_record_v1'', scr_record_type = ''intent'', scr_run_id = run_id,
      scr_schedule_idx = i, scr_slot_commit_id = sid, scr_trial_id = trial_id,
      scr_slot_status = status, scr_attempt = attempt, scr_recorded_at = now,
      scr_expected_rows = Some counts, scr_payload_digest = Some payload_digest,
      scr_written_rows = None, scr_facts_fsync_completed = None, scr_runtime_fsync_completed = None\<rparr>"

definition commit_record ::
  "string \<Rightarrow> nat \<Rightarrow> string \<Rightarrow> string \<Rightarrow> string \<Rightarrow> nat \<Rightarrow> string \<Rightarrow> slot_commit_row_counts \<Rightarrow>
   slot_commit_record" where
  "commit_record run_id i sid trial_id status attempt now counts =
     \<lparr>scr_schema_version = ''slot_commit_record_v1'', scr_record_type = ''commit'', scr_run_id = run_id,
      scr_schedule_idx = i, scr_slot_commit_id = sid, scr_trial_id = trial_id,
      scr_slot_status = status, scr_attempt = attempt, scr_recorded_at = now,
      scr_expected_rows = None, scr_payload_digest = None, scr_written_rows = Some counts,
      scr_facts_fsync_completed = Some True, scr_runtime_fsync_completed = Some True\<rparr>"

definition completed_progress :: "slot_completion \<Rightarrow> schedule_progress \<Rightarrow> schedule_progress" where
  "completed_progress completion progress =
     (let next = upsert_slot_completion completion progress
      in next\<lparr>sp_next_schedule_index :=
           max (sp_next_schedule_index next) (saturating_add (sc_schedule_index completion) 1)\<rparr>)"

definition schedule_get :: "trial_slot list \<Rightarrow> nat \<Rightarrow> trial_slot option" where
  "schedule_get schedule i = (if i < length schedule then Some (schedule ! i) else None)"

definition skipped_payload :: "nat \<Rightarrow> json" where
  "skipped_payload i = json_object [(''schedule_idx'', jnat i), (''status'', JString ''skipped_pruned'')]"

definition skipped_input ::
  "schedule_progress \<Rightarrow> nat \<Rightarrow> nat \<Rightarrow> string \<Rightarrow> string \<Rightarrow> schedule_progress \<Rightarrow>
   slot_commit_transaction_input" where
  "skipped_input progress i attempt sid now next_progress =
     \<lparr>sci_run_id = sp_run_id progress, sci_schedule_idx = i,
      sci_slot = schedule_get (sp_schedule progress) i, sci_trial_id = [], sci_attempt = attempt,
      sci_slot_commit_id = sid, sci_slot_status = ''skipped_pruned'',
      sci_commit_record =
        commit_record (sp_run_id progress) i sid [] ''skipped_pruned'' attempt now empty_counts,
      sci_schedule_progress = next_progress, sci_trial_rows = [], sci_metric_rows = [],
      sci_event_rows = [], sci_contract_stage_rows = [], sci_variant_snapshot_rows = [],
      sci_evidence_rows = [], sci_chain_state_rows = [], sci_trial_conclusion_rows = []\<rparr>"

definition commit_skipped_pruned_slot ::
  "commit_env \<Rightarrow> nat \<Rightarrow> (nat \<rightharpoonup> nat) \<Rightarrow> (nat \<rightharpoonup> nat) commit_op" where
  "commit_skipped_pruned_slot env i slot_attempts =
     obind (oget cms_progress) (\<lambda>progress.
     let run_id = sp_run_id progress;
         attempt = attempt_of slot_attempts i + 1;
         payload_digest = json_digest (ce_externs env) (skipped_payload i);
         sid = make_slot_commit_id (ce_externs env) run_id i attempt payload_digest;
         next_progress = normalize_schedule_progress
           ((completed_progress \<lparr>sc_schedule_index = i, sc_trial_id = [], sc_status = ''skipped_pruned'',
               sc_slot_commit_id = sid, sc_attempt = attempt\<rparr> progress)\<lparr>sp_updated_at := ce_now env\<rparr>)
     in
     obind (on_store (append_slot_commit_record (ce_io env i IntentStage) (ce_contracts env)
       (intent_record run_id i sid [] ''skipped_pruned'' attempt (ce_now env) empty_counts payload_digest))) (\<lambda>_.
     obind (on_store (ensure_schedule_slots (ce_io env i EnsureStage) run_id (sp_schedule progress))) (\<lambda>_.
     obind (on_store (commit_schedule_slot_transaction (ce_io env i TransactionStage) (ce_externs env)
       (ce_contracts env) (skipped_input progress i attempt sid (ce_now env) next_progress))) (\<lambda>_.
     obind (omodify (\<lambda>s. s\<lparr>cms_progress := next_progress\<rparr>)) (\<lambda>_.
     oreturn (slot_attempts(i \<mapsto> attempt)))))))"

text \<open>The failure streak of a variant, and the pruning it triggers.\<close>

definition next_consecutive_failures ::
  "trial_execution_result \<Rightarrow> (nat, nat) btree \<Rightarrow> (nat, nat) btree" where
  "next_consecutive_failures result failures =
     (case ter_variant_idx result of
        None \<Rightarrow> failures
      | Some v \<Rightarrow>
          if ter_slot_status result = ''completed'' then bt_insert v 0 failures
          else bt_insert v (count_of failures v + 1) failures)"

definition next_pruned_variants ::
  "nat option \<Rightarrow> trial_execution_result \<Rightarrow> (nat, nat) btree \<Rightarrow> nat set \<Rightarrow> nat set" where
  "next_pruned_variants max_failures result next_failures pruned =
     (case ter_variant_idx result of
        None \<Rightarrow> pruned
      | Some v \<Rightarrow>
          (case max_failures of
             None \<Rightarrow> pruned
           | Some max_failures \<Rightarrow>
               if max_failures \<le> count_of next_failures v then insert v pruned else pruned))"

definition trial_input ::
  "schedule_progress \<Rightarrow> nat \<Rightarrow> nat \<Rightarrow> string \<Rightarrow> string \<Rightarrow> trial_execution_result \<Rightarrow> schedule_progress \<Rightarrow>
   slot_commit_transaction_input" where
  "trial_input progress i attempt sid now result next_progress =
     (let run_id = sp_run_id progress in
      \<lparr>sci_run_id = run_id, sci_schedule_idx = i, sci_slot = schedule_get (sp_schedule progress) i,
       sci_trial_id = ter_trial_id result, sci_attempt = attempt, sci_slot_commit_id = sid,
       sci_slot_status = ter_slot_status result,
       sci_commit_record = commit_record run_id i sid (ter_trial_id result) (ter_slot_status result)
         attempt now (expected_row_counts result),
       sci_schedule_progress = next_progress,
       sci_trial_rows = annotate_slot_rows (ter_deferred_trial_records result) i sid attempt,
       sci_metric_rows = annotate_slot_rows (ter_deferred_metric_rows result) i sid attempt,
       sci_event_rows = annotate_slot_rows (ter_deferred_event_rows result) i sid attempt,
       sci_contract_stage_rows =
         annotate_slot_rows (ter_deferred_contract_stage_rows result) i sid attempt,
       sci_variant_snapshot_rows =
         annotate_slot_rows (ter_deferred_variant_snapshot_rows result) i sid attempt,
       sci_evidence_rows = annotate_value_rows (ter_deferred_evidence_records result) run_id i sid attempt,
       sci_chain_state_rows =
         annotate_value_rows (ter_deferred_chain_state_records result) run_id i sid attempt,
       sci_trial_conclusion_rows =
         annotate_value_rows (ter_deferred_trial_conclusion_records result) run_id i sid attempt\<rparr>)"

definition commit_trial_slot ::
  "commit_env \<Rightarrow> nat option \<Rightarrow> nat \<Rightarrow> trial_execution_result \<Rightarrow> (nat \<rightharpoonup> nat) \<Rightarrow>
   (nat \<rightharpoonup> nat) commit_op" where
  "commit_trial_slot env pruning_max_consecutive_failures i result slot_attempts =
     obind (oget id) (\<lambda>s.
     let progress = cms_progress s;
         run_id = sp_run_id progress;
         attempt = attempt_of slot_attempts i + 1;
         payload_digest = slot_commit_payload_digest_for_result (ce_externs env) i result;
         sid = make_slot_commit_id (ce_externs env) run_id i attempt payload_digest;
         failures = next_consecutive_failures result (cms_consecutive_failures s);
         pruned = next_pruned_variants pruning_max_consecutive_failures result failures
           (cms_pruned_variants s);
         next_progress = normalize_schedule_progress
           ((completed_progress \<lparr>sc_schedule_index = i, sc_trial_id = ter_trial_id result,
               sc_status = ter_slot_status result, sc_slot_commit_id = sid, sc_attempt = attempt\<rparr> progress)
             \<lparr>sp_next_trial_index := cms_trial_index s,
              sp_pruned_variants := sorted_list_of_set pruned,
              sp_consecutive_failures := failures,
              sp_updated_at := ce_now env\<rparr>)
     in
     obind (on_store (append_slot_commit_record (ce_io env i IntentStage) (ce_contracts env)
       (intent_record run_id i sid (ter_trial_id result) (ter_slot_status result) attempt (ce_now env)
         (expected_row_counts result) payload_digest))) (\<lambda>_.
     obind (on_store (ensure_schedule_slots (ce_io env i EnsureStage) run_id (sp_schedule progress))) (\<lambda>_.
     obind (on_store (commit_schedule_slot_transaction (ce_io env i TransactionStage) (ce_externs env)
       (ce_contracts env) (trial_input progress i attempt sid (ce_now env) result next_progress))) (\<lambda>_.
     obind (if ce_perf_ok env i then oreturn () else ofail (PerfRecordFault i)) (\<lambda>_.
     obind (omodify (\<lambda>s. s\<lparr>cms_progress := next_progress, cms_consecutive_failures := failures,
       cms_pruned_variants := pruned\<rparr>)) (\<lambda>_.
     oreturn (slot_attempts(i \<mapsto> attempt))))))))"

section \<open>The deterministic committer\<close>

datatype PendingSlotCommit = PendingSkippedPruned | PendingTrial trial_execution_result

record deterministic_committer =
  dc_committed_schedules :: "nat set"
  dc_committed_keys :: "string set"
  dc_pending_by_schedule :: "(nat, PendingSlotCommit) btree"
  dc_slot_attempts :: "nat \<rightharpoonup> nat"

definition commit_key :: "nat \<Rightarrow> string \<Rightarrow> string \<Rightarrow> string" where
  "commit_key i trial_id status = show_nat i @ '':'' @ trial_id @ '':'' @ status"

definition commit_key_for_slot_completion :: "slot_completion \<Rightarrow> string" where
  "commit_key_for_slot_completion slot =
     commit_key (sc_schedule_index slot) (sc_trial_id slot) (sc_status slot)"

definition commit_key_for_record :: "slot_commit_record \<Rightarrow> string" where
  "commit_key_for_record record =
     commit_key (scr_schedule_idx record) (scr_trial_id record) (scr_slot_status record)"

fun commit_key_for_pending :: "nat \<Rightarrow> PendingSlotCommit \<Rightarrow> string" where
  "commit_key_for_pending i PendingSkippedPruned = show_nat i @ ''::skipped_pruned''"
| "commit_key_for_pending i (PendingTrial result) =
     commit_key i (ter_trial_id result) (ter_slot_status result)"

definition from_progress :: "schedule_progress \<Rightarrow> slot_commit_record list \<Rightarrow> deterministic_committer" where
  "from_progress progress journal_records =
     (let committed_by_schedule = commit_record_by_schedule journal_records;
          slots = sp_completed_slots progress
      in \<lparr>dc_committed_schedules = set (map sc_schedule_index slots) \<union> set (bt_keys committed_by_schedule),
          dc_committed_keys = set (map commit_key_for_slot_completion slots) \<union>
            set (map (\<lambda>(_, record). commit_key_for_record record) committed_by_schedule),
          dc_pending_by_schedule = [],
          dc_slot_attempts = fold (\<lambda>slot. raise_attempt (sc_schedule_index slot) (sc_attempt slot)) slots
            (highest_attempt_by_schedule journal_records)\<rparr>)"

definition is_committed_schedule :: "nat \<Rightarrow> deterministic_committer \<Rightarrow> bool" where
  "is_committed_schedule i c \<longleftrightarrow> i \<in> dc_committed_schedules c"

definition has_pending :: "deterministic_committer \<Rightarrow> bool" where
  "has_pending c \<longleftrightarrow> dc_pending_by_schedule c \<noteq> []"

datatype committer_error = ConflictAlreadyCommitted nat | ConflictPending nat

definition enqueue ::
  "nat \<Rightarrow> PendingSlotCommit \<Rightarrow> deterministic_committer \<Rightarrow>
   (committer_error, bool \<times> deterministic_committer) result" where
  "enqueue i pending c =
     (let pending_key = commit_key_for_pending i pending in
      if pending_key \<in> dc_committed_keys c then Ok (False, c)
      else if i \<in> dc_committed_schedules c then Err (ConflictAlreadyCommitted i)
      else case bt_get (dc_pending_by_schedule c) i of
        Some existing \<Rightarrow>
          if commit_key_for_pending i existing = pending_key then Ok (False, c)
          else Err (ConflictPending i)
      | None \<Rightarrow>
          Ok (True, c\<lparr>dc_pending_by_schedule := bt_insert i pending (dc_pending_by_schedule c)\<rparr>))"

definition pending_trial_completion_records ::
  "deterministic_committer \<Rightarrow> pending_trial_completion_record list" where
  "pending_trial_completion_records c =
     List.map_filter (\<lambda>(i, pending).
       case pending of
         PendingTrial result \<Rightarrow>
           Some \<lparr>ptc_schema_version = ''pending_trial_completion_v1'', ptc_schedule_idx = i,
                 ptc_trial_result = result\<rparr>
       | PendingSkippedPruned \<Rightarrow> None) (dc_pending_by_schedule c)"

type_synonym drain_state = "deterministic_committer \<times> commit_state"

definition commit_pending ::
  "commit_env \<Rightarrow> nat option \<Rightarrow> nat \<Rightarrow> PendingSlotCommit \<Rightarrow> (nat \<rightharpoonup> nat) \<Rightarrow> (nat \<rightharpoonup> nat) commit_op" where
  "commit_pending env max_failures i pending slot_attempts =
     (case pending of
        PendingSkippedPruned \<Rightarrow> commit_skipped_pruned_slot env i slot_attempts
      | PendingTrial result \<Rightarrow> commit_trial_slot env max_failures i result slot_attempts)"

text \<open>The loop over the indices that were pending when the drain began.\<close>

fun drain_loop ::
  "commit_env \<Rightarrow> nat option \<Rightarrow> nat list \<Rightarrow> nat \<Rightarrow> (drain_state, commit_error, nat) op" where
  "drain_loop env max_failures [] committed s = (Ok committed, s)"
| "drain_loop env max_failures (i # is) committed (c, cs) =
     (case bt_get (dc_pending_by_schedule c) i of
        None \<Rightarrow> drain_loop env max_failures is committed (c, cs)
      | Some pending \<Rightarrow>
          (let c = c\<lparr>dc_pending_by_schedule := bt_remove i (dc_pending_by_schedule c)\<rparr>
           in case commit_pending env max_failures i pending (dc_slot_attempts c) cs of
                (Inl e, cs) \<Rightarrow> (Err e, (c, cs))
              | (Inr attempts, cs) \<Rightarrow>
                  drain_loop env max_failures is (committed + 1)
                    (c\<lparr>dc_slot_attempts := attempts,
                       dc_committed_schedules := insert i (dc_committed_schedules c),
                       dc_committed_keys :=
                         insert (commit_key_for_pending i pending) (dc_committed_keys c)\<rparr>, cs)))"

definition drain_ready ::
  "commit_env \<Rightarrow> nat option \<Rightarrow> (drain_state, commit_error, nat) op" where
  "drain_ready env max_failures s =
     drain_loop env max_failures (bt_keys (dc_pending_by_schedule (fst s))) 0 s"

section \<open>Outcomes of a commit\<close>

lemma on_store_Ok: "on_store m s = (Ok x, s') \<longleftrightarrow> (\<exists>st. m (cms_store s) = (Ok x, st) \<and> s' = s\<lparr>cms_store := st\<rparr>)"
  by (auto simp: on_store_def map_err_def split: prod.splits sum.splits)

lemma on_store_Err:
  "on_store m s = (Err e, s') \<longleftrightarrow> (\<exists>d st. m (cms_store s) = (Err d, st) \<and> e = StoreFault d \<and> s' = s\<lparr>cms_store := st\<rparr>)"
  by (auto simp: on_store_def map_err_def split: prod.splits sum.splits)

lemma append_slot_commit_record_outcome:
  assumes "append_slot_commit_record io contracts record st = (r, st')"
  shows "(\<exists>e. r = Err e) \<and> st' = st \<or>
    r = Ok () \<and> st' = st\<lparr>st_journal := (st_journal st)(journal_key_of record \<mapsto> record)\<rparr>"
  using assms
  by (auto simp: append_slot_commit_record_def upsert_slot_commit_record_def store_op_simps split: if_splits)

text \<open>The three store calls that make one slot durable, as both commit paths perform them.\<close>

definition store_commit ::
  "commit_env \<Rightarrow> nat \<Rightarrow> slot_commit_record \<Rightarrow> string \<Rightarrow> trial_slot list \<Rightarrow> slot_commit_transaction_input \<Rightarrow>
   unit store_op" where
  "store_commit env i intent run_id schedule input =
     obind (append_slot_commit_record (ce_io env i IntentStage) (ce_contracts env) intent) (\<lambda>_.
     obind (ensure_schedule_slots (ce_io env i EnsureStage) run_id schedule) (\<lambda>_.
     commit_schedule_slot_transaction (ce_io env i TransactionStage) (ce_externs env) (ce_contracts env) input))"

lemma store_commit_Ok:
  assumes "store_commit env i intent run_id schedule input st = (Ok (), st')"
  shows "\<exists>existing st2. commit_subject input st2 = Some existing \<and>
    st_slots st2 = ensured_slot run_id schedule st \<and>
    slot_tables st' = committed_tables input existing st2 \<and>
    st_journal st2 = (st_journal st)(journal_key_of intent \<mapsto> intent) \<and>
    st_progress st2 = st_progress st \<and> st_pending st2 = st_pending st"
proof -
  obtain st1 st2 where 1: "append_slot_commit_record (ce_io env i IntentStage) (ce_contracts env) intent st = (Ok (), st1)"
      and 2: "ensure_schedule_slots (ce_io env i EnsureStage) run_id schedule st1 = (Ok (), st2)"
      and 3: "commit_schedule_slot_transaction (ce_io env i TransactionStage) (ce_externs env) (ce_contracts env)
        input st2 = (Ok (), st')"
    using assms by (auto simp: store_commit_def obind_eq_Ok)
  from append_slot_commit_record_outcome [OF 1] ensure_schedule_slots_outcome [OF 2]
  have st2: "st_slots st2 = ensured_slot run_id schedule st"
      "st_journal st2 = (st_journal st)(journal_key_of intent \<mapsto> intent)"
      "st_progress st2 = st_progress st" "st_pending st2 = st_pending st"
    by (auto simp: ensured_slot_def fun_eq_iff)
  with commit_schedule_slot_transaction_Ok [OF 3] show ?thesis by blast
qed

text \<open>A failed commit leaves at most the intent record and the pending rows of missing slots.\<close>

lemma store_commit_Err:
  assumes "store_commit env i intent run_id schedule input st = (Err e, st')"
  shows "st_progress st' = st_progress st \<and> st_pending st' = st_pending st \<and>
    (st_journal st' = st_journal st \<or> st_journal st' = (st_journal st)(journal_key_of intent \<mapsto> intent)) \<and>
    (st_slots st' = st_slots st \<or> st_slots st' = ensured_slot run_id schedule st)"
proof (cases "append_slot_commit_record (ce_io env i IntentStage) (ce_contracts env) intent st")
  case (Pair r1 st1)
  note o1 = append_slot_commit_record_outcome [OF Pair]
  show ?thesis
  proof (cases r1)
    case (Inl d)
    with assms Pair o1 show ?thesis by (auto simp: store_commit_def obind_def)
  next
    case (Inr u)
    obtain r2 st2 where 2: "ensure_schedule_slots (ce_io env i EnsureStage) run_id schedule st1 = (r2, st2)"
      by (cases "ensure_schedule_slots (ce_io env i EnsureStage) run_id schedule st1")
    note o2 = ensure_schedule_slots_outcome [OF 2]
    have "st' = st2"
      using assms Pair Inr 2 commit_schedule_slot_transaction_Err
      by (cases r2) (auto simp: store_commit_def obind_def)
    with o1 o2 Inr show ?thesis by (auto simp: ensured_slot_def fun_eq_iff)
  qed
qed

lemma on_store_bind3:
  "obind (on_store a) (\<lambda>_. obind (on_store b) (\<lambda>_. obind (on_store c) f)) =
   obind (on_store (obind a (\<lambda>_. obind b (\<lambda>_. c)))) f"
  by (rule ext) (auto simp: obind_def on_store_def map_err_def split: prod.splits sum.splits)

section \<open>Completions stay sorted and unique\<close>

definition completions_wf :: "schedule_progress \<Rightarrow> bool" where
  "completions_wf progress \<longleftrightarrow> sorted_wrt (<) (map sc_schedule_index (sp_completed_slots progress))"

lemma replace_completion_None:
  "replace_completion c slots = None \<longleftrightarrow> sc_schedule_index c \<notin> sc_schedule_index ` set slots"
  by (induction slots) auto

lemma replace_completion_Some:
  "replace_completion c slots = Some slots' \<Longrightarrow>
   map sc_schedule_index slots' = map sc_schedule_index slots \<and> c \<in> set slots' \<and>
   set slots' \<subseteq> insert c (set slots) \<and>
   (\<forall>x \<in> set slots. sc_schedule_index x \<noteq> sc_schedule_index c \<longrightarrow> x \<in> set slots')"
  by (induction slots arbitrary: slots') (auto split: if_splits)

lemma upsert_slot_completion_frame [simp]:
  "sp_run_id (upsert_slot_completion c p) = sp_run_id p"
  "sp_schedule (upsert_slot_completion c p) = sp_schedule p"
  "sp_total_slots (upsert_slot_completion c p) = sp_total_slots p"
  "sp_next_schedule_index (upsert_slot_completion c p) = sp_next_schedule_index p"
  by (simp_all add: upsert_slot_completion_def Let_def)

lemma strictly_sorted_sort_key:
  "distinct (map f xs) \<Longrightarrow> sorted_wrt (<) (map f (sort_key f xs))"
  for f :: "'a \<Rightarrow> 'b::linorder"
  by (simp add: strict_sorted_iff) (metis distinct_map distinct_sort set_sort)

lemma upsert_slot_completion_wf:
  assumes "completions_wf p"
  shows "completions_wf (upsert_slot_completion c p)"
    and "set (sp_completed_slots (upsert_slot_completion c p)) =
      insert c {x \<in> set (sp_completed_slots p). sc_schedule_index x \<noteq> sc_schedule_index c}"
proof -
  let ?slots = "sp_completed_slots p" and ?f = sc_schedule_index
  let ?new = "case replace_completion c ?slots of Some slots \<Rightarrow> slots | None \<Rightarrow> ?slots @ [c]"
  have d: "distinct (map ?f ?slots)" using assms by (simp add: completions_wf_def strict_sorted_iff)
  have dn: "distinct (map ?f ?new)"
    using d replace_completion_None [of c ?slots] replace_completion_Some [of c ?slots]
    by (auto split: option.splits)
  have eq: "sp_completed_slots (upsert_slot_completion c p) = sort_key ?f ?new"
    by (simp add: upsert_slot_completion_def Let_def)
  with dn show "completions_wf (upsert_slot_completion c p)"
    by (simp only: completions_wf_def strictly_sorted_sort_key)
  have "set ?new = insert c {x \<in> set ?slots. ?f x \<noteq> ?f c}"
  proof (cases "replace_completion c ?slots")
    case None
    moreover from None have "sc_schedule_index c \<notin> sc_schedule_index ` set ?slots" by (simp add: replace_completion_None)
    ultimately show ?thesis by (auto simp: image_iff)
  next
    case (Some new)
    have "inj_on ?f (set new)" using dn Some by (simp add: distinct_map)
    then have "x = c" if "x \<in> set new" "?f x = ?f c" for x
      using replace_completion_Some [OF Some] that by (auto dest: inj_onD)
    with replace_completion_Some [OF Some] Some show ?thesis by auto
  qed
  with eq show "set (sp_completed_slots (upsert_slot_completion c p)) =
      insert c {x \<in> set ?slots. ?f x \<noteq> ?f c}" by simp
qed

lemma completed_progress_frame [simp]:
  "sp_run_id (completed_progress c p) = sp_run_id p"
  "sp_schedule (completed_progress c p) = sp_schedule p"
  "sp_completed_slots (completed_progress c p) = sp_completed_slots (upsert_slot_completion c p)"
  "sp_next_schedule_index (completed_progress c p) =
     max (sp_next_schedule_index p) (saturating_add (sc_schedule_index c) 1)"
  by (simp_all add: completed_progress_def Let_def)

lemma normalize_completions_wf: "completions_wf (normalize_schedule_progress p) = completions_wf p"
  by (simp add: completions_wf_def)

section \<open>The plan of a commit\<close>

fun pending_trial_id :: "PendingSlotCommit \<Rightarrow> string" where
  "pending_trial_id PendingSkippedPruned = []"
| "pending_trial_id (PendingTrial result) = ter_trial_id result"

fun pending_status :: "PendingSlotCommit \<Rightarrow> string" where
  "pending_status PendingSkippedPruned = ''skipped_pruned''"
| "pending_status (PendingTrial result) = ter_slot_status result"

text \<open>What both paths hand to the store for slot \<open>i\<close>: one identity, in the intent record, in the
  commit record, in the slot row and in the progress.\<close>

fun pending_without_rows :: "PendingSlotCommit \<Rightarrow> bool" where
  "pending_without_rows PendingSkippedPruned = True"
| "pending_without_rows (PendingTrial result) \<longleftrightarrow>
     ter_deferred_trial_records result = [] \<and> ter_deferred_metric_rows result = [] \<and>
     ter_deferred_event_rows result = [] \<and> ter_deferred_contract_stage_rows result = [] \<and>
     ter_deferred_variant_snapshot_rows result = [] \<and> ter_deferred_evidence_records result = [] \<and>
     ter_deferred_chain_state_records result = [] \<and> ter_deferred_trial_conclusion_records result = []"

definition input_without_rows :: "slot_commit_transaction_input \<Rightarrow> bool" where
  "input_without_rows input \<longleftrightarrow>
     sci_trial_rows input = [] \<and> sci_metric_rows input = [] \<and> sci_event_rows input = [] \<and>
     sci_contract_stage_rows input = [] \<and> sci_variant_snapshot_rows input = [] \<and>
     sci_evidence_rows input = [] \<and> sci_chain_state_rows input = [] \<and> sci_trial_conclusion_rows input = []"

lemma write_fact_rows_none: "input_without_rows input \<Longrightarrow> write_fact_rows io ex contracts input st = (Ok (), st)"
  by (simp add: input_without_rows_def write_fact_rows_def op_defs)

definition commit_plan ::
  "nat \<Rightarrow> PendingSlotCommit \<Rightarrow> nat \<Rightarrow> schedule_progress \<Rightarrow> slot_commit_record \<Rightarrow>
   slot_commit_transaction_input \<Rightarrow> bool" where
  "commit_plan i pending attempt progress intent input \<longleftrightarrow>
     journal_key_of intent = (sp_run_id progress, i, attempt, ''intent'') \<and>
     journal_key_of (sci_commit_record input) = (sp_run_id progress, i, attempt, ''commit'') \<and>
     scr_slot_commit_id intent = sci_slot_commit_id input \<and>
     scr_slot_commit_id (sci_commit_record input) = sci_slot_commit_id input \<and>
     scr_trial_id (sci_commit_record input) = pending_trial_id pending \<and>
     scr_slot_status (sci_commit_record input) = pending_status pending \<and>
     sci_run_id input = sp_run_id progress \<and> sci_schedule_idx input = i \<and>
     sci_trial_id input = pending_trial_id pending \<and> sci_slot_status input = pending_status pending \<and>
     sci_attempt input = attempt \<and> (pending_without_rows pending \<longrightarrow> input_without_rows input) \<and>
     (let next = sci_schedule_progress input;
          completion = \<lparr>sc_schedule_index = i, sc_trial_id = pending_trial_id pending,
            sc_status = pending_status pending, sc_slot_commit_id = sci_slot_commit_id input,
            sc_attempt = attempt\<rparr>
      in sp_run_id next = sp_run_id progress \<and> sp_schedule next = sp_schedule progress \<and>
         sp_completed_slots next =
           sp_completed_slots (normalize_schedule_progress (upsert_slot_completion completion progress)) \<and>
         sp_next_schedule_index next = max (sp_next_schedule_index progress) (saturating_add i 1))"

lemma normalize_completed_only:
  "sp_completed_slots p = sp_completed_slots q \<Longrightarrow>
   sp_completed_slots (normalize_schedule_progress p) = sp_completed_slots (normalize_schedule_progress q)"
  by (simp add: normalize_schedule_progress_def)

lemma obind_oget: "obind (oget g) f s = f (g s) s"
  by (simp add: op_defs)

text \<open>The identity, the new progress and the failure counters of one commit.\<close>

definition plan_sid :: "commit_env \<Rightarrow> nat \<Rightarrow> PendingSlotCommit \<Rightarrow> nat \<Rightarrow> schedule_progress \<Rightarrow> string" where
  "plan_sid env i pending attempt progress =
     make_slot_commit_id (ce_externs env) (sp_run_id progress) i attempt
       (case pending of
          PendingSkippedPruned \<Rightarrow> json_digest (ce_externs env) (skipped_payload i)
        | PendingTrial result \<Rightarrow> slot_commit_payload_digest_for_result (ce_externs env) i result)"

fun plan_failures :: "PendingSlotCommit \<Rightarrow> (nat, nat) btree \<Rightarrow> (nat, nat) btree" where
  "plan_failures PendingSkippedPruned failures = failures"
| "plan_failures (PendingTrial result) failures = next_consecutive_failures result failures"

fun plan_pruned :: "nat option \<Rightarrow> PendingSlotCommit \<Rightarrow> (nat, nat) btree \<Rightarrow> nat set \<Rightarrow> nat set" where
  "plan_pruned max_failures PendingSkippedPruned failures pruned = pruned"
| "plan_pruned max_failures (PendingTrial result) failures pruned =
     next_pruned_variants max_failures result (next_consecutive_failures result failures) pruned"

lemma commit_pending_plan:
  "\<exists>intent input.
    commit_plan i pending (attempt_of attempts i + 1) (cms_progress s) intent input \<and>
    commit_pending env max_failures i pending attempts s =
       (case on_store (store_commit env i intent (sp_run_id (cms_progress s)) (sp_schedule (cms_progress s)) input) s of
          (Inl e, s') \<Rightarrow> (Inl e, s')
        | (Inr _, s') \<Rightarrow>
            if pending = PendingSkippedPruned \<or> ce_perf_ok env i
            then (Inr (attempts(i \<mapsto> attempt_of attempts i + 1)),
              s'\<lparr>cms_progress := sci_schedule_progress input,
                 cms_consecutive_failures := plan_failures pending (cms_consecutive_failures s),
                 cms_pruned_variants := plan_pruned max_failures pending (cms_consecutive_failures s)
                   (cms_pruned_variants s)\<rparr>)
            else (Inl (PerfRecordFault i), s'))"
proof -
  let ?p = "cms_progress s" and ?a = "attempt_of attempts i + 1"
  let ?sid = "plan_sid env i pending ?a ?p"
  let ?c = "\<lparr>sc_schedule_index = i, sc_trial_id = pending_trial_id pending, sc_status = pending_status pending,
    sc_slot_commit_id = ?sid, sc_attempt = ?a\<rparr>"
  show ?thesis
  proof (cases pending)
    case PendingSkippedPruned
    let ?next = "normalize_schedule_progress ((completed_progress ?c ?p)\<lparr>sp_updated_at := ce_now env\<rparr>)"
    let ?intent = "intent_record (sp_run_id ?p) i ?sid [] ''skipped_pruned'' ?a (ce_now env) empty_counts
      (json_digest (ce_externs env) (skipped_payload i))"
    let ?input = "skipped_input ?p i ?a ?sid (ce_now env) ?next"
    have "commit_plan i pending ?a ?p ?intent ?input"
      by (simp add: commit_plan_def PendingSkippedPruned intent_record_def commit_record_def skipped_input_def
          input_without_rows_def
          journal_key_of_def Let_def) (rule normalize_completed_only, simp)
    moreover have "commit_pending env max_failures i pending attempts s =
        obind (on_store (store_commit env i ?intent (sp_run_id ?p) (sp_schedule ?p) ?input)) (\<lambda>_.
        obind (omodify (\<lambda>s. s\<lparr>cms_progress := ?next\<rparr>)) (\<lambda>_. oreturn (attempts(i \<mapsto> ?a)))) s"
      by (simp only: commit_pending_def PendingSkippedPruned PendingSlotCommit.case commit_skipped_pruned_slot_def
          obind_oget Let_def on_store_bind3 store_commit_def plan_sid_def pending_trial_id.simps pending_status.simps)
    ultimately show ?thesis
      by (intro exI [of _ ?intent] exI [of _ ?input] conjI)
        (auto simp: PendingSkippedPruned obind_def [of "on_store _"] skipped_input_def op_defs on_store_def map_err_def
          split: prod.splits sum.splits)
  next
    case (PendingTrial result)
    let ?f = "next_consecutive_failures result (cms_consecutive_failures s)"
    let ?pr = "next_pruned_variants max_failures result ?f (cms_pruned_variants s)"
    let ?next = "normalize_schedule_progress ((completed_progress ?c ?p)\<lparr>sp_next_trial_index := cms_trial_index s,
      sp_pruned_variants := sorted_list_of_set ?pr, sp_consecutive_failures := ?f, sp_updated_at := ce_now env\<rparr>)"
    let ?intent = "intent_record (sp_run_id ?p) i ?sid (ter_trial_id result) (ter_slot_status result) ?a (ce_now env)
      (expected_row_counts result) (slot_commit_payload_digest_for_result (ce_externs env) i result)"
    let ?input = "trial_input ?p i ?a ?sid (ce_now env) result ?next"
    have "commit_plan i pending ?a ?p ?intent ?input"
      by (simp add: commit_plan_def PendingTrial intent_record_def commit_record_def trial_input_def
          input_without_rows_def annotate_slot_rows_def annotate_value_rows_def enumerate_rows_def
          journal_key_of_def Let_def) (rule normalize_completed_only, simp)
    moreover have "commit_pending env max_failures i pending attempts s =
        obind (on_store (store_commit env i ?intent (sp_run_id ?p) (sp_schedule ?p) ?input)) (\<lambda>_.
        obind (if ce_perf_ok env i then oreturn () else ofail (PerfRecordFault i)) (\<lambda>_.
        obind (omodify (\<lambda>s. s\<lparr>cms_progress := ?next, cms_consecutive_failures := ?f,
          cms_pruned_variants := ?pr\<rparr>)) (\<lambda>_. oreturn (attempts(i \<mapsto> ?a))))) s"
      by (simp only: commit_pending_def PendingTrial PendingSlotCommit.case commit_trial_slot_def id_apply
          obind_oget Let_def on_store_bind3 store_commit_def plan_sid_def pending_trial_id.simps pending_status.simps)
    ultimately show ?thesis
      by (intro exI [of _ ?intent] exI [of _ ?input] conjI)
        (auto simp: PendingTrial obind_def [of "on_store _"] trial_input_def op_defs on_store_def map_err_def
          Let_def split: prod.splits sum.splits)
  qed
qed

section \<open>Durability\<close>

text \<open>The schedule indices of the run that the store holds as committed.\<close>

definition durable :: "commit_state \<Rightarrow> nat set" where
  "durable s =
     {i. \<exists>r. st_slots (cms_store s) (sp_run_id (cms_progress s), i) = Some r \<and> ssr_state r = SlotCommitted}"

definition committed_in :: "(slot_key \<rightharpoonup> schedule_slot_record) \<Rightarrow> string \<Rightarrow> nat set" where
  "committed_in slots run_id = {i. \<exists>r. slots (run_id, i) = Some r \<and> ssr_state r = SlotCommitted}"

lemma durable_alt: "durable s = committed_in (st_slots (cms_store s)) (sp_run_id (cms_progress s))"
  by (simp add: durable_def committed_in_def)

lemma committed_in_ensured [simp]: "committed_in (ensured_slot run_id schedule st) run = committed_in (st_slots st) run"
  by (auto simp: committed_in_def ensured_slot_def pending_slot_def split: option.splits if_splits)

lemma committed_in_commit:
  "committed_in (slots((run, i) \<mapsto> committed_slot t a c u r)) run = insert i (committed_in slots run)"
  by (auto simp: committed_in_def committed_slot_def split: if_splits)

lemma plan_committed_in:
  assumes "commit_plan i pending a progress intent input"
    and "store_commit env i intent (sp_run_id progress) schedule input st = (Ok (), st')"
  shows "committed_in (st_slots st') (sp_run_id progress) = insert i (committed_in (st_slots st) (sp_run_id progress))"
proof -
  obtain existing st2 where e: "st_slots st2 = ensured_slot (sp_run_id progress) schedule st"
      "slot_tables st' = committed_tables input existing st2"
    using store_commit_Ok [OF assms(2)] by blast
  with assms(1) have "st_slots st' = (ensured_slot (sp_run_id progress) schedule st)((sp_run_id progress, i) \<mapsto>
      committed_slot (sci_trial_id input) (sci_attempt input) (sci_slot_commit_id input) (sci_slot_status input) existing)"
    by (simp add: slot_tables_def committed_tables_def commit_plan_def)
  then show ?thesis by (simp only: committed_in_commit committed_in_ensured)
qed

lemma commit_pending_outcome:
  assumes "commit_pending env max_failures i pending attempts s = (r, s')"
  shows "\<exists>intent input q st.
    commit_plan i pending (attempt_of attempts i + 1) (cms_progress s) intent input \<and>
    store_commit env i intent (sp_run_id (cms_progress s)) (sp_schedule (cms_progress s)) input (cms_store s) =
      (q, st) \<and>
    ((\<exists>d. q = Err d \<and> r = Err (StoreFault d)) \<and> s' = s\<lparr>cms_store := st\<rparr> \<or>
     q = Ok () \<and> r = Err (PerfRecordFault i) \<and> s' = s\<lparr>cms_store := st\<rparr> \<or>
     q = Ok () \<and> r = Ok (attempts(i \<mapsto> attempt_of attempts i + 1)) \<and>
       s' = s\<lparr>cms_store := st, cms_progress := sci_schedule_progress input,
         cms_consecutive_failures := plan_failures pending (cms_consecutive_failures s),
         cms_pruned_variants := plan_pruned max_failures pending (cms_consecutive_failures s)
           (cms_pruned_variants s)\<rparr>)"
proof -
  obtain intent input where plan: "commit_plan i pending (attempt_of attempts i + 1) (cms_progress s) intent input"
    and eq: "commit_pending env max_failures i pending attempts s =
       (case on_store (store_commit env i intent (sp_run_id (cms_progress s)) (sp_schedule (cms_progress s)) input) s of
          (Inl e, s') \<Rightarrow> (Inl e, s')
        | (Inr _, s') \<Rightarrow>
            if pending = PendingSkippedPruned \<or> ce_perf_ok env i
            then (Inr (attempts(i \<mapsto> attempt_of attempts i + 1)),
              s'\<lparr>cms_progress := sci_schedule_progress input,
                 cms_consecutive_failures := plan_failures pending (cms_consecutive_failures s),
                 cms_pruned_variants := plan_pruned max_failures pending (cms_consecutive_failures s)
                   (cms_pruned_variants s)\<rparr>)
            else (Inl (PerfRecordFault i), s'))"
    using commit_pending_plan by blast
  obtain q st where st: "store_commit env i intent (sp_run_id (cms_progress s))
      (sp_schedule (cms_progress s)) input (cms_store s) = (q, st)"
    by (cases "store_commit env i intent (sp_run_id (cms_progress s)) (sp_schedule (cms_progress s)) input (cms_store s)")
  show ?thesis
    using assms eq st plan
    by (intro exI [of _ intent] exI [of _ input] exI [of _ q] exI [of _ st] conjI)
      (auto simp: on_store_def map_err_def split: sum.splits if_splits)
qed

lemma commit_pending_Ok:
  assumes "commit_pending env max_failures i pending attempts s = (Ok attempts', s')"
  shows "durable s' = insert i (durable s) \<and> attempts' = attempts(i \<mapsto> attempt_of attempts i + 1) \<and>
    sp_run_id (cms_progress s') = sp_run_id (cms_progress s) \<and>
    sp_schedule (cms_progress s') = sp_schedule (cms_progress s)"
proof -
  obtain intent input st where plan: "commit_plan i pending (attempt_of attempts i + 1) (cms_progress s) intent input"
    and st: "store_commit env i intent (sp_run_id (cms_progress s)) (sp_schedule (cms_progress s)) input
        (cms_store s) = (Ok (), st)"
    and s': "cms_store s' = st" "cms_progress s' = sci_schedule_progress input"
    and a: "attempts' = attempts(i \<mapsto> attempt_of attempts i + 1)"
    using commit_pending_outcome [OF assms] by auto
  have "sp_run_id (sci_schedule_progress input) = sp_run_id (cms_progress s)"
      "sp_schedule (sci_schedule_progress input) = sp_schedule (cms_progress s)"
    using plan by (simp_all add: commit_plan_def Let_def)
  with plan_committed_in [OF plan st] show ?thesis by (simp add: durable_alt s' a)
qed

lemma commit_pending_Err:
  assumes "commit_pending env max_failures i pending attempts s = (Err e, s')"
  shows "s' = s\<lparr>cms_store := cms_store s'\<rparr> \<and>
    (if e = PerfRecordFault i then durable s' = insert i (durable s)
     else durable s' = durable s \<and> st_progress (cms_store s') = st_progress (cms_store s) \<and>
       st_pending (cms_store s') = st_pending (cms_store s))"
proof -
  obtain intent input q st where plan: "commit_plan i pending (attempt_of attempts i + 1) (cms_progress s) intent input"
    and st: "store_commit env i intent (sp_run_id (cms_progress s)) (sp_schedule (cms_progress s)) input
        (cms_store s) = (q, st)"
    and s': "s' = s\<lparr>cms_store := st\<rparr>"
    and q: "(\<exists>d. q = Err d \<and> e = StoreFault d) \<or> q = Ok () \<and> e = PerfRecordFault i"
    using commit_pending_outcome [OF assms] by auto
  show ?thesis
  proof (cases q)
    case (Inl d)
    from store_commit_Err [OF st [unfolded Inl]] have
      "st_progress st = st_progress (cms_store s)" "st_pending st = st_pending (cms_store s)"
      "committed_in (st_slots st) (sp_run_id (cms_progress s)) =
        committed_in (st_slots (cms_store s)) (sp_run_id (cms_progress s))"
      by auto
    with q Inl show ?thesis by (auto simp: s' durable_alt)
  next
    case (Inr u)
    with st plan_committed_in [OF plan, of env "sp_schedule (cms_progress s)" "cms_store s" st] q
    show ?thesis by (auto simp: s' durable_alt)
  qed
qed

lemma commit_pending_Err_durable:
  "commit_pending env max_failures i pending attempts s = (Err e, s') \<Longrightarrow>
   durable s \<subseteq> durable s' \<and> durable s' \<subseteq> insert i (durable s)"
  using commit_pending_Err [of env max_failures i pending attempts s e s'] by (auto split: if_splits)

section \<open>Draining\<close>

text \<open>One iteration of the drain, on an entry of the snapshot.\<close>

definition commit_step ::
  "commit_env \<Rightarrow> nat option \<Rightarrow> nat \<times> PendingSlotCommit \<Rightarrow> (drain_state, commit_error, unit) op" where
  "commit_step env max_failures entry s =
     (case entry of (i, pending) \<Rightarrow> case s of (c, cs) \<Rightarrow>
        (let c = c\<lparr>dc_pending_by_schedule := bt_remove i (dc_pending_by_schedule c)\<rparr>
         in case commit_pending env max_failures i pending (dc_slot_attempts c) cs of
              (Inl e, cs) \<Rightarrow> (Err e, (c, cs))
            | (Inr attempts, cs) \<Rightarrow>
                (Ok (), (c\<lparr>dc_slot_attempts := attempts,
                     dc_committed_schedules := insert i (dc_committed_schedules c),
                     dc_committed_keys :=
                       insert (commit_key_for_pending i pending) (dc_committed_keys c)\<rparr>, cs))))"

interpretation drain: ledger "commit_step env max_failures" fst "\<lambda>s. durable (snd s)"
  for env max_failures
proof
  fix x :: "nat \<times> PendingSlotCommit" and s s' :: drain_state and e
  obtain i p c cs where x: "x = (i, p)" "s = (c, cs)" by (cases x, cases s)
  show "commit_step env max_failures x s = (Inr (), s') \<Longrightarrow>
      durable (snd s') = insert (fst x) (durable (snd s))"
    by (auto simp: x commit_step_def Let_def split: prod.splits sum.splits dest: commit_pending_Ok)
  show "commit_step env max_failures x s = (Inl e, s') \<Longrightarrow>
      durable (snd s) \<subseteq> durable (snd s') \<and> durable (snd s') \<subseteq> insert (fst x) (durable (snd s))"
    by (auto simp: x commit_step_def Let_def split: prod.splits sum.splits
      dest: commit_pending_Err_durable [THEN conjunct1, THEN subsetD] commit_pending_Err_durable [THEN conjunct2, THEN subsetD])
qed

text \<open>Removing entries while walking the keys is walking a snapshot of the entries.\<close>

lemma drain_loop_each:
  assumes "distinct (map fst xs)" and "\<forall>x \<in> set xs. bt_get (dc_pending_by_schedule c) (fst x) = Some (snd x)"
  shows "drain_loop env max_failures (map fst xs) n (c, cs) =
    (case oforeach xs (commit_step env max_failures) (c, cs) of
       (Inl e, s') \<Rightarrow> (Inl e, s') | (Inr _, s') \<Rightarrow> (Inr (n + length xs), s'))"
  using assms
proof (induction xs arbitrary: c cs n)
  case (Cons x xs)
  obtain i p where x: "x = (i, p)" by (cases x)
  have p: "bt_get (dc_pending_by_schedule c) i = Some p" using Cons.prems(2) x by simp
  have "\<forall>y \<in> set xs. fst y \<noteq> i" using Cons.prems(1) x by auto
  with Cons.prems(2) have rest: "\<forall>y \<in> set xs. bt_get (bt_remove i (dc_pending_by_schedule c)) (fst y) = Some (snd y)"
    by simp
  show ?case
    using Cons.IH rest Cons.prems(1)
    by (auto simp: x p commit_step_def [of env max_failures "(i, p)"] Let_def obind_def oreturn_def
        split: prod.splits sum.splits)
qed (simp add: oreturn_def)

lemma each_memory:
  assumes "oforeach xs (commit_step env max_failures) (c, cs) = (Ok (), (c', cs'))"
  shows "dc_committed_schedules c' = dc_committed_schedules c \<union> fst ` set xs \<and>
    dc_pending_by_schedule c' = filter (\<lambda>p. fst p \<notin> fst ` set xs) (dc_pending_by_schedule c) \<and>
    (\<forall>i. attempt_of (dc_slot_attempts c) i \<le> attempt_of (dc_slot_attempts c') i)"
  using assms
proof (induction xs arbitrary: c cs)
  case (Cons x xs)
  then obtain c1 cs1 where 1: "commit_step env max_failures x (c, cs) = (Ok (), (c1, cs1))"
      and 2: "oforeach xs (commit_step env max_failures) (c1, cs1) = (Ok (), (c', cs'))"
    by (auto simp: obind_eq_Ok)
  from 1 have c1: "dc_committed_schedules c1 = insert (fst x) (dc_committed_schedules c)"
      "dc_pending_by_schedule c1 = bt_remove (fst x) (dc_pending_by_schedule c)"
      "\<forall>i. attempt_of (dc_slot_attempts c) i \<le> attempt_of (dc_slot_attempts c1) i"
    by (auto simp: commit_step_def Let_def split: prod.splits sum.splits dest!: commit_pending_Ok)
  have "filter (\<lambda>p. fst p \<notin> fst ` set xs) (bt_remove (fst x) m) = filter (\<lambda>p. fst p \<notin> fst ` set (x # xs)) m" for m
    by (auto simp: bt_remove_def intro!: filter_cong)
  with Cons.IH [OF 2] c1 show ?case by (auto intro: le_trans)
qed (simp add: oreturn_def)

lemma btree_entries: "bt_wf m \<Longrightarrow> distinct (map fst m) \<and> (\<forall>x \<in> set m. bt_get m (fst x) = Some (snd x))"
  by (auto simp: bt_wf_def bt_get_def strict_sorted_iff)

lemma drain_ready_each:
  assumes "bt_wf (dc_pending_by_schedule c)"
  shows "drain_ready env max_failures (c, cs) =
    (case oforeach (dc_pending_by_schedule c) (commit_step env max_failures) (c, cs) of
       (Inl e, s') \<Rightarrow> (Inl e, s') | (Inr _, s') \<Rightarrow> (Inr (length (dc_pending_by_schedule c)), s'))"
  using drain_loop_each [of "dc_pending_by_schedule c" c env max_failures 0 cs] btree_entries [OF assms]
  by (simp add: drain_ready_def bt_keys_def add_0 split: prod.split sum.split)

text \<open>Commit keys start with the schedule index, so keys of different slots differ.\<close>

lemma digits_prefix:
  assumes "show_nat i @ CHR '':'' # r = show_nat j @ CHR '':'' # s"
  shows "i = j \<and> r = s"
proof -
  have "takeWhile is_ascii_digit (show_nat n @ CHR '':'' # t) = show_nat n" for n t
    using show_nat_digits by (subst takeWhile_append2) (simp_all add: is_ascii_digit_def)
  with assms have "show_nat i = show_nat j" by metis
  with assms show ?thesis by simp
qed

lemma commit_key_index: "commit_key_for_pending i p = commit_key_for_pending j q \<Longrightarrow> i = j"
  by (cases p; cases q) (auto simp: commit_key_def dest: digits_prefix)

section \<open>A healthy commit succeeds\<close>

text \<open>When no database call fails and the contracts accept every value, the transaction goes through
  unless another trial holds the slot or another commit took it.\<close>

definition healthy :: "schema_contracts \<Rightarrow> bool" where
  "healthy contracts \<longleftrightarrow> (\<forall>x. contract_commit_record contracts x) \<and> (\<forall>x. contract_progress contracts x) \<and>
     (\<forall>x. contract_row contracts x)"

lemma commit_schedule_slot_transaction_succeeds:
  assumes "healthy contracts" and "\<And>p. io p"
    and "sci_schedule_idx input < 2 ^ 63" "sci_attempt input < 2 ^ 63"
      "scr_schedule_idx (sci_commit_record input) < 2 ^ 63" "scr_attempt (sci_commit_record input) < 2 ^ 63"
    and "\<And>st. fst (write_fact_rows io ex contracts input st) = Ok ()"
    and r: "st_slots st (sci_run_id input, sci_schedule_idx input) = Some r"
    and ok: "check_commit_owner input (sci_schedule_idx input) (Some r) = Ok ()" "ssr_state r \<noteq> SlotAbandoned"
  shows "fst (commit_schedule_slot_transaction io ex contracts input st) = Ok ()"
proof -
  have v: "validate_commit_contracts contracts input = Ok ()"
    using assms(1) by (simp add: validate_commit_contracts_def healthy_def list_all_iff)
  have ins: "insert_slot_if_missing io input (sci_schedule_idx input) st = (Ok (), st)"
    using assms(2) r by (simp add: insert_slot_if_missing_def store_op_simps split: option.split)
  obtain st1 where w: "write_fact_rows io ex contracts input st = (Ok (), st1)"
    using assms(7) [of st] by (cases "write_fact_rows io ex contracts input st") auto
  have "slot_tables st1 = slot_tables st"
    using keeps_write_fact_rows [of io ex contracts input] w by (auto simp: keeps_slot_tables_def dest: spec [of _ st])
  then have r1: "st_slots st1 (sci_run_id input, sci_schedule_idx input) = Some r" using r by (simp add: slot_tables_def)
  show ?thesis
    using assms(1-6) r1 ok(2)
    by (simp add: commit_schedule_slot_transaction_def store_op_simps v ins r ok(1) w healthy_def
        upsert_slot_commit_record_def put_schedule_progress_def commit_slot_row_def)
qed

lemma ensure_schedule_slots_succeeds:
  assumes "\<And>p. io p" and "length schedule \<le> 2 ^ 63"
  shows "ensure_schedule_slots io run_id schedule st = (Ok (), st\<lparr>st_slots := ensured_slot run_id schedule st\<rparr>)"
proof -
  let ?body = "\<lambda>(schedule_idx, slot). obind (olift (as_i64 schedule_idx)) (\<lambda>schedule_idx.
      obind (at_point io AtSlotInsert) (\<lambda>_. modify_slots (upsert_schedule_slot run_id schedule_idx slot)))"
  have "fst (oforeach (enumerate_rows schedule) ?body st) = Ok ()"
  proof (rule oforeach_succeeds)
    fix x and s :: run_store
    assume "x \<in> set (enumerate_rows schedule)"
    then have "fst x < length schedule" by (auto simp: enumerate_rows_def set_zip)
    with assms show "fst (?body x s) = Ok ()" by (cases x) (simp add: store_op_simps)
  qed
  then have "fst (ensure_schedule_slots io run_id schedule st) = Ok ()"
    using assms(1)
    by (cases "oforeach (enumerate_rows schedule) ?body st")
      (simp add: ensure_schedule_slots_def transactional_def obind_def at_point_outcome)
  then show ?thesis
    using ensure_schedule_slots_outcome [of io run_id schedule st] by (metis Inl_Inr_False prod.collapse)
qed

lemma commit_pending_succeeds:
  assumes h: "healthy (ce_contracts env)" "\<And>stage p. ce_io env i stage p" "ce_perf_ok env i"
    and bounds: "i < length (sp_schedule (cms_progress s))" "length (sp_schedule (cms_progress s)) \<le> 2 ^ 63"
      "attempt_of attempts i + 1 < 2 ^ 63"
    and rows: "pending_without_rows pending"
    and slot: "\<And>r. st_slots (cms_store s) (sp_run_id (cms_progress s), i) = Some r \<Longrightarrow>
      ssr_state r = SlotPending \<or> ssr_state r = SlotActive \<and> ssr_trial_id r = Some (pending_trial_id pending)"
  shows "\<exists>s'. commit_pending env max_failures i pending attempts s =
    (Ok (attempts(i \<mapsto> attempt_of attempts i + 1)), s')"
proof -
  let ?p = "cms_progress s" and ?a = "attempt_of attempts i + 1"
  obtain intent input where plan: "commit_plan i pending ?a ?p intent input"
    and eq: "commit_pending env max_failures i pending attempts s =
       (case on_store (store_commit env i intent (sp_run_id ?p) (sp_schedule ?p) input) s of
          (Inl e, s') \<Rightarrow> (Inl e, s')
        | (Inr _, s') \<Rightarrow>
            if pending = PendingSkippedPruned \<or> ce_perf_ok env i
            then (Inr (attempts(i \<mapsto> ?a)),
              s'\<lparr>cms_progress := sci_schedule_progress input,
                 cms_consecutive_failures := plan_failures pending (cms_consecutive_failures s),
                 cms_pruned_variants := plan_pruned max_failures pending (cms_consecutive_failures s)
                   (cms_pruned_variants s)\<rparr>)
            else (Inl (PerfRecordFault i), s'))"
    using commit_pending_plan by blast
  let ?st1 = "(cms_store s)\<lparr>st_journal := (st_journal (cms_store s))(journal_key_of intent \<mapsto> intent)\<rparr>"
  let ?st2 = "?st1\<lparr>st_slots := ensured_slot (sp_run_id ?p) (sp_schedule ?p) ?st1\<rparr>"
  have keys: "scr_schedule_idx intent = i" "scr_attempt intent = ?a" "scr_schedule_idx (sci_commit_record input) = i"
      "scr_attempt (sci_commit_record input) = ?a"
    using plan by (simp_all add: commit_plan_def journal_key_of_def)
  have i: "i < 2 ^ 63" using bounds by linarith
  have 1: "append_slot_commit_record (ce_io env i IntentStage) (ce_contracts env) intent (cms_store s) = (Ok (), ?st1)"
    using h i bounds(3) keys
    by (simp add: append_slot_commit_record_def healthy_def upsert_slot_commit_record_def store_op_simps)
  obtain r where r: "st_slots ?st2 (sp_run_id ?p, i) = Some r"
    and held: "ssr_state r = SlotPending \<or> ssr_state r = SlotActive \<and> ssr_trial_id r = Some (pending_trial_id pending)"
    using bounds(1) slot by (auto simp: ensured_slot_def pending_slot_def split: option.splits)
  have "fst (commit_schedule_slot_transaction (ce_io env i TransactionStage) (ce_externs env) (ce_contracts env)
      input ?st2) = Ok ()"
  proof (rule commit_schedule_slot_transaction_succeeds)
    show "check_commit_owner input (sci_schedule_idx input) (Some r) = Ok ()" "ssr_state r \<noteq> SlotAbandoned"
      using held plan by (auto simp: check_commit_owner_def commit_plan_def)
  qed (use h i bounds(3) keys plan r rows in \<open>simp_all add: commit_plan_def write_fact_rows_none\<close>)
  then obtain st where "store_commit env i intent (sp_run_id ?p) (sp_schedule ?p) input (cms_store s) = (Ok (), st)"
    using ensure_schedule_slots_succeeds [of "ce_io env i EnsureStage" "sp_schedule ?p" "sp_run_id ?p" ?st1] h(2) bounds(2)
    by (cases "commit_schedule_slot_transaction (ce_io env i TransactionStage) (ce_externs env) (ce_contracts env)
      input ?st2") (simp add: store_commit_def obind_def 1)
  with eq h(3) show ?thesis by (simp add: on_store_def)
qed

section \<open>Properties\<close>

lemma commit_pending_durable:
  assumes "commit_pending env max_failures i pending attempts s = (Ok attempts', s')"
    and "completions_wf (cms_progress s)"
  shows "\<exists>sid. let run_id = sp_run_id (cms_progress s); attempt = attempt_of attempts i + 1; st' = cms_store s' in
    attempts' = attempts(i \<mapsto> attempt) \<and>
    (\<exists>r. st_slots st' (run_id, i) = Some r \<and> ssr_state r = SlotCommitted \<and>
       ssr_trial_id r = Some (pending_trial_id pending) \<and> ssr_slot_commit_id r = Some sid \<and>
       ssr_owner_id r = None) \<and>
    (\<exists>intent commit. st_journal st' (run_id, i, attempt, ''intent'') = Some intent \<and>
       st_journal st' (run_id, i, attempt, ''commit'') = Some commit \<and>
       scr_slot_commit_id intent = sid \<and> scr_slot_commit_id commit = sid) \<and>
    st_progress st' run_id = Some (cms_progress s') \<and> st_pending st' (run_id, i) = None \<and>
    completions_wf (cms_progress s') \<and>
    \<lparr>sc_schedule_index = i, sc_trial_id = pending_trial_id pending, sc_status = pending_status pending,
      sc_slot_commit_id = sid, sc_attempt = attempt\<rparr> \<in> set (sp_completed_slots (cms_progress s')) \<and>
    sc_schedule_index ` set (sp_completed_slots (cms_progress s')) =
      insert i (sc_schedule_index ` set (sp_completed_slots (cms_progress s)))"
proof -
  let ?p = "cms_progress s" and ?a = "attempt_of attempts i + 1"
  obtain intent input st where plan: "commit_plan i pending ?a ?p intent input"
    and st: "store_commit env i intent (sp_run_id ?p) (sp_schedule ?p) input (cms_store s) = (Ok (), st)"
    and s': "cms_store s' = st" "cms_progress s' = sci_schedule_progress input"
    and a: "attempts' = attempts(i \<mapsto> ?a)"
    using commit_pending_outcome [OF assms(1)] by auto
  let ?c = "\<lparr>sc_schedule_index = i, sc_trial_id = pending_trial_id pending, sc_status = pending_status pending,
      sc_slot_commit_id = sci_slot_commit_id input, sc_attempt = ?a\<rparr>"
  obtain existing st2 where e: "slot_tables st = committed_tables input existing st2"
      "st_journal st2 = (st_journal (cms_store s))(journal_key_of intent \<mapsto> intent)"
    using store_commit_Ok [OF st] by blast
  have slots: "sp_completed_slots (cms_progress s') =
      sp_completed_slots (normalize_schedule_progress (upsert_slot_completion ?c ?p))"
    using plan by (simp add: s' commit_plan_def Let_def)
  have wf: "completions_wf (cms_progress s')"
    using upsert_slot_completion_wf(1) [OF assms(2), of ?c] slots
    by (simp add: completions_wf_def flip: normalize_completed_slots_index [of "upsert_slot_completion ?c ?p"])
  have set': "set (sp_completed_slots (cms_progress s')) =
      (\<lambda>slot. if sc_attempt slot = 0 then slot\<lparr>sc_attempt := 1\<rparr> else slot) `
        insert ?c {x \<in> set (sp_completed_slots ?p). sc_schedule_index x \<noteq> i}"
    using upsert_slot_completion_wf(2) [OF assms(2), of ?c]
    by (simp add: slots normalize_schedule_progress_def)
  have n: "sc_schedule_index (if sc_attempt x = 0 then x\<lparr>sc_attempt := 1\<rparr> else x) = sc_schedule_index x" for x
    by simp
  from set' have "?c \<in> set (sp_completed_slots (cms_progress s'))" by simp
  moreover have "sc_schedule_index ` set (sp_completed_slots (cms_progress s')) =
      insert i (sc_schedule_index ` set (sp_completed_slots ?p))"
    unfolding set' image_image n by auto
  moreover have "\<exists>r. st_slots st (sp_run_id ?p, i) = Some r \<and> ssr_state r = SlotCommitted \<and>
       ssr_trial_id r = Some (pending_trial_id pending) \<and>
       ssr_slot_commit_id r = Some (sci_slot_commit_id input) \<and> ssr_owner_id r = None"
    using e(1) plan by (simp add: slot_tables_def committed_tables_def commit_plan_def committed_slot_def)
  moreover have "st_journal st (sp_run_id ?p, i, ?a, ''intent'') = Some intent"
      "st_journal st (sp_run_id ?p, i, ?a, ''commit'') = Some (sci_commit_record input)"
    using e plan by (simp_all add: slot_tables_def committed_tables_def commit_plan_def)
  moreover have "st_progress st (sp_run_id ?p) = Some (cms_progress s')" "st_pending st (sp_run_id ?p, i) = None"
    using e(1) plan by (simp_all add: slot_tables_def committed_tables_def commit_plan_def s')
  ultimately show ?thesis
    using wf a plan by (intro exI [of _ "sci_slot_commit_id input"]) (simp add: Let_def s'(1) commit_plan_def)
qed

text \<open>
  C15: A trial slot that is committed without an error is committed everywhere under one commit id: the
  slot row, an intent and a commit record of a new attempt in the journal, the stored progress (which
  equals the one in memory and lists the completion, its entries sorted and unique), and its pending
  completion is gone.
\<close>

theorem commit_trial_slot_durable:
  assumes "commit_trial_slot env max_failures i result attempts s = (Ok attempts', s')"
    and "completions_wf (cms_progress s)"
  shows "\<exists>sid. let run_id = sp_run_id (cms_progress s); attempt = attempt_of attempts i + 1; st' = cms_store s' in
    attempts' = attempts(i \<mapsto> attempt) \<and>
    (\<exists>r. st_slots st' (run_id, i) = Some r \<and> ssr_state r = SlotCommitted \<and>
       ssr_trial_id r = Some (ter_trial_id result) \<and> ssr_slot_commit_id r = Some sid \<and>
       ssr_owner_id r = None) \<and>
    (\<exists>intent commit. st_journal st' (run_id, i, attempt, ''intent'') = Some intent \<and>
       st_journal st' (run_id, i, attempt, ''commit'') = Some commit \<and>
       scr_slot_commit_id intent = sid \<and> scr_slot_commit_id commit = sid) \<and>
    st_progress st' run_id = Some (cms_progress s') \<and> st_pending st' (run_id, i) = None \<and>
    completions_wf (cms_progress s') \<and>
    \<lparr>sc_schedule_index = i, sc_trial_id = ter_trial_id result, sc_status = ter_slot_status result,
      sc_slot_commit_id = sid, sc_attempt = attempt\<rparr> \<in> set (sp_completed_slots (cms_progress s')) \<and>
    sc_schedule_index ` set (sp_completed_slots (cms_progress s')) =
      insert i (sc_schedule_index ` set (sp_completed_slots (cms_progress s)))"
  using commit_pending_durable [of env max_failures i "PendingTrial result" attempts s attempts' s'] assms
  by (simp only: commit_pending_def PendingSlotCommit.case pending_trial_id.simps pending_status.simps)

text \<open>A run of one slot, committed once, for the witnesses.\<close>

definition sample_contracts :: schema_contracts where
  "sample_contracts = \<lparr>contract_commit_record = (\<lambda>_. True), contract_progress = (\<lambda>_. True),
     contract_row = (\<lambda>_. True), contract_pending = (\<lambda>_ _. True)\<rparr>"

definition sample_env :: commit_env where
  "sample_env = \<lparr>ce_externs = sample_externs, ce_contracts = sample_contracts,
     ce_io = (\<lambda>_ _ _. True), ce_perf_ok = (\<lambda>_. True), ce_now = ''now''\<rparr>"

definition sample_result :: trial_execution_result where
  "sample_result = trial_execution_result_minimal ''trial_1'' ''completed'' (Some 0)"

definition sample_commit_state :: commit_state where
  "sample_commit_state = \<lparr>cms_store = sample_store1,
     cms_progress = new_schedule_progress ''run'' sample_slots ''start'', cms_trial_index = 1,
     cms_pruned_variants = {}, cms_consecutive_failures = []\<rparr>"

lemma sample_commit_Ok:
  "\<exists>s'. commit_trial_slot sample_env None 0 sample_result Map.empty sample_commit_state = (Ok [0 \<mapsto> 1], s')"
  using commit_pending_succeeds [of sample_env 0 sample_commit_state Map.empty "PendingTrial sample_result" None]
  by (simp add: commit_pending_def sample_env_def sample_contracts_def healthy_def sample_commit_state_def
      new_schedule_progress_def sample_slots_def sample_result_def trial_execution_result_minimal_def
      sample_store1_slots sample_claimed_def claimed_slot_def)

theorem commit_trial_slot_durable_witness:
  "\<exists>s' sid r. st_slots (cms_store s') (''run'', 0) = Some r \<and> ssr_state r = SlotCommitted \<and>
     ssr_slot_commit_id r = Some sid \<and> st_progress (cms_store s') ''run'' = Some (cms_progress s') \<and>
     commit_trial_slot sample_env None 0 sample_result Map.empty sample_commit_state = (Ok [0 \<mapsto> 1], s')"
proof -
  obtain s' where s': "commit_trial_slot sample_env None 0 sample_result Map.empty sample_commit_state = (Ok [0 \<mapsto> 1], s')"
    using sample_commit_Ok by blast
  have "completions_wf (cms_progress sample_commit_state)" "sp_run_id (cms_progress sample_commit_state) = ''run''"
    by (simp_all add: sample_commit_state_def new_schedule_progress_def completions_wf_def)
  with commit_trial_slot_durable [OF s'] s' show ?thesis by (auto simp: Let_def)
qed



text \<open>
  C17: A failed commit changes nothing the coordinator keeps in memory, and, unless it is the
  performance record that failed, neither the set of committed slots nor the stored progress nor the
  stored pending completions. The performance record is written after the transaction: when it fails,
  the slot is already committed in the store while memory still says it is not.
\<close>

theorem failed_commit_outcome:
  assumes "commit_pending env max_failures i pending attempts s = (Err e, s')"
  shows "s' = s\<lparr>cms_store := cms_store s'\<rparr> \<and>
    (if e = PerfRecordFault i then durable s' = insert i (durable s)
     else durable s' = durable s \<and> st_progress (cms_store s') = st_progress (cms_store s) \<and>
       st_pending (cms_store s') = st_pending (cms_store s))"
  using assms by (rule commit_pending_Err)

definition rejecting_env :: commit_env where
  "rejecting_env = sample_env\<lparr>ce_contracts := sample_contracts\<lparr>contract_commit_record := (\<lambda>_. False)\<rparr>\<rparr>"

theorem failed_commit_outcome_witness:
  "durable (snd (commit_pending rejecting_env None 0 (PendingTrial sample_result) Map.empty sample_commit_state)) =
     durable sample_commit_state \<and>
   fst (commit_pending rejecting_env None 0 (PendingTrial sample_result) Map.empty sample_commit_state) =
     Err (StoreFault (SchemaContract ''slot commit record''))"
proof -
  have 1: "fst (commit_pending rejecting_env None 0 (PendingTrial sample_result) Map.empty sample_commit_state) =
      Err (StoreFault (SchemaContract ''slot commit record''))"
    by (simp add: commit_pending_def commit_trial_slot_def rejecting_env_def Let_def append_slot_commit_record_def
        obind_def oget_def on_store_def ofail_def sample_env_def)
  then have "commit_pending rejecting_env None 0 (PendingTrial sample_result) Map.empty sample_commit_state =
      (Err (StoreFault (SchemaContract ''slot commit record'')),
       snd (commit_pending rejecting_env None 0 (PendingTrial sample_result) Map.empty sample_commit_state))"
    by (metis prod.collapse)
  from failed_commit_outcome [OF this] 1 show ?thesis by simp
qed

section \<open>Failure streaks and pruning\<close>

text \<open>The number of consecutive results of variant \<open>v\<close> at the end of a history that did not complete.\<close>

definition variant_results :: "nat \<Rightarrow> trial_execution_result list \<Rightarrow> trial_execution_result list" where
  "variant_results v results = filter (\<lambda>r. ter_variant_idx r = Some v) results"

definition failure_streak :: "nat \<Rightarrow> trial_execution_result list \<Rightarrow> nat" where
  "failure_streak v results =
     length (takeWhile (\<lambda>r. ter_slot_status r \<noteq> ''completed'') (rev (variant_results v results)))"

lemma failure_streak_snoc:
  "failure_streak v (results @ [r]) =
     (if ter_variant_idx r = Some v
      then if ter_slot_status r = ''completed'' then 0 else failure_streak v results + 1
      else failure_streak v results)"
  by (simp add: failure_streak_def variant_results_def)

text \<open>The counters and the pruned set after committing a sequence of trial results, in order.\<close>

definition prune_step ::
  "nat option \<Rightarrow> trial_execution_result \<Rightarrow> (nat, nat) btree \<times> nat set \<Rightarrow> (nat, nat) btree \<times> nat set" where
  "prune_step max_failures result s =
     (let failures = next_consecutive_failures result (fst s)
      in (failures, next_pruned_variants max_failures result failures (snd s)))"

lemma fold_prune_counts:
  "count_of (fst (fold (prune_step max_failures) results ([], pruned))) v = failure_streak v results"
proof (induction results rule: rev_induct)
  case Nil
  show ?case by (simp add: count_of_def failure_streak_def variant_results_def)
next
  case (snoc r results)
  then show ?case
    by (auto simp: prune_step_def Let_def next_consecutive_failures_def failure_streak_snoc split: option.split)
qed

lemma fold_pruned:
  "v \<in> snd (fold (prune_step (Some m)) results ([], {})) \<longleftrightarrow>
   (\<exists>earlier r later. results = earlier @ r # later \<and> ter_variant_idx r = Some v \<and>
      m \<le> failure_streak v (earlier @ [r]))"
proof (induction results rule: rev_induct)
  case (snoc x results)
  have "v \<in> snd (fold (prune_step (Some m)) (results @ [x]) ([], {})) \<longleftrightarrow>
      v \<in> snd (fold (prune_step (Some m)) results ([], {})) \<or>
      ter_variant_idx x = Some v \<and> m \<le> failure_streak v (results @ [x])"
    using fold_prune_counts [of "Some m" "results @ [x]" "{}"]
    by (auto simp: prune_step_def Let_def next_pruned_variants_def split: option.split)
  also have "\<dots> \<longleftrightarrow> (\<exists>earlier r later. results @ [x] = earlier @ r # later \<and> ter_variant_idx r = Some v \<and>
      m \<le> failure_streak v (earlier @ [r]))" (is "?l \<longleftrightarrow> ?r")
  proof
    assume ?l
    then show ?r unfolding snoc.IH by (metis append_Cons append_assoc append_Nil)
  next
    assume ?r
    then obtain earlier r later where eq: "results @ [x] = earlier @ r # later"
      and v: "ter_variant_idx r = Some v" "m \<le> failure_streak v (earlier @ [r])" by blast
    show ?l
      unfolding snoc.IH using eq v by (cases later rule: rev_cases) auto
  qed
  finally show ?case .
qed simp

definition trial_results :: "(nat \<times> PendingSlotCommit) list \<Rightarrow> trial_execution_result list" where
  "trial_results entries =
     List.map_filter (\<lambda>(_, pending). case pending of PendingTrial r \<Rightarrow> Some r | PendingSkippedPruned \<Rightarrow> None) entries"

lemma commit_step_counters:
  assumes "commit_step env max_failures (i, pending) (c, s) = (Ok (), (c', s'))"
  shows "(cms_consecutive_failures s', cms_pruned_variants s') =
    fold (prune_step max_failures) (trial_results [(i, pending)]) (cms_consecutive_failures s, cms_pruned_variants s)"
proof -
  obtain attempts where "commit_pending env max_failures i pending (dc_slot_attempts c) s = (Ok attempts, s')"
    using assms by (auto simp: commit_step_def Let_def split: prod.splits sum.splits)
  from commit_pending_outcome [OF this] show ?thesis
    by (cases pending) (auto simp: trial_results_def List.map_filter_def prune_step_def Let_def)
qed

lemma commits_counters:
  "oforeach entries (commit_step env max_failures) (c, s) = (Ok (), (c', s')) \<Longrightarrow>
   (cms_consecutive_failures s', cms_pruned_variants s') =
     fold (prune_step max_failures) (trial_results entries) (cms_consecutive_failures s, cms_pruned_variants s)"
proof (induction entries arbitrary: c s)
  case (Cons x entries)
  obtain i p where x: "x = (i, p)" by (cases x)
  from Cons.prems obtain c1 s1 where 1: "commit_step env max_failures (i, p) (c, s) = (Ok (), (c1, s1))"
      and 2: "oforeach entries (commit_step env max_failures) (c1, s1) = (Ok (), (c', s'))"
    by (auto simp: x obind_eq_Ok)
  have "trial_results (x # entries) = trial_results [(i, p)] @ trial_results entries"
    by (simp add: x trial_results_def List.map_filter_def)
  with Cons.IH [OF 2] commit_step_counters [OF 1] show ?case by simp
qed (simp add: oreturn_def trial_results_def List.map_filter_def)

text \<open>
  C18: After any sequence of successful commits on a fresh run, a variant's failure counter is the
  number of its most recent trials in a row that did not complete, and a variant is pruned exactly when
  that streak reached the configured limit at one of its trials; pruning is never undone.
\<close>

theorem pruning_follows_failure_streaks:
  assumes "oforeach entries (commit_step env (Some m)) (c, s) = (Ok (), (c', s'))"
    and "cms_consecutive_failures s = []" "cms_pruned_variants s = {}"
  shows "(\<forall>v. count_of (cms_consecutive_failures s') v = failure_streak v (trial_results entries)) \<and>
    cms_pruned_variants s' =
      {v. \<exists>earlier r later. trial_results entries = earlier @ r # later \<and> ter_variant_idx r = Some v \<and>
         m \<le> failure_streak v (earlier @ [r])}"
proof -
  have c: "cms_consecutive_failures s' = fst (fold (prune_step (Some m)) (trial_results entries) ([], {}))"
      "cms_pruned_variants s' = snd (fold (prune_step (Some m)) (trial_results entries) ([], {}))"
    using commits_counters [OF assms(1)] assms(2,3) by (metis fst_conv, metis snd_conv)
  then show ?thesis by (simp only: fold_prune_counts set_eq_iff fold_pruned mem_Collect_eq simp_thms)
qed

definition failed_result :: trial_execution_result where
  "failed_result = trial_execution_result_minimal ''trial_1'' ''failed'' (Some 0)"

definition sample_committer :: deterministic_committer where
  "sample_committer = from_progress (cms_progress sample_commit_state) []"

lemma sample_commit_step:
  assumes "ter_trial_id result = ''trial_1''" "pending_without_rows (PendingTrial result)"
    and "dc_slot_attempts c = Map.empty"
  shows "\<exists>c' s'. commit_step sample_env max_failures (0, PendingTrial result) (c, sample_commit_state) =
    (Ok (), (c', s'))"
  using commit_pending_succeeds [of sample_env 0 sample_commit_state Map.empty "PendingTrial result" max_failures] assms
  by (auto simp: commit_step_def Let_def sample_env_def sample_contracts_def healthy_def sample_commit_state_def
      new_schedule_progress_def sample_slots_def sample_store1_slots sample_claimed_def claimed_slot_def)

lemma sample_committer_fields:
  "dc_committed_keys sample_committer = {}" "dc_committed_schedules sample_committer = {}"
  "dc_pending_by_schedule sample_committer = []" "dc_slot_attempts sample_committer = Map.empty"
  by (simp_all add: sample_committer_def from_progress_def sample_commit_state_def new_schedule_progress_def
      commit_record_by_schedule_def highest_attempt_by_schedule_def bt_keys_def Let_def)

theorem pruning_follows_failure_streaks_witness:
  "\<exists>c' s'. oforeach [(0, PendingTrial failed_result)] (commit_step sample_env (Some 1))
      (sample_committer, sample_commit_state) = (Ok (), (c', s')) \<and>
    count_of (cms_consecutive_failures s') 0 = 1 \<and> cms_pruned_variants s' = {0}"
proof -
  obtain c' s' where 1: "oforeach [(0, PendingTrial failed_result)] (commit_step sample_env (Some 1))
      (sample_committer, sample_commit_state) = (Ok (), (c', s'))"
    using sample_commit_step [of failed_result sample_committer "Some 1"]
    by (auto simp: sample_committer_fields obind_def oreturn_def failed_result_def trial_execution_result_minimal_def)
  have "trial_results [(0, PendingTrial failed_result)] = [failed_result]"
    by (simp add: trial_results_def List.map_filter_def)
  moreover have "[failed_result] = earlier @ r # later \<longleftrightarrow> earlier = [] \<and> r = failed_result \<and> later = []" for earlier r later
    by (cases earlier) auto
  ultimately show ?thesis
    using pruning_follows_failure_streaks [OF 1] 1
    by (auto simp: sample_commit_state_def failure_streak_def variant_results_def failed_result_def
        trial_execution_result_minimal_def)
qed

lemma drain_ready_all:
  assumes "bt_wf (dc_pending_by_schedule c)"
    and "drain_ready env max_failures (c, s) = (Ok n, (c', s'))"
  shows "n = length (dc_pending_by_schedule c) \<and> dc_pending_by_schedule c' = [] \<and>
    dc_committed_schedules c' = dc_committed_schedules c \<union> set (bt_keys (dc_pending_by_schedule c)) \<and>
    durable s' = durable s \<union> set (bt_keys (dc_pending_by_schedule c))"
proof -
  let ?xs = "dc_pending_by_schedule c"
  have n: "n = length ?xs" and each: "oforeach ?xs (commit_step env max_failures) (c, s) = (Ok (), (c', s'))"
    using assms by (auto simp: drain_ready_each split: prod.splits sum.splits)
  have "dc_pending_by_schedule c' = []" using each_memory [OF each] by simp
  with n each_memory [OF each] drain.entered_all [OF each] show ?thesis by (simp add: bt_keys_def)
qed

lemma drain_ready_run_id:
  assumes "bt_wf (dc_pending_by_schedule c)" "drain_ready env max_failures (c, s) = (Ok n, (c', s'))"
  shows "sp_run_id (cms_progress s') = sp_run_id (cms_progress s)"
proof -
  have each: "oforeach (dc_pending_by_schedule c) (commit_step env max_failures) (c, s) = (Ok (), (c', s'))"
    using assms by (auto simp: drain_ready_each split: prod.splits sum.splits)
  have "oforeach xs (commit_step env max_failures) (c, s) = (Ok (), (c', s')) \<Longrightarrow>
      sp_run_id (cms_progress s') = sp_run_id (cms_progress s)" for xs
  proof (induction xs arbitrary: c s)
    case (Cons x xs)
    then obtain c1 s1 where 1: "commit_step env max_failures x (c, s) = (Ok (), (c1, s1))"
        and 2: "oforeach xs (commit_step env max_failures) (c1, s1) = (Ok (), (c', s'))"
      by (auto simp: obind_eq_Ok)
    from 1 have "sp_run_id (cms_progress s1) = sp_run_id (cms_progress s)"
      by (auto simp: commit_step_def Let_def split: prod.splits sum.splits dest: commit_pending_Ok)
    with Cons.IH [OF 2] show ?case by simp
  qed (simp add: oreturn_def)
  from this [OF each] show ?thesis .
qed

section \<open>The committer as a state machine\<close>

text \<open>
  The coordinator enqueues completions and drains them; a drain may fail half way. It starts from the
  stored progress and journal, whose committed slots the store holds as committed.
\<close>

datatype committer_label = Enqueue nat PendingSlotCommit | Drain

inductive committer_step :: "drain_state \<Rightarrow> committer_label \<Rightarrow> drain_state \<Rightarrow> bool" where
  step_enqueue: "enqueue i pending c = Ok (fresh, c') \<Longrightarrow>
    committer_step (c, s) (Enqueue i pending) (c', s)"
| step_drain: "drain_ready env max_failures (c, s) = (r, (c', s')) \<Longrightarrow>
    committer_step (c, s) Drain (c', s')"

inductive_cases committer_stepE: "committer_step s l t"

definition committer_init :: "drain_state \<Rightarrow> bool" where
  "committer_init ds \<longleftrightarrow>
     (case ds of (c, s) \<Rightarrow> \<exists>journal. c = from_progress (cms_progress s) journal \<and>
        dc_committed_schedules c \<subseteq> durable s)"

definition committer_wf :: "deterministic_committer \<Rightarrow> bool" where
  "committer_wf c \<longleftrightarrow> bt_wf (dc_pending_by_schedule c) \<and>
     (\<forall>i \<in> dc_committed_schedules c. bt_get (dc_pending_by_schedule c) i = None) \<and>
     {i. \<exists>pending. commit_key_for_pending i pending \<in> dc_committed_keys c} \<subseteq> dc_committed_schedules c"

definition committer_inv :: "drain_state \<Rightarrow> bool" where
  "committer_inv ds \<longleftrightarrow>
     committer_wf (fst ds) \<and> dc_committed_schedules (fst ds) \<subseteq> durable (snd ds)"

lemma committer_wfI:
  assumes "bt_wf (dc_pending_by_schedule c)"
    and "\<And>i. i \<in> dc_committed_schedules c \<Longrightarrow> bt_get (dc_pending_by_schedule c) i = None"
    and "\<And>i pending. commit_key_for_pending i pending \<in> dc_committed_keys c \<Longrightarrow> i \<in> dc_committed_schedules c"
  shows "committer_wf c"
  using assms unfolding committer_wf_def by blast

lemma committer_wfD:
  assumes "committer_wf c"
  shows "bt_wf (dc_pending_by_schedule c)"
    and "i \<in> dc_committed_schedules c \<Longrightarrow> bt_get (dc_pending_by_schedule c) i = None"
    and "commit_key_for_pending i pending \<in> dc_committed_keys c \<Longrightarrow> i \<in> dc_committed_schedules c"
  using assms unfolding committer_wf_def by blast+

lemma commit_key_prefix:
  "\<exists>rest. commit_key_for_pending i pending = show_nat i @ CHR '':'' # rest"
  by (cases pending) (auto simp: commit_key_def)

lemma from_progress_wf: "committer_wf (from_progress progress journal)"
proof -
  let ?c = "from_progress progress journal"
  have "i \<in> dc_committed_schedules ?c" if "commit_key_for_pending i pending \<in> dc_committed_keys ?c" for i pending
  proof -
    obtain rest where rest: "commit_key_for_pending i pending = show_nat i @ CHR '':'' # rest"
      using commit_key_prefix by blast
    consider slot where "slot \<in> set (sp_completed_slots progress)"
        "commit_key_for_slot_completion slot = commit_key_for_pending i pending"
      | j entry where "(j, entry) \<in> set (commit_record_by_schedule journal)"
        "commit_key_for_record entry = commit_key_for_pending i pending"
      using \<open>commit_key_for_pending i pending \<in> dc_committed_keys ?c\<close>
      by (auto simp: from_progress_def Let_def)
    then show ?thesis
    proof cases
      case 1
      with rest have "sc_schedule_index slot = i"
        by (auto simp: commit_key_for_slot_completion_def commit_key_def dest: digits_prefix)
      with 1 show ?thesis by (auto simp: from_progress_def Let_def)
    next
      case 2
      with btree_entries [OF commit_record_by_schedule_wf, of journal]
      have "bt_get (commit_record_by_schedule journal) j = Some entry" by fastforce
      then have "scr_schedule_idx entry = j" by (simp add: commit_record_by_schedule_Some)
      moreover from rest 2 have "scr_schedule_idx entry = i"
        by (auto simp: commit_key_for_record_def commit_key_def dest: digits_prefix)
      ultimately show ?thesis using 2 by (force simp: from_progress_def Let_def bt_keys_def)
    qed
  qed
  moreover have "dc_pending_by_schedule ?c = []" by (simp add: from_progress_def Let_def)
  ultimately show ?thesis by (auto simp: committer_wf_def bt_keys_def)
qed

lemma enqueue_wf:
  assumes "committer_wf c" "enqueue i pending c = Ok (fresh, c')"
  shows "committer_wf c' \<and> dc_committed_schedules c' = dc_committed_schedules c \<and>
    dc_committed_keys c' = dc_committed_keys c"
proof -
  have "c' = c \<or> i \<notin> dc_committed_schedules c \<and>
      c' = c\<lparr>dc_pending_by_schedule := bt_insert i pending (dc_pending_by_schedule c)\<rparr>"
    using assms(2) by (simp add: enqueue_def Let_def split: if_splits option.splits)
  then consider "c' = c" | "i \<notin> dc_committed_schedules c"
      "c' = c\<lparr>dc_pending_by_schedule := bt_insert i pending (dc_pending_by_schedule c)\<rparr>"
    by blast
  then show ?thesis
  proof cases
    case 2
    have "committer_wf c'"
    proof (rule committer_wfI)
      show "bt_wf (dc_pending_by_schedule c')" using 2 committer_wfD(1) [OF assms(1)] by simp
      show "bt_get (dc_pending_by_schedule c') j = None" if "j \<in> dc_committed_schedules c'" for j
        using 2 committer_wfD(2) [OF assms(1), of j] that by auto
      show "j \<in> dc_committed_schedules c'" if "commit_key_for_pending j q \<in> dc_committed_keys c'" for j q
        using 2 committer_wfD(3) [OF assms(1), of j q] that by simp
    qed
    with 2 show ?thesis by simp
  qed (use assms(1) in simp)
qed

lemma commit_step_wf:
  assumes "committer_wf c" "commit_step env max_failures x (c, s) = (r, (c', s'))"
  shows "committer_wf c'"
proof -
  obtain i p where x: "x = (i, p)" by (cases x)
  have "dc_pending_by_schedule c' = bt_remove i (dc_pending_by_schedule c) \<and>
      (dc_committed_schedules c' = dc_committed_schedules c \<and> dc_committed_keys c' = dc_committed_keys c \<or>
       dc_committed_schedules c' = insert i (dc_committed_schedules c) \<and>
       dc_committed_keys c' = insert (commit_key_for_pending i p) (dc_committed_keys c))" (is "?step c'")
    using assms(2) by (auto simp: x commit_step_def Let_def split: prod.splits sum.splits)
  then show ?thesis
  proof (intro committer_wfI)
    assume c': "?step c'"
    show "bt_wf (dc_pending_by_schedule c')" using c' committer_wfD(1) [OF assms(1)] by simp
    show "bt_get (dc_pending_by_schedule c') j = None" if "j \<in> dc_committed_schedules c'" for j
      using c' committer_wfD(2) [OF assms(1), of j] that by auto
    show "j \<in> dc_committed_schedules c'" if "commit_key_for_pending j q \<in> dc_committed_keys c'" for j q
      using c' committer_wfD(3) [OF assms(1), of j q] commit_key_index [of j q i p] that by auto
  qed
qed

lemma commit_step_committed:
  assumes "commit_step env max_failures x (c, s) = (r, (c', s'))" "dc_committed_schedules c \<subseteq> durable s"
  shows "dc_committed_schedules c' \<subseteq> durable s'"
proof -
  obtain i p where x: "x = (i, p)" by (cases x)
  show ?thesis
  proof (cases r)
    case (Inl e)
    with assms drain.enter_Err [of env max_failures x "(c, s)" e "(c', s')"]
    have "durable s \<subseteq> durable s'" by simp
    moreover have "dc_committed_schedules c' = dc_committed_schedules c"
      using assms(1) Inl by (auto simp: x commit_step_def Let_def split: prod.splits sum.splits)
    ultimately show ?thesis using assms(2) by simp
  next
    case (Inr u)
    with assms drain.enter_Ok [of env max_failures x "(c, s)" "(c', s')"]
    have "durable s' = insert i (durable s)" by (simp add: x)
    moreover have "dc_committed_schedules c' = insert i (dc_committed_schedules c)"
      using assms(1) Inr by (auto simp: x commit_step_def Let_def split: prod.splits sum.splits)
    ultimately show ?thesis using assms(2) by auto
  qed
qed

lemma drain_ready_inv:
  assumes "committer_inv ds"
  shows "committer_inv (snd (drain_ready env max_failures ds))"
proof -
  obtain c s where ds: "ds = (c, s)" by (cases ds)
  have "committer_inv (snd (oforeach (dc_pending_by_schedule c) (commit_step env max_failures) ds))"
  proof (rule oforeach_invariant)
    show "committer_inv ds" by (rule assms)
  next
    fix x :: "nat \<times> PendingSlotCommit" and t :: drain_state
    assume "committer_inv t"
    obtain c s r c' s' where t: "t = (c, s)" and 1: "commit_step env max_failures x (c, s) = (r, (c', s'))"
      by (metis surj_pair)
    from \<open>committer_inv t\<close> have "committer_wf c" "dc_committed_schedules c \<subseteq> durable s"
      by (simp_all add: t committer_inv_def)
    with commit_step_wf [OF _ 1] commit_step_committed [OF 1]
    show "committer_inv (snd (commit_step env max_failures x t))" by (simp add: t 1 committer_inv_def)
  qed
  moreover have "bt_wf (dc_pending_by_schedule c)" using assms by (simp add: ds committer_inv_def committer_wf_def)
  ultimately show ?thesis
    by (simp add: ds drain_ready_each split: prod.split sum.split)
      (auto split: prod.splits sum.splits)
qed

interpretation committer: invariant_system committer_init committer_step committer_inv
proof
  fix ds :: drain_state
  assume "committer_init ds"
  then show "committer_inv ds"
    using from_progress_wf by (auto simp: committer_init_def committer_inv_def)
next
  fix ds t :: drain_state and l
  assume inv: "committer_inv ds" and step: "committer_step ds l t"
  from step show "committer_inv t"
  proof (cases rule: committer_step.cases)
    case (step_enqueue i pending c fresh c' s)
    with inv enqueue_wf [of c i pending fresh c'] show ?thesis by (simp add: committer_inv_def)
  next
    case (step_drain env max_failures c s r c' s')
    with drain_ready_inv [OF inv, of env max_failures] show ?thesis by simp
  qed
qed

text \<open>
  C19: Whatever the coordinator enqueues and however often a drain fails, a slot the committer counts as
  committed is committed in the store, and no slot waits for a commit that it already has.
\<close>

theorem committer_never_recommits:
  assumes "reachable committer_init committer_step (c, s)"
  shows "dc_committed_schedules c \<subseteq> durable s \<and>
    set (bt_keys (dc_pending_by_schedule c)) \<inter> dc_committed_schedules c = {} \<and>
    bt_keys (dc_pending_by_schedule c) = sorted_list_of_set (dom (bt_get (dc_pending_by_schedule c)))"
  using committer.reachable_inv [OF assms] bt.keys_eq_sorted_list_of_set
  by (auto simp: committer_inv_def committer_wf_def set_bt_keys)

lemma sample_committer_init: "committer_init (sample_committer, sample_commit_state)"
  using sample_committer_fields(2) by (auto simp: committer_init_def sample_committer_def)

definition sample_queued :: deterministic_committer where
  "sample_queued = sample_committer\<lparr>dc_pending_by_schedule := [(0, PendingTrial sample_result)]\<rparr>"

lemma sample_enqueue: "enqueue 0 (PendingTrial sample_result) sample_committer = Ok (True, sample_queued)"
  by (simp add: enqueue_def sample_committer_fields sample_queued_def)

theorem committer_never_recommits_witness:
  "dc_committed_schedules sample_queued \<subseteq> durable sample_commit_state \<and>
   set (bt_keys (dc_pending_by_schedule sample_queued)) \<inter> dc_committed_schedules sample_queued = {} \<and>
   bt_keys (dc_pending_by_schedule sample_queued) = [0]"
proof -
  have "reachable committer_init committer_step (sample_queued, sample_commit_state)"
    using reach_init [of committer_init, OF sample_committer_init] step_enqueue [OF sample_enqueue]
    by (rule reach_step)
  from committer_never_recommits [OF this] show ?thesis
    by (simp add: bt_keys_def sample_queued_def sample_committer_fields)
qed

text \<open>
  Enqueueing is idempotent and refuses to replace a completion: a completion that was accepted is
  accepted again without effect, also after it is committed; another completion of the same slot is an
  error in both cases; other slots are not affected.
\<close>

lemma enqueue_idempotent_and_guarded:
  assumes "committer_wf c" "enqueue i pending c = Ok (True, c')"
  shows "enqueue i pending c' = Ok (False, c') \<and>
    (\<forall>other. commit_key_for_pending i other \<noteq> commit_key_for_pending i pending \<longrightarrow>
       enqueue i other c' = Err (ConflictPending i)) \<and>
    (\<forall>j. j \<noteq> i \<longrightarrow> bt_get (dc_pending_by_schedule c') j = bt_get (dc_pending_by_schedule c) j) \<and>
    (\<forall>env max_failures s c'' s'. commit_step env max_failures (i, pending) (c', s) = (Ok (), (c'', s')) \<longrightarrow>
       enqueue i pending c'' = Ok (False, c'') \<and>
       (\<forall>other. commit_key_for_pending i other \<noteq> commit_key_for_pending i pending \<longrightarrow>
          enqueue i other c'' = Err (ConflictAlreadyCommitted i)))"
proof -
  have c': "c' = c\<lparr>dc_pending_by_schedule := bt_insert i pending (dc_pending_by_schedule c)\<rparr>"
    and new: "i \<notin> dc_committed_schedules c"
    using assms(2) by (simp_all add: enqueue_def Let_def split: if_splits option.splits)
  have keys: "commit_key_for_pending i other \<notin> dc_committed_keys c" for other
    using committer_wfD(3) [OF assms(1), of i other] new by blast
  have "enqueue i pending c'' = Ok (False, c'')"
      "commit_key_for_pending i other \<noteq> commit_key_for_pending i pending \<Longrightarrow>
        enqueue i other c'' = Err (ConflictAlreadyCommitted i)"
    if "commit_step env max_failures (i, pending) (c', s) = (Ok (), (c'', s'))" for env max_failures s c'' s' other
  proof -
    from that have "dc_committed_keys c'' = insert (commit_key_for_pending i pending) (dc_committed_keys c)"
        "dc_committed_schedules c'' = insert i (dc_committed_schedules c)"
      by (auto simp: c' commit_step_def Let_def split: prod.splits sum.splits)
    with keys [of other] show "enqueue i pending c'' = Ok (False, c'')"
      "commit_key_for_pending i other \<noteq> commit_key_for_pending i pending \<Longrightarrow>
        enqueue i other c'' = Err (ConflictAlreadyCommitted i)"
      by (simp_all add: enqueue_def Let_def)
  qed
  moreover have "enqueue i other c' = (if commit_key_for_pending i pending = commit_key_for_pending i other
      then Ok (False, c') else Err (ConflictPending i))" for other
    using new keys [of other] by (simp add: enqueue_def c' Let_def)
  ultimately show ?thesis by (simp add: c')
qed

text \<open>
  A drain that fails has committed the completions before the failing one, in schedule order, and
  keeps the ones after it; the failing completion itself is in neither set, so that only its stored
  pending row can bring it back.
\<close>

lemma drain_ready_error_prefix:
  assumes "bt_wf (dc_pending_by_schedule c)"
    and "drain_ready env max_failures (c, s) = (Err e, (c', s'))"
  shows "\<exists>before i pending rest. dc_pending_by_schedule c = before @ (i, pending) # rest \<and>
    dc_committed_schedules c' = dc_committed_schedules c \<union> fst ` set before \<and> dc_pending_by_schedule c' = rest \<and>
    durable s \<union> fst ` set before \<subseteq> durable s' \<and> durable s' \<subseteq> durable s \<union> fst ` set before \<union> {i}"
proof -
  let ?xs = "dc_pending_by_schedule c"
  have each: "oforeach ?xs (commit_step env max_failures) (c, s) = (Err e, (c', s'))"
    using assms by (auto simp: drain_ready_each split: prod.splits sum.splits)
  from drain.entered_prefix [OF each] obtain ys x zs t where xs: "?xs = ys @ x # zs"
    and ys: "oforeach ys (commit_step env max_failures) (c, s) = (Ok (), t)"
    and x: "commit_step env max_failures x t = (Err e, (c', s'))"
    and d: "durable s \<union> fst ` set ys \<subseteq> durable s'" "durable s' \<subseteq> durable s \<union> fst ` set (ys @ [x])"
    by auto
  obtain c1 s1 where t: "t = (c1, s1)" by (cases t)
  obtain i p where ip: "x = (i, p)" by (cases x)
  have c': "dc_committed_schedules c' = dc_committed_schedules c1"
      "dc_pending_by_schedule c' = bt_remove i (dc_pending_by_schedule c1)"
    using x by (auto simp: t ip commit_step_def Let_def split: prod.splits sum.splits)
  have dist: "distinct (map fst (ys @ (i, p) # zs))" using btree_entries [OF assms(1)] xs ip by simp
  then have "filter (\<lambda>q. fst q \<notin> fst ` set ys) ((i, p) # zs) = (i, p) # zs" "filter (\<lambda>q. fst q \<noteq> i) zs = zs"
      "filter (\<lambda>q. fst q \<notin> fst ` set ys) ys = []"
    by (auto simp: filter_id_conv filter_empty_conv image_iff)
  then have "bt_remove i (dc_pending_by_schedule c1) = zs"
    using each_memory [OF ys [unfolded t]] by (simp add: xs ip bt_remove_def)
  with c' each_memory [OF ys [unfolded t]] xs ip d show ?thesis by auto
qed

lemma rejecting_commit:
  "commit_step rejecting_env None (0, PendingTrial sample_result) (c, sample_commit_state) =
    (Err (StoreFault (SchemaContract ''slot commit record'')),
     (c\<lparr>dc_pending_by_schedule := bt_remove 0 (dc_pending_by_schedule c)\<rparr>, sample_commit_state))"
  by (simp add: commit_step_def commit_pending_def commit_trial_slot_def rejecting_env_def Let_def
      append_slot_commit_record_def obind_def oget_def on_store_def ofail_def sample_env_def)

section \<open>Attempts after a restart\<close>

text \<open>The journal of the store, each record under its own key.\<close>

definition journal_wf :: "run_store \<Rightarrow> bool" where
  "journal_wf st \<longleftrightarrow> finite (dom (st_journal st)) \<and> (\<forall>k r. st_journal st k = Some r \<longrightarrow> journal_key_of r = k)"

definition fresh_attempts :: "(nat \<rightharpoonup> nat) \<Rightarrow> string \<Rightarrow> run_store \<Rightarrow> bool" where
  "fresh_attempts attempts run_id st \<longleftrightarrow>
     (\<forall>i a ty. attempt_of attempts i < a \<longrightarrow> st_journal st (run_id, i, a, ty) = None)"

lemma journal_wfD: "journal_wf st \<Longrightarrow> st_journal st k = Some r \<Longrightarrow> journal_key_of r = k"
  unfolding journal_wf_def by blast

lemma set_load_slot_commit_records:
  assumes "journal_wf st"
  shows "set (load_slot_commit_records st run_id) = {r. st_journal st (journal_key_of r) = Some r \<and> scr_run_id r = run_id}"
proof -
  have inv: "unrank (fst k) (journal_rank k) = k" for k by (cases k) (simp add: unrank_def journal_rank_def)
  have "finite {k \<in> dom (st_journal st). fst k = run_id}" using assms by (simp add: journal_wf_def)
  then have "set (load_slot_commit_records st run_id) =
      (\<lambda>k. the (st_journal st (unrank run_id (journal_rank k)))) ` {k \<in> dom (st_journal st). fst k = run_id}"
    by (simp add: load_slot_commit_records_def image_image)
  also have "\<dots> = (\<lambda>k. the (st_journal st k)) ` {k \<in> dom (st_journal st). fst k = run_id}"
    by (rule image_cong) (use inv in auto)
  also have "\<dots> = {r. st_journal st (journal_key_of r) = Some r \<and> scr_run_id r = run_id}"
  proof (intro equalityI subsetI)
    fix r assume "r \<in> (\<lambda>k. the (st_journal st k)) ` {k \<in> dom (st_journal st). fst k = run_id}"
    then obtain k where "st_journal st k = Some r" "fst k = run_id" by auto
    then have "journal_key_of r = k" using journal_wfD [OF assms] by simp
    with \<open>st_journal st k = Some r\<close> \<open>fst k = run_id\<close>
    show "r \<in> {r. st_journal st (journal_key_of r) = Some r \<and> scr_run_id r = run_id}"
      by (auto simp: journal_key_of_def)
  next
    fix r assume r: "r \<in> {r. st_journal st (journal_key_of r) = Some r \<and> scr_run_id r = run_id}"
    then show "r \<in> (\<lambda>k. the (st_journal st k)) ` {k \<in> dom (st_journal st). fst k = run_id}"
      by (intro image_eqI [of _ _ "journal_key_of r"]) (auto simp: journal_key_of_def)
  qed
  finally show ?thesis .
qed

lemma from_progress_fresh:
  assumes "journal_wf st"
  shows "fresh_attempts (dc_slot_attempts (from_progress progress (load_slot_commit_records st run_id))) run_id st"
proof -
  let ?journal = "load_slot_commit_records st run_id"
  let ?a = "dc_slot_attempts (from_progress progress ?journal)"
  have "a \<le> attempt_of ?a i" if r: "st_journal st (run_id, i, a, ty) = Some r" for i a ty r
  proof -
    have k: "journal_key_of r = (run_id, i, a, ty)" using journal_wfD [OF assms r] .
    with r have "r \<in> set ?journal" unfolding set_load_slot_commit_records [OF assms] by (simp add: journal_key_of_def)
    with k have "a \<le> attempt_of (highest_attempt_by_schedule ?journal) i"
      by (auto simp: attempt_of_highest journal_key_of_def intro!: Max_ge)
    also have "\<dots> \<le> attempt_of ?a i"
      by (simp add: from_progress_def Let_def attempt_of_fold_raise_ge)
    finally show ?thesis .
  qed
  then show ?thesis unfolding fresh_attempts_def by (metis linorder_not_less not_None_eq)
qed

text \<open>A commit writes the journal at the next attempt of its slot only.\<close>

lemma commit_pending_journal:
  assumes "commit_pending env max_failures i pending attempts s = (r, s')"
  shows "\<forall>k. k \<notin> {(sp_run_id (cms_progress s), i, attempt_of attempts i + 1, ty) | ty. True} \<longrightarrow>
    st_journal (cms_store s') k = st_journal (cms_store s) k"
proof -
  let ?p = "cms_progress s" and ?a = "attempt_of attempts i + 1"
  obtain intent input q st where plan: "commit_plan i pending ?a ?p intent input"
    and st: "store_commit env i intent (sp_run_id ?p) (sp_schedule ?p) input (cms_store s) = (q, st)"
    and s': "cms_store s' = st"
    using commit_pending_outcome [OF assms] by auto
  have keys: "journal_key_of intent = (sp_run_id ?p, i, ?a, ''intent'')"
      "journal_key_of (sci_commit_record input) = (sp_run_id ?p, i, ?a, ''commit'')"
    using plan by (simp_all add: commit_plan_def)
  show ?thesis
  proof (cases q)
    case (Inl d)
    from store_commit_Err [OF st [unfolded Inl]] keys show ?thesis by (auto simp: s')
  next
    case (Inr u)
    then obtain existing st2 where "slot_tables st = committed_tables input existing st2"
        "st_journal st2 = (st_journal (cms_store s))(journal_key_of intent \<mapsto> intent)"
      using store_commit_Ok [of env i intent "sp_run_id ?p" "sp_schedule ?p" input "cms_store s" st] st by auto
    with keys show ?thesis by (auto simp: s' slot_tables_def committed_tables_def)
  qed
qed

lemma commit_step_journal:
  assumes "commit_step env max_failures (i, pending) (c, s) = (r, (c', s'))"
    and "fresh_attempts (dc_slot_attempts c) (sp_run_id (cms_progress s)) (cms_store s)"
  shows "st_journal (cms_store s) \<subseteq>\<^sub>m st_journal (cms_store s')"
    and "r = Ok () \<Longrightarrow> fresh_attempts (dc_slot_attempts c') (sp_run_id (cms_progress s')) (cms_store s')"
proof -
  obtain q where q: "commit_pending env max_failures i pending (dc_slot_attempts c) s = (q, s')"
    using assms(1) by (auto simp: commit_step_def Let_def split: prod.splits sum.splits)
  note j = commit_pending_journal [OF q, rule_format]
  show "st_journal (cms_store s) \<subseteq>\<^sub>m st_journal (cms_store s')"
    unfolding map_le_def
  proof
    fix k assume "k \<in> dom (st_journal (cms_store s))"
    then have "k \<noteq> (sp_run_id (cms_progress s), i, attempt_of (dc_slot_attempts c) i + 1, ty)" for ty
      using assms(2) unfolding fresh_attempts_def by fastforce
    then have "k \<notin> {(sp_run_id (cms_progress s), i, attempt_of (dc_slot_attempts c) i + 1, ty) | ty. True}" by simp
    from j [OF this] show "st_journal (cms_store s) k = st_journal (cms_store s') k" by simp
  qed
  assume "r = Ok ()"
  with assms(1) q have ok: "q = Ok (dc_slot_attempts c')"
    by (auto simp: commit_step_def Let_def split: prod.splits sum.splits)
  from commit_pending_Ok [OF q [unfolded ok]] have
    c': "dc_slot_attempts c' = (dc_slot_attempts c)(i \<mapsto> attempt_of (dc_slot_attempts c) i + 1)"
      "sp_run_id (cms_progress s') = sp_run_id (cms_progress s)" by simp_all
  show "fresh_attempts (dc_slot_attempts c') (sp_run_id (cms_progress s')) (cms_store s')"
    unfolding fresh_attempts_def c'
  proof (intro allI impI)
    fix k a ty
    assume "attempt_of ((dc_slot_attempts c)(i \<mapsto> attempt_of (dc_slot_attempts c) i + 1)) k < a"
    then have "attempt_of (dc_slot_attempts c) k < a" "k \<noteq> i \<or> attempt_of (dc_slot_attempts c) i + 1 < a"
      by (simp_all split: if_splits)
    with assms(2) j [of "(sp_run_id (cms_progress s), k, a, ty)"]
    show "st_journal (cms_store s') (sp_run_id (cms_progress s), k, a, ty) = None"
      by (auto simp: fresh_attempts_def)
  qed
qed

lemma commits_journal:
  assumes "oforeach entries (commit_step env max_failures) (c, s) = (r, (c', s'))"
    and "fresh_attempts (dc_slot_attempts c) (sp_run_id (cms_progress s)) (cms_store s)"
  shows "st_journal (cms_store s) \<subseteq>\<^sub>m st_journal (cms_store s')"
  using assms
proof (induction entries arbitrary: c s)
  case (Cons x entries)
  obtain i p where x: "x = (i, p)" by (cases x)
  obtain q c1 s1 where 1: "commit_step env max_failures (i, p) (c, s) = (q, (c1, s1))" by (metis surj_pair)
  note step = commit_step_journal [OF 1 Cons.prems(2)]
  show ?case
  proof (cases q)
    case (Inl e)
    with Cons.prems(1) step(1) show ?thesis by (simp add: x obind_def 1)
  next
    case (Inr u)
    with Cons.prems(1) have "oforeach entries (commit_step env max_failures) (c1, s1) = (r, (c', s'))"
      by (simp add: x obind_def 1)
    then have "st_journal (cms_store s1) \<subseteq>\<^sub>m st_journal (cms_store s')"
      using step(2) Inr by (intro Cons.IH) simp_all
    with step(1) show ?thesis by (rule map_le_trans)
  qed
qed (simp add: oreturn_def)

lemma sample_store1_journal: "st_journal sample_store1 = Map.empty"
  by (simp add: sample_store1_def claim_schedule_slot_def store_op_simps sample_store0_slots(2)
      pending_slot_def Let_def saturating_add_def usize_max_def)
    (simp add: sample_store0_def ensure_schedule_slots_def store_op_simps sample_slots_def
      enumerate_rows_def upsert_schedule_slot_def empty_store_def)



end
