(* ===== verification/Engine.thy ===== *)
theory Engine
  imports Recovery Committer
begin

text \<open>
  The schedule engine (\<open>execute_schedule_engine\<close> and \<open>spawn_pull_worker\<close> of
  \<open>lab-runner/src/experiment/runner.rs\<close>): worker threads that pull slots from the broker and send events, and the
  coordinator that applies the events to committer, store and control record until the run ends. The coordinator
  thread is cut at the two points where it meets the others, the poll of the event channel and the top of its loop;
  between them its code is one step. Running a trial is outside the model: a worker that runs one completes it with
  any result. Performance samples kept in memory and progress output are left out.
\<close>

section \<open>State\<close>

datatype ScheduleEngineOutcome = EngCompleted | EngPaused | EngKilled | EngInterrupted

text \<open>The result of a trial; the error of a failed execution is its text.\<close>

record local_trial_completion =
  ltc_worker_id :: string
  ltc_trial_id :: string
  ltc_schedule_idx :: nat
  ltc_result :: "(string, trial_execution_result) result"

datatype LocalWorkerEvent =
    EvClaimed run_control_active_trial
  | EvCompleted local_trial_completion
  | EvSkippedPruned string nat
  | EvExited string
  | EvFatal string

text \<open>Where a worker thread stands: about to claim, with a claim to prepare, running a trial, gone.\<close>

datatype worker_phase = WIdle | WClaimed string nat run_control_active_trial | WRunning string nat | WExited

datatype engine_error =
    EngControl control_error
  | EngStore store_error
  | EngCommit commit_error
  | EngCommitter committer_error
  | EngTrial trial_error
  | EngBroker broker_error
  | NoPendingRunId
  | UnsupportedStatePolicy
  | DiskHeadroom
  | RunSizeBudget
  | PerfRecord
  | UnfinishedSlots
  | ChannelDisconnected
  | ClaimedWithoutSchedule string
  | ClaimedOutOfRange nat
  | CompletionOutOfRange nat
  | CompletionVariantOutOfRange nat
  | TrialFailed string nat string
  | CompletionMismatch string string
  | WorkerFailed string
  | ShutdownCleanup "engine_error option"

datatype coordinator_phase =
    AtTop
  | AtPoll
  | AtFinish
  | Returned "(engine_error, ScheduleEngineOutcome) result"
  | ShutDown "(engine_error, ScheduleEngineOutcome) result"

record engine =
  en_broker :: slot_broker_state
  en_committer :: deterministic_committer
  en_commit :: commit_state
  en_control :: control_world
  en_intents :: "string \<rightharpoonup> json"
  en_events :: "LocalWorkerEvent list"
  en_workers :: "string \<rightharpoonup> worker_phase"
  en_requested :: "ScheduleEngineOutcome option"
  en_exited :: nat
  en_first_dispatched :: bool
  en_phase :: coordinator_phase

text \<open>
  What is fixed for a run: \<open>ec_isolate\<close> says that the state policy isolates trials, the capacity ceiling is read
  from the process environment.
\<close>

record engine_config =
  ec_run_id :: string
  ec_broker :: slot_broker
  ec_max_failures :: "nat option"
  ec_isolate :: bool
  ec_max_concurrency :: nat
  ec_capacity_ceiling :: "nat option"
  ec_run_dir_name :: "string option"

text \<open>
  What each step finds outside: outcomes of its calls, the interrupt flag, the disk checks (true when they are not
  due) and the run that the pending and the journal table mention first by update time.
\<close>

record engine_io =
  ei_commit :: commit_env
  ei_control :: control_env
  ei_db :: "db_point \<Rightarrow> bool"
  ei_interrupted :: bool
  ei_disk_ok :: bool
  ei_size_ok :: bool
  ei_perf_ok :: bool
  ei_intent_ok :: bool
  ei_first_pending_run :: "string option"
  ei_first_journal_run :: "string option"
  ei_now :: string

type_synonym 'a engine_op = "(engine, engine_error, 'a) op"

abbreviation ec_schedule :: "engine_config \<Rightarrow> trial_slot list" where
  "ec_schedule cfg \<equiv> sb_schedule (ec_broker cfg)"

definition on_engine_control :: "'a control_op \<Rightarrow> 'a engine_op" where
  "on_engine_control m w = (case m (en_control w) of (r, c) \<Rightarrow> (map_err EngControl r, w\<lparr>en_control := c\<rparr>))"

definition on_engine_trials :: "'a trial_op \<Rightarrow> 'a engine_op" where
  "on_engine_trials m w =
     (case m (cw_trials (en_control w)) of
        (r, t) \<Rightarrow> (map_err EngTrial r, w\<lparr>en_control := (en_control w)\<lparr>cw_trials := t\<rparr>\<rparr>))"

definition on_engine_store :: "'a store_op \<Rightarrow> 'a engine_op" where
  "on_engine_store m w =
     (case m (cms_store (en_commit w)) of
        (r, st) \<Rightarrow> (map_err EngStore r, w\<lparr>en_commit := (en_commit w)\<lparr>cms_store := st\<rparr>\<rparr>))"

section \<open>Calls of the coordinator\<close>

fun schedule_engine_status :: "ScheduleEngineOutcome option \<Rightarrow> string" where
  "schedule_engine_status (Some EngPaused) = ''paused''"
| "schedule_engine_status (Some EngKilled) = ''killed''"
| "schedule_engine_status (Some EngInterrupted) = ''interrupted''"
| "schedule_engine_status _ = ''running''"

definition load_external_schedule_outcome_request :: "control_env \<Rightarrow> ScheduleEngineOutcome option control_op" where
  "load_external_schedule_outcome_request env =
     obind (load_run_control env) (\<lambda>control.
     obind (olift (run_control_status (cn_externs env) control)) (\<lambda>status.
     oreturn (if status = ''paused'' then Some EngPaused else if status = ''killed'' then Some EngKilled else None)))"

definition active_trials :: "engine \<Rightarrow> run_control_active_trial list" where
  "active_trials w = in_flight_active_trials (bs_in_flight (en_broker w))"

definition write_engine_control :: "engine_config \<Rightarrow> engine_io \<Rightarrow> string \<Rightarrow> unit engine_op" where
  "write_engine_control cfg io status =
     obind (oget active_trials) (\<lambda>active.
     on_engine_control (write_run_control (ei_control io) (ec_run_id cfg) status active None))"

text \<open>The run id under which pending rows and the journal are kept: that of the control record if there is one.\<close>

definition backend_run_id :: "externs \<Rightarrow> json option \<Rightarrow> (control_error, string option) result" where
  "backend_run_id ex value =
     (case value of
        None \<Rightarrow> Ok None
      | Some value \<Rightarrow>
          (case pointer_str ex value ''/run_id'' of
             None \<Rightarrow> Err MissingRunId
           | Some run_id \<Rightarrow> if trim run_id = [] then Err MissingRunId else Ok (Some run_id)))"

definition stored_run_id :: "engine_io \<Rightarrow> string option engine_op" where
  "stored_run_id io =
     on_engine_control
       (obind (control_db (ei_control io) ControlRead) (\<lambda>_.
        obind (oget cw_control) (\<lambda>control.
        olift (backend_run_id (cn_externs (ei_control io)) control))))"

definition pending_row_run_id :: "pending_trial_completion_record list \<Rightarrow> string option" where
  "pending_row_run_id records =
     (case List.map_filter (\<lambda>row. case ter_deferred_trial_records (ptc_trial_result row) of [] \<Rightarrow> None | r # _ \<Rightarrow> Some r) records of
        [] \<Rightarrow> None
      | r # _ \<Rightarrow> if trim (sr_run_id r) = [] then None else Some (sr_run_id r))"

definition persist_pending_trial_completions :: "engine_config \<Rightarrow> engine_io \<Rightarrow> unit engine_op" where
  "persist_pending_trial_completions cfg io =
     obind (oget (\<lambda>w. pending_trial_completion_records (en_committer w))) (\<lambda>records.
     obind (stored_run_id io) (\<lambda>run_id.
     let run_id = or_else run_id (or_else (pending_row_run_id records)
           (if records = [] then None
            else Option.bind (ec_run_dir_name cfg) (\<lambda>n. if trim n = [] then None else Some (trim n))))
     in case run_id of
          None \<Rightarrow> if records = [] then oreturn () else ofail NoPendingRunId
        | Some run_id \<Rightarrow>
            on_engine_store (replace_pending_trial_completions (ei_db io) (ce_contracts (ei_commit io)) run_id records)))"

definition load_pending_trial_completion_records :: "engine_io \<Rightarrow> (nat \<times> trial_execution_result) list engine_op" where
  "load_pending_trial_completion_records io =
     obind (stored_run_id io) (\<lambda>run_id.
     case or_else run_id (ei_first_pending_run io) of
       None \<Rightarrow> oreturn []
     | Some run_id \<Rightarrow>
         oget (\<lambda>w. map (\<lambda>row. (ptc_schedule_idx row, ptc_trial_result row))
           (load_pending_trial_completions (cms_store (en_commit w)) run_id)))"

definition load_engine_journal :: "engine_io \<Rightarrow> slot_commit_record list engine_op" where
  "load_engine_journal io =
     obind (stored_run_id io) (\<lambda>run_id.
     case or_else run_id (ei_first_journal_run io) of
       None \<Rightarrow> oreturn []
     | Some run_id \<Rightarrow> oget (\<lambda>w. load_slot_commit_records (cms_store (en_commit w)) run_id))"

definition enqueue_completion :: "nat \<Rightarrow> PendingSlotCommit \<Rightarrow> unit engine_op" where
  "enqueue_completion i pending w =
     (case enqueue i pending (en_committer w) of
        Inl e \<Rightarrow> (Err (EngCommitter e), w)
      | Inr (_, c) \<Rightarrow> (Ok (), w\<lparr>en_committer := c\<rparr>))"

text \<open>A drain sees the given trial index; the caller's own index is not touched.\<close>

definition drain_engine :: "engine_config \<Rightarrow> engine_io \<Rightarrow> nat \<Rightarrow> nat engine_op" where
  "drain_engine cfg io trial_index w =
     (case drain_ready (ei_commit io) (ec_max_failures cfg)
             (en_committer w, (en_commit w)\<lparr>cms_trial_index := trial_index\<rparr>) of
        (r, (c, s)) \<Rightarrow>
          (map_err EngCommit r,
           w\<lparr>en_committer := c, en_commit := s\<lparr>cms_trial_index := cms_trial_index (en_commit w)\<rparr>\<rparr>))"

definition settle_commits :: "nat set \<Rightarrow> engine \<Rightarrow> engine" where
  "settle_commits committed_before w =
     (let newly_committed = dc_committed_schedules (en_committer w) - committed_before;
          broker = update_pruned_variants (cms_pruned_variants (en_commit w))
            (fold mark_committed (sorted_list_of_set newly_committed) (en_broker w));
          trial_index = bs_trial_index broker
      in w\<lparr>en_broker := broker,
           en_commit := (en_commit w)\<lparr>cms_trial_index := trial_index,
             cms_progress := (cms_progress (en_commit w))\<lparr>sp_next_trial_index := trial_index\<rparr>\<rparr>\<rparr>)"

definition drain_ready_and_persist :: "engine_config \<Rightarrow> engine_io \<Rightarrow> nat engine_op" where
  "drain_ready_and_persist cfg io =
     obind (oget (\<lambda>w. dc_committed_schedules (en_committer w))) (\<lambda>committed_before.
     obind (oget (\<lambda>w. bs_trial_index (en_broker w))) (\<lambda>trial_index.
     obind (drain_engine cfg io trial_index) (\<lambda>committed.
     obind (omodify (settle_commits committed_before)) (\<lambda>_.
     obind (persist_pending_trial_completions cfg io) (\<lambda>_.
     oreturn committed)))))"

section \<open>The loop\<close>

text \<open>What an iteration decides before it polls: go on, return an outcome, or leave the loop.\<close>

datatype loop_flow = GoOn | ReturnOutcome ScheduleEngineOutcome | LeaveLoop

definition request_outcome :: "ScheduleEngineOutcome \<Rightarrow> engine \<Rightarrow> engine" where
  "request_outcome outcome w = w\<lparr>en_requested := Some outcome, en_broker := stop_accepting (en_broker w)\<rparr>"

definition dispatch_capacity :: "engine_config \<Rightarrow> nat" where
  "dispatch_capacity cfg =
     fst (resolve_local_worker_max_in_flight (max (ec_max_concurrency cfg) 1) (ec_capacity_ceiling cfg))"

definition decide_flow :: "engine_config \<Rightarrow> engine \<Rightarrow> (engine_error, loop_flow) result" where
  "decide_flow cfg w =
     (let idle = (bs_in_flight (en_broker w) = [] \<and> \<not> has_pending (en_committer w))
      in case en_requested w of
           Some outcome \<Rightarrow> Ok (if idle then ReturnOutcome outcome else GoOn)
         | None \<Rightarrow>
             if dispatch_capacity cfg \<le> en_exited w \<and> \<not> has_pending (en_committer w) then
               (if has_unfinished_slots (en_broker w) then Err UnfinishedSlots else Ok LeaveLoop)
             else Ok GoOn)"

definition engine_top :: "engine_config \<Rightarrow> engine_io \<Rightarrow> loop_flow engine_op" where
  "engine_top cfg io =
     (if ei_interrupted io then
        obind (omodify (request_outcome EngInterrupted)) (\<lambda>_.
        obind (write_engine_control cfg io ''interrupted'') (\<lambda>_.
        oreturn (ReturnOutcome EngInterrupted)))
      else
        obind (on_engine_control (load_external_schedule_outcome_request (ei_control io))) (\<lambda>external.
        obind (omodify (case external of None \<Rightarrow> id | Some outcome \<Rightarrow> request_outcome outcome)) (\<lambda>_.
        obind (olift (ensure (ei_disk_ok io) DiskHeadroom)) (\<lambda>_.
        obind (olift (ensure (ei_size_ok io) RunSizeBudget)) (\<lambda>_.
        obind (oget (decide_flow cfg)) olift)))))"

definition write_status :: "engine_config \<Rightarrow> engine_io \<Rightarrow> unit engine_op" where
  "write_status cfg io =
     obind (oget (\<lambda>w. schedule_engine_status (en_requested w))) (write_engine_control cfg io)"

text \<open>Claiming the slot in the store: the coordinator does not look at whether the claim was granted.\<close>

definition handle_claimed :: "engine_config \<Rightarrow> engine_io \<Rightarrow> run_control_active_trial \<Rightarrow> unit engine_op" where
  "handle_claimed cfg io active =
     obind (olift (ok_or (ClaimedWithoutSchedule (rcat_trial_id active)) (rcat_schedule_idx active))) (\<lambda>schedule_idx.
     obind (olift (ok_or (ClaimedOutOfRange schedule_idx) (schedule_get (ec_schedule cfg) schedule_idx))) (\<lambda>_.
     obind (on_engine_store (claim_schedule_slot (ei_db io) (ec_run_id cfg) schedule_idx (rcat_trial_id active)
       (rcat_worker_id active) ''slot-broker'' None)) (\<lambda>_.
     obind (oget en_first_dispatched) (\<lambda>dispatched.
     obind (if dispatched then oreturn ()
            else obind (omodify (\<lambda>w. w\<lparr>en_first_dispatched := True\<rparr>)) (\<lambda>_.
                 olift (ensure (ei_perf_ok io) PerfRecord))) (\<lambda>_.
     write_status cfg io)))))"

definition handle_skipped :: "engine_config \<Rightarrow> engine_io \<Rightarrow> nat \<Rightarrow> unit engine_op" where
  "handle_skipped cfg io schedule_idx =
     obind (enqueue_completion schedule_idx PendingSkippedPruned) (\<lambda>_.
     obind (drain_ready_and_persist cfg io) (\<lambda>_.
     write_status cfg io))"

definition check_completion ::
  "engine_config \<Rightarrow> local_trial_completion \<Rightarrow> (engine_error, trial_execution_result) result" where
  "check_completion cfg completion =
     (let i = ltc_schedule_idx completion in
      rbind (ok_or (CompletionOutOfRange i) (schedule_get (ec_schedule cfg) i)) (\<lambda>slot.
      if length (sb_variants (ec_broker cfg)) \<le> ts_variant_idx slot
      then Err (CompletionVariantOutOfRange (ts_variant_idx slot))
      else case ltc_result completion of
        Inl detail \<Rightarrow> Err (TrialFailed (ltc_trial_id completion) i detail)
      | Inr result \<Rightarrow>
          if ter_trial_id result \<noteq> ltc_trial_id completion
          then Err (CompletionMismatch (ltc_trial_id completion) (ter_trial_id result))
          else Ok (if ter_variant_idx result = None then result\<lparr>ter_variant_idx := Some (ts_variant_idx slot)\<rparr>
                   else result)))"

definition handle_completed :: "engine_config \<Rightarrow> engine_io \<Rightarrow> local_trial_completion \<Rightarrow> unit engine_op" where
  "handle_completed cfg io completion =
     obind (olift (check_completion cfg completion)) (\<lambda>result.
     obind (enqueue_completion (ltc_schedule_idx completion) (PendingTrial result)) (\<lambda>_.
     obind (persist_pending_trial_completions cfg io) (\<lambda>_.
     obind (drain_ready_and_persist cfg io) (\<lambda>_.
     write_status cfg io))))"

fun handle_event :: "engine_config \<Rightarrow> engine_io \<Rightarrow> LocalWorkerEvent \<Rightarrow> unit engine_op" where
  "handle_event cfg io (EvClaimed active) = handle_claimed cfg io active"
| "handle_event cfg io (EvSkippedPruned worker_id schedule_idx) = handle_skipped cfg io schedule_idx"
| "handle_event cfg io (EvCompleted completion) = handle_completed cfg io completion"
| "handle_event cfg io (EvExited worker_id) = omodify (\<lambda>w. w\<lparr>en_exited := saturating_add (en_exited w) 1\<rparr>)"
| "handle_event cfg io (EvFatal worker_id) =
     obind (omodify (\<lambda>w. w\<lparr>en_broker := stop_accepting (en_broker w)\<rparr>)) (\<lambda>_. ofail (WorkerFailed worker_id))"

text \<open>
  The poll. The channel is disconnected when it is empty and every worker thread, and with it every sender, is gone.
\<close>

definition worker_name :: "nat \<Rightarrow> string" where
  "worker_name idx = ''bucephalus-worker-'' @ show_nat (idx + 1)"

definition engine_poll :: "engine_config \<Rightarrow> engine_io \<Rightarrow> unit engine_op" where
  "engine_poll cfg io =
     obind (oget en_events) (\<lambda>events.
     case events of
       [] \<Rightarrow>
         obind (oget id) (\<lambda>w.
         if (\<forall>idx < dispatch_capacity cfg. en_workers w (worker_name idx) = Some WExited) \<and>
            en_exited w < dispatch_capacity cfg
         then ofail ChannelDisconnected else oreturn ())
     | event # rest \<Rightarrow>
         obind (omodify (\<lambda>w. w\<lparr>en_events := rest\<rparr>)) (\<lambda>_. handle_event cfg io event))"

definition engine_finish :: "engine_config \<Rightarrow> engine_io \<Rightarrow> ScheduleEngineOutcome engine_op" where
  "engine_finish cfg io =
     obind (drain_ready_and_persist cfg io) (\<lambda>_.
     obind (write_status cfg io) (\<lambda>_.
     oget (\<lambda>w. case en_requested w of None \<Rightarrow> EngCompleted | Some outcome \<Rightarrow> outcome)))"

section \<open>Shutdown\<close>

text \<open>A loop that goes on after errors and tells whether there were none.\<close>

fun try_each :: "'x list \<Rightarrow> ('x \<Rightarrow> 'a engine_op) \<Rightarrow> engine \<Rightarrow> bool \<times> engine" where
  "try_each [] f w = (True, w)"
| "try_each (x # xs) f w =
     (case f x w of (r, w) \<Rightarrow> (case try_each xs f w of (ok, w) \<Rightarrow> (is_ok r \<and> ok, w)))"

definition cleanup_in_flight_trial_containers ::
  "engine_config \<Rightarrow> engine_io \<Rightarrow> (string, in_flight_dispatch) btree \<Rightarrow> engine \<Rightarrow> bool \<times> engine" where
  "cleanup_in_flight_trial_containers cfg io in_flight =
     try_each in_flight (\<lambda>(_, dispatch).
       on_engine_trials (cleanup_local_docker_attempt_runtime (cn_trials (ei_control io)) (ec_run_id cfg) (ifd_trial_id dispatch)))"

definition shutdown_in_flight :: "engine_config \<Rightarrow> engine_io \<Rightarrow> (string, in_flight_dispatch) btree \<Rightarrow> engine \<Rightarrow> bool \<times> engine" where
  "shutdown_in_flight cfg io in_flight w =
     (case cleanup_in_flight_trial_containers cfg io in_flight w of
        (cleaned, w) \<Rightarrow>
          case try_each in_flight (\<lambda>(_, dispatch). on_engine_store
                 (release_schedule_slot_to_pending (ei_db io) (ec_run_id cfg) (ifd_schedule_idx dispatch))) w of
            (released, w) \<Rightarrow>
              case on_engine_control (write_run_control (ei_control io) (ec_run_id cfg)
                     (schedule_engine_status (en_requested w)) [] None) w of
                (written, w) \<Rightarrow> (cleaned \<and> released \<and> is_ok written, w))"

definition engine_shutdown ::
  "engine_config \<Rightarrow> engine_io \<Rightarrow> (engine_error, ScheduleEngineOutcome) result \<Rightarrow> engine \<Rightarrow> engine" where
  "engine_shutdown cfg io engine_result w =
     (let w = w\<lparr>en_broker := stop_accepting (en_broker w)\<rparr>;
          in_flight = bs_in_flight (en_broker w)
      in case (if in_flight = [] then (True, w) else shutdown_in_flight cfg io in_flight w) of
           (ok, w) \<Rightarrow>
             w\<lparr>en_phase := ShutDown
               (if ok then engine_result
                else Err (ShutdownCleanup (case engine_result of Inl e \<Rightarrow> Some e | Inr _ \<Rightarrow> None)))\<rparr>)"

definition coordinator_step :: "engine_config \<Rightarrow> engine_io \<Rightarrow> engine \<Rightarrow> engine" where
  "coordinator_step cfg io w =
     (case en_phase w of
        AtTop \<Rightarrow>
          (case engine_top cfg io w of
             (Inl e, w) \<Rightarrow> w\<lparr>en_phase := Returned (Err e)\<rparr>
           | (Inr GoOn, w) \<Rightarrow> w\<lparr>en_phase := AtPoll\<rparr>
           | (Inr (ReturnOutcome outcome), w) \<Rightarrow> w\<lparr>en_phase := Returned (Ok outcome)\<rparr>
           | (Inr LeaveLoop, w) \<Rightarrow> w\<lparr>en_phase := AtFinish\<rparr>)
      | AtPoll \<Rightarrow>
          (case engine_poll cfg io w of
             (Inl e, w) \<Rightarrow> w\<lparr>en_phase := Returned (Err e)\<rparr>
           | (Inr _, w) \<Rightarrow> w\<lparr>en_phase := AtTop\<rparr>)
      | AtFinish \<Rightarrow> (case engine_finish cfg io w of (r, w) \<Rightarrow> w\<lparr>en_phase := Returned r\<rparr>)
      | Returned engine_result \<Rightarrow> engine_shutdown cfg io engine_result w
      | ShutDown _ \<Rightarrow> w)"

section \<open>Workers\<close>

definition send_worker_event :: "LocalWorkerEvent list \<Rightarrow> engine \<Rightarrow> engine" where
  "send_worker_event events w = w\<lparr>en_events := en_events w @ events\<rparr>"

definition set_worker :: "string \<Rightarrow> worker_phase \<Rightarrow> engine \<Rightarrow> engine" where
  "set_worker worker_id phase w = w\<lparr>en_workers := (en_workers w)(worker_id \<mapsto> phase)\<rparr>"

text \<open>
  One turn of a worker. The channel lives as long as the engine waits for its workers, so that sending does not fail.
  A worker that must wait does not move; a fault is reported and ends the worker.
\<close>

definition worker_claim :: "engine_config \<Rightarrow> engine_io \<Rightarrow> string \<Rightarrow> engine \<Rightarrow> engine option" where
  "worker_claim cfg io worker_id w =
     (case claim_next (ec_broker cfg) worker_id (ei_now io) (en_broker w) of
        None \<Rightarrow> None
      | Some (MustWait, _) \<Rightarrow> None
      | Some (NoMoreWork, b) \<Rightarrow>
          Some (send_worker_event [EvExited worker_id] (set_worker worker_id WExited (w\<lparr>en_broker := b\<rparr>)))
      | Some (SkippedPruned i, b) \<Rightarrow> Some (send_worker_event [EvSkippedPruned worker_id i] (w\<lparr>en_broker := b\<rparr>))
      | Some (Dispatched i trial_id slot active, b) \<Rightarrow>
          Some (set_worker worker_id (WClaimed trial_id i active) (w\<lparr>en_broker := b\<rparr>)))"

definition worker_fault :: "string \<Rightarrow> engine \<Rightarrow> engine" where
  "worker_fault worker_id w = send_worker_event [EvFatal worker_id, EvExited worker_id] (set_worker worker_id WExited w)"

text \<open>The trial directory cannot be prepared: the claim is rolled back.\<close>

definition worker_prepare_failed :: "engine_config \<Rightarrow> string \<Rightarrow> string \<Rightarrow> nat \<Rightarrow> engine \<Rightarrow> engine" where
  "worker_prepare_failed cfg worker_id trial_id i w =
     worker_fault worker_id
       (w\<lparr>en_broker := rollback_claim i trial_id (ts_variant_idx (ec_schedule cfg ! i)) BPending (en_broker w)\<rparr>)"

definition worker_launch ::
  "engine_config \<Rightarrow> engine_io \<Rightarrow> string \<Rightarrow> string \<Rightarrow> nat \<Rightarrow> run_control_active_trial \<Rightarrow> engine \<Rightarrow> engine" where
  "worker_launch cfg io worker_id trial_id i active w =
     (if ei_intent_ok io then
        send_worker_event [EvClaimed active] (set_worker worker_id (WRunning trial_id i)
          (w\<lparr>en_intents := (en_intents w)(trial_id \<mapsto> claim_intent_json trial_id i active (ec_run_id cfg) (ei_now io))\<rparr>))
      else
        worker_fault worker_id
          (case release_owned_to_pending worker_id trial_id i (en_broker w) of
             Inl _ \<Rightarrow> w
           | Inr b \<Rightarrow> w\<lparr>en_broker := b\<rparr>))"

definition worker_complete ::
  "string \<Rightarrow> string \<Rightarrow> nat \<Rightarrow> (string, trial_execution_result) result \<Rightarrow> engine \<Rightarrow> engine" where
  "worker_complete worker_id trial_id i result w =
     (let (result, w) = (case complete_owned worker_id trial_id i (en_broker w) of
            Inl _ \<Rightarrow> (Err ''slot broker ownership fault'', w)
          | Inr b \<Rightarrow> (result, w\<lparr>en_broker := b\<rparr>))
      in send_worker_event
           [EvCompleted \<lparr>ltc_worker_id = worker_id, ltc_trial_id = trial_id, ltc_schedule_idx = i, ltc_result = result\<rparr>]
           (set_worker worker_id WIdle w))"

section \<open>Start\<close>

definition enqueue_persisted :: "engine_config \<Rightarrow> nat \<times> trial_execution_result \<Rightarrow> unit engine_op" where
  "enqueue_persisted cfg = (\<lambda>(i, result).
     obind (oget (\<lambda>w. is_committed_schedule i (en_committer w))) (\<lambda>committed.
     if length (ec_schedule cfg) \<le> i \<or> committed then oreturn ()
     else enqueue_completion i (PendingTrial result)))"

definition enqueue_recovered ::
  "engine_config \<Rightarrow> engine_io \<Rightarrow> (nat \<times> trial_execution_result) list \<Rightarrow> run_control_active_trial \<Rightarrow> unit engine_op" where
  "enqueue_recovered cfg io persisted recovered =
     (case rcat_schedule_idx recovered of
        None \<Rightarrow> oreturn ()
      | Some i \<Rightarrow>
          obind (oget (\<lambda>w. is_committed_schedule i (en_committer w))) (\<lambda>committed.
          if length (ec_schedule cfg) \<le> i \<or> committed \<or> i \<in> fst ` set persisted then oreturn ()
          else
            let trial_id = rcat_trial_id recovered;
                result = trial_execution_result_worker_lost trial_id
                  (Some (ts_variant_idx (ec_schedule cfg ! i))) (Some ''worker_lost'')
            in obind (on_engine_trials
                 (cleanup_local_docker_attempt_runtime (cn_trials (ei_control io)) (ec_run_id cfg) trial_id)) (\<lambda>_.
               obind (on_engine_trials (reconcile_trial_attempt_as_abandoned (cn_trials (ei_control io)) trial_id)) (\<lambda>_.
               enqueue_completion i (PendingTrial result)))))"

definition engine_recovery :: "engine \<Rightarrow> slot_broker_recovery" where
  "engine_recovery w =
     \<lparr>sbr_committed_schedules = dc_committed_schedules (en_committer w),
      sbr_pending_completion_schedules = set (bt_keys (dc_pending_by_schedule (en_committer w))),
      sbr_pruned_variants = cms_pruned_variants (en_commit w),
      sbr_trial_index = cms_trial_index (en_commit w)\<rparr>"

definition start_broker :: "engine_config \<Rightarrow> unit engine_op" where
  "start_broker cfg w =
     (case broker_new (cms_store (en_commit w)) (ec_run_id cfg) (ec_schedule cfg) (engine_recovery w) of
        Inl e \<Rightarrow> (Err (EngBroker e), w)
      | Inr b \<Rightarrow> (Ok (), w\<lparr>en_broker := b\<rparr>))"

definition start_workers :: "engine_config \<Rightarrow> engine \<Rightarrow> engine" where
  "start_workers cfg w =
     w\<lparr>en_events := [],
       en_workers := (\<lambda>k. if k \<in> worker_name ` {..<dispatch_capacity cfg} then Some WIdle else None),
       en_requested := None, en_exited := 0, en_first_dispatched := False, en_phase := AtTop\<rparr>"

text \<open>Completions that an earlier engine left behind, and trials it left running, are enqueued.\<close>

definition enqueue_left_behind ::
  "engine_config \<Rightarrow> engine_io \<Rightarrow> run_control_active_trial list \<Rightarrow> unit engine_op" where
  "enqueue_left_behind cfg io recovered_active_trials =
     obind (load_engine_journal io) (\<lambda>journal_records.
     obind (omodify (\<lambda>w. w\<lparr>en_committer := from_progress (cms_progress (en_commit w)) journal_records\<rparr>)) (\<lambda>_.
     obind (on_engine_store (ensure_schedule_slots (ei_db io) (ec_run_id cfg) (ec_schedule cfg))) (\<lambda>_.
     obind (load_pending_trial_completion_records io) (\<lambda>persisted_pending.
     obind (oforeach persisted_pending (enqueue_persisted cfg)) (\<lambda>_.
     obind (oforeach recovered_active_trials (enqueue_recovered cfg io persisted_pending)) (\<lambda>_.
     persist_pending_trial_completions cfg io))))))"

definition engine_start ::
  "engine_config \<Rightarrow> engine_io \<Rightarrow> run_control_active_trial list \<Rightarrow> unit engine_op" where
  "engine_start cfg io recovered_active_trials =
     obind (olift (ensure (ec_isolate cfg) UnsupportedStatePolicy)) (\<lambda>_.
     obind (enqueue_left_behind cfg io recovered_active_trials) (\<lambda>_.
     obind (oget (\<lambda>w. cms_trial_index (en_commit w))) (\<lambda>trial_index.
     obind (drain_engine cfg io trial_index) (\<lambda>_.
     obind (persist_pending_trial_completions cfg io) (\<lambda>_.
     obind (start_broker cfg) (\<lambda>_.
     obind (write_engine_control cfg io ''running'') (\<lambda>_.
     omodify (start_workers cfg))))))))"

end
