(* ===== verification/Engine_Inv.thy ===== *)
theory Engine_Inv
  imports Engine
begin

text \<open>
  The schedule engine as a state machine: worker threads, the coordinator and other processes that write the control
  record interleave freely. The invariant accounts for every slot: a slot whose trial is over, but which is not
  committed yet, waits in the committer or its event waits in the channel.
\<close>

section \<open>Accounting for completions\<close>

definition accounted :: "BrokerSlotState list \<Rightarrow> nat set \<Rightarrow> nat set \<Rightarrow> nat list \<Rightarrow> bool" where
  "accounted slots committed pending queue \<longleftrightarrow>
     distinct queue \<and> set queue \<inter> pending = {} \<and> pending \<union> set queue \<subseteq> {..<length slots} \<and>
     (\<forall>i < length slots. slots ! i = BCompletedPendingCommit \<longleftrightarrow> i \<in> pending \<union> set queue) \<and>
     (\<forall>i < length slots. i \<in> committed \<longrightarrow> slots ! i = BCommitted)"

lemma accountedD:
  assumes "accounted slots committed pending queue"
  shows "distinct queue" "set queue \<inter> pending = {}"
    "i \<in> pending \<or> i \<in> set queue \<Longrightarrow> i < length slots \<and> slots ! i = BCompletedPendingCommit"
    "i < length slots \<Longrightarrow> slots ! i = BCompletedPendingCommit \<Longrightarrow> i \<in> pending \<or> i \<in> set queue"
    "i < length slots \<Longrightarrow> i \<in> committed \<Longrightarrow> slots ! i = BCommitted"
  using assms unfolding accounted_def by blast+

lemma accountedI:
  assumes "distinct queue" "set queue \<inter> pending = {}"
    and "\<And>i. i \<in> pending \<or> i \<in> set queue \<Longrightarrow> i < length slots \<and> slots ! i = BCompletedPendingCommit"
    and "\<And>i. i < length slots \<Longrightarrow> slots ! i = BCompletedPendingCommit \<Longrightarrow> i \<in> pending \<or> i \<in> set queue"
    and "\<And>i. i < length slots \<Longrightarrow> i \<in> committed \<Longrightarrow> slots ! i = BCommitted"
  shows "accounted slots committed pending queue"
  using assms unfolding accounted_def by blast

lemma accounted_set:
  assumes "accounted slots committed pending queue" "i < length slots"
    and "slots ! i \<in> {BPending, BActive}" "s \<in> {BPending, BActive}"
  shows "accounted (slots[i := s]) committed pending queue"
proof (rule accountedI)
  note a = accountedD [OF assms(1)]
  show "distinct queue" "set queue \<inter> pending = {}" by (rule a)+
  show "j < length (slots[i := s]) \<and> slots[i := s] ! j = BCompletedPendingCommit" if "j \<in> pending \<or> j \<in> set queue" for j
    using a(3) [OF that] assms(3) by (cases "j = i") auto
  show "j \<in> pending \<or> j \<in> set queue" if "j < length (slots[i := s])" "slots[i := s] ! j = BCompletedPendingCommit" for j
    using a(4) [of j] that assms(2,4) by (auto simp: nth_list_update split: if_splits)
  show "slots[i := s] ! j = BCommitted" if "j < length (slots[i := s])" "j \<in> committed" for j
    using a(5) [of j] that assms(2,3) by (auto simp: nth_list_update)
qed

lemma accounted_complete:
  assumes "accounted slots committed pending queue" "i < length slots" "slots ! i \<in> {BPending, BActive}"
  shows "accounted (slots[i := BCompletedPendingCommit]) committed pending (queue @ [i])"
proof (rule accountedI)
  note a = accountedD [OF assms(1)]
  have new: "i \<notin> pending" "i \<notin> set queue" using a(3) [of i] assms(3) by auto
  then show "distinct (queue @ [i])" "set (queue @ [i]) \<inter> pending = {}" using a(1,2) by auto
  show "j < length (slots[i := BCompletedPendingCommit]) \<and> slots[i := BCompletedPendingCommit] ! j = BCompletedPendingCommit"
    if "j \<in> pending \<or> j \<in> set (queue @ [i])" for j
    using a(3) [of j] that assms(2) by (auto simp: nth_list_update)
  show "j \<in> pending \<or> j \<in> set (queue @ [i])"
    if "j < length (slots[i := BCompletedPendingCommit])" "slots[i := BCompletedPendingCommit] ! j = BCompletedPendingCommit" for j
    using a(4) [of j] that by (cases "j = i") auto
  show "slots[i := BCompletedPendingCommit] ! j = BCommitted"
    if "j < length (slots[i := BCompletedPendingCommit])" "j \<in> committed" for j
    using a(5) [of j] that assms(2,3) by (auto simp: nth_list_update)
qed

lemma accounted_receive:
  "accounted slots committed pending (i # queue) \<Longrightarrow> accounted slots committed (insert i pending) queue"
  by (auto simp: accounted_def)

lemma accounted_not_committed:
  "accounted slots committed pending queue \<Longrightarrow> i \<in> pending \<or> i \<in> set queue \<Longrightarrow> i \<notin> committed"
  using accountedD(3) [of slots committed pending queue i] accountedD(5) [of slots committed pending queue i] by auto

lemma accounted_drain:
  assumes "accounted slots committed pending queue" "length slots' = length slots"
    and "\<And>i. i < length slots \<Longrightarrow> slots' ! i = (if i \<in> pending then BCommitted else slots ! i)"
  shows "accounted slots' (committed \<union> pending) {} queue"
proof (rule accountedI)
  note a = accountedD [OF assms(1)]
  show "distinct queue" "set queue \<inter> {} = {}" using a(1) by simp_all
  show "i < length slots' \<and> slots' ! i = BCompletedPendingCommit" if "i \<in> {} \<or> i \<in> set queue" for i
    using a(2) a(3) [of i] that assms(2) assms(3) [of i] by auto
  show "i \<in> {} \<or> i \<in> set queue" if "i < length slots'" "slots' ! i = BCompletedPendingCommit" for i
    using a(4) [of i] that assms(2) assms(3) [of i] by (auto split: if_splits)
  show "slots' ! i = BCommitted" if "i < length slots'" "i \<in> committed \<union> pending" for i
    using a(5) [of i] that assms(2) assms(3) [of i] by auto
qed

lemma accounted_nothing_left:
  assumes "accounted slots committed {} []" "i < length slots"
  shows "slots ! i \<noteq> BCompletedPendingCommit"
  using accountedD(4) [OF assms] by auto

section \<open>Events\<close>

fun completes :: "LocalWorkerEvent \<Rightarrow> (string \<times> nat) option" where
  "completes (EvCompleted c) = Some (ltc_worker_id c, ltc_schedule_idx c)"
| "completes (EvSkippedPruned worker_id i) = Some (worker_id, i)"
| "completes _ = None"

fun is_exited :: "LocalWorkerEvent \<Rightarrow> bool" where
  "is_exited (EvExited worker_id) = True"
| "is_exited _ = False"

definition completions :: "LocalWorkerEvent list \<Rightarrow> nat list" where
  "completions events = map snd (List.map_filter completes events)"

lemma completions_simps [simp]:
  "completions [] = []"
  "completions (e # events) = (case completes e of None \<Rightarrow> completions events | Some (_, i) \<Rightarrow> i # completions events)"
  "completions (events @ events') = completions events @ completions events'"
  by (auto simp: completions_def List.map_filter_def split: option.splits)

text \<open>The last event of a worker is that it is gone.\<close>

fun exits_last :: "(string \<rightharpoonup> worker_phase) \<Rightarrow> LocalWorkerEvent list \<Rightarrow> bool" where
  "exits_last workers [] \<longleftrightarrow> True"
| "exits_last workers (e # events) \<longleftrightarrow>
     exits_last workers events \<and>
     (\<forall>k i. completes e = Some (k, i) \<longrightarrow>
        workers k \<noteq> None \<and> (workers k = Some WExited \<longrightarrow> EvExited k \<in> set events))"

lemma exits_last_append:
  assumes "exits_last workers events"
    and "\<And>k. workers' k = None \<longleftrightarrow> workers k = None"
    and "\<And>k. workers' k = Some WExited \<Longrightarrow> workers k = Some WExited \<or> EvExited k \<in> set new"
    and "exits_last workers' new"
  shows "exits_last workers' (events @ new)"
  using assms(1)
proof (induction events)
  case Nil
  show ?case using assms(4) by simp
next
  case (Cons e events)
  have "workers' k \<noteq> None \<and> (workers' k = Some WExited \<longrightarrow> EvExited k \<in> set (events @ new))"
    if "completes e = Some (k, i)" for k i
    using Cons.prems that assms(2) [of k] assms(3) [of k] by auto
  with Cons show ?case by simp
qed

lemma exits_last_none_left:
  assumes "exits_last workers events" "\<And>k. workers k \<noteq> None \<Longrightarrow> workers k = Some WExited"
    and "\<And>e. e \<in> set events \<Longrightarrow> \<not> is_exited e"
  shows "completions events = []"
  using assms(1,3)
proof (induction events)
  case (Cons e events)
  have no: "EvExited k \<notin> set events" for k using Cons.prems(2) [of "EvExited k"] by auto
  have "completes e = None"
  proof (rule ccontr)
    assume "completes e \<noteq> None"
    then obtain k i where "completes e = Some (k, i)" by auto
    with Cons.prems(1) assms(2) [of k] no [of k] show False by auto
  qed
  with Cons show ?case by simp
qed simp

section \<open>Operations that leave the schedule alone\<close>

definition quiet :: "engine \<Rightarrow> engine \<Rightarrow> bool" where
  "quiet w w' \<longleftrightarrow>
     en_broker w' = en_broker w \<and> en_committer w' = en_committer w \<and> en_events w' = en_events w \<and>
     en_workers w' = en_workers w \<and> en_exited w' = en_exited w \<and> en_requested w' = en_requested w \<and>
     en_phase w' = en_phase w \<and>
     durable (en_commit w) \<subseteq> durable (en_commit w') \<and>
     sp_run_id (cms_progress (en_commit w')) = sp_run_id (cms_progress (en_commit w))"

lemma quiet_refl [simp]: "quiet w w"
  by (simp add: quiet_def)

lemma quiet_trans [trans]: "quiet u v \<Longrightarrow> quiet v w \<Longrightarrow> quiet u w"
  by (auto simp: quiet_def)

lemma quiet_control [simp]: "quiet w (w'\<lparr>en_control := c\<rparr>) \<longleftrightarrow> quiet w w'"
  by (simp add: quiet_def)

lemma on_engine_control_quiet: "quiet w s \<Longrightarrow> quiet w (snd (on_engine_control m s))"
  by (auto simp: on_engine_control_def split: prod.splits)

lemma on_engine_trials_quiet: "quiet w s \<Longrightarrow> quiet w (snd (on_engine_trials m s))"
  by (auto simp: on_engine_trials_def split: prod.splits)

lemma write_engine_control_quiet: "quiet w s \<Longrightarrow> quiet w (snd (write_engine_control cfg io status s))"
  by (auto simp: write_engine_control_def obind_def oget_def intro: on_engine_control_quiet)

lemma write_status_quiet: "quiet w s \<Longrightarrow> quiet w (snd (write_status cfg io s))"
  by (auto simp: write_status_def obind_def oget_def intro: write_engine_control_quiet)

lemma stored_run_id_quiet: "quiet w s \<Longrightarrow> quiet w (snd (stored_run_id io s))"
  unfolding stored_run_id_def by (rule on_engine_control_quiet)

lemma durable_store: "committed_in (st_slots (cms_store s)) r \<subseteq> committed_in (st_slots st) r \<Longrightarrow>
    r = sp_run_id (cms_progress s) \<Longrightarrow> durable s \<subseteq> durable (s\<lparr>cms_store := st\<rparr>)"
  by (simp add: durable_alt)

lemma on_engine_store_quiet:
  assumes "\<And>r st st'. m st = (r, st') \<Longrightarrow> committed_in (st_slots st) run \<subseteq> committed_in (st_slots st') run"
    and "quiet w s" "run = sp_run_id (cms_progress (en_commit s))"
  shows "quiet w (snd (on_engine_store m s))"
proof -
  obtain r st where st: "m (cms_store (en_commit s)) = (r, st)" by (cases "m (cms_store (en_commit s))")
  have "durable (en_commit s) \<subseteq> durable ((en_commit s)\<lparr>cms_store := st\<rparr>)"
    using assms(1) [OF st] assms(3) by (intro durable_store) simp_all
  with assms(2) show ?thesis by (auto simp: on_engine_store_def st quiet_def)
qed

lemma claim_keeps_committed:
  assumes "claim_schedule_slot io run_id i trial_id worker_id owner_id exp st = (r, st')"
  shows "committed_in (st_slots st) run \<subseteq> committed_in (st_slots st') run"
  using claim_schedule_slot_outcome [OF assms] by (auto simp: committed_in_def)

lemma transactional_invariant: "P s \<Longrightarrow> P (snd (m s)) \<Longrightarrow> P (snd (transactional m s))"
  by (auto simp: transactional_def split: prod.splits sum.splits)

lemma replace_pending_commits:
  "st_slots (snd (replace_pending_trial_completions io contracts run_id rows st)) = st_slots st"
  unfolding replace_pending_trial_completions_def
  by (rule transactional_invariant [where P = "\<lambda>t. st_slots t = st_slots st"])
    (auto simp: at_point_def oreturn_def ofail_def olift_def omodify_def oget_def modify_pending_def
      intro!: obind_invariant [where P = "\<lambda>t. st_slots t = st_slots st"]
        oforeach_invariant [where P = "\<lambda>t. st_slots t = st_slots st"])

lemma persist_pending_quiet:
  "quiet w s \<Longrightarrow> quiet w (snd (persist_pending_trial_completions cfg io s))"
proof -
  assume q: "quiet w s"
  have store: "quiet w (snd (on_engine_store (replace_pending_trial_completions db contracts run_id rows) t))"
    if "quiet w t" for db contracts run_id rows t
  proof (rule on_engine_store_quiet [OF _ that refl])
    fix r st st'
    assume "replace_pending_trial_completions db contracts run_id rows st = (r, st')"
    with replace_pending_commits [of db contracts run_id rows st] show
      "committed_in (st_slots st) (sp_run_id (cms_progress (en_commit t))) \<subseteq>
       committed_in (st_slots st') (sp_run_id (cms_progress (en_commit t)))" by simp
  qed
  show ?thesis
    unfolding persist_pending_trial_completions_def
    by (auto simp: oget_def oreturn_def ofail_def Let_def q store stored_run_id_quiet split: option.splits
        intro!: obind_invariant [where P = "quiet w"])
qed

section \<open>The invariant\<close>

fun holds :: "worker_phase \<Rightarrow> (string \<times> nat) option" where
  "holds (WClaimed trial_id i active) = Some (trial_id, i)"
| "holds (WRunning trial_id i) = Some (trial_id, i)"
| "holds _ = None"

definition workers_wf :: "engine_config \<Rightarrow> engine \<Rightarrow> bool" where
  "workers_wf cfg w \<longleftrightarrow>
     dom (en_workers w) = worker_name ` {..<dispatch_capacity cfg} \<and>
     (\<forall>k phase trial_id i. en_workers w k = Some phase \<longrightarrow> holds phase = Some (trial_id, i) \<longrightarrow>
        (\<exists>d. bt_get (bs_in_flight (en_broker w)) trial_id = Some d \<and> ifd_worker_id d = k \<and> ifd_schedule_idx d = i)) \<and>
     card {k. en_workers w k = Some WExited} = en_exited w + length (filter is_exited (en_events w)) \<and>
     exits_last (en_workers w) (en_events w)"

definition slots_accounted :: "engine \<Rightarrow> bool" where
  "slots_accounted w \<longleftrightarrow>
     accounted (bs_slot_states (en_broker w)) (dc_committed_schedules (en_committer w))
       (dom (bt_get (dc_pending_by_schedule (en_committer w)))) (completions (en_events w)) \<and>
     (\<forall>i < length (bs_slot_states (en_broker w)). bs_slot_states (en_broker w) ! i = BCommitted \<longrightarrow> i \<in> durable (en_commit w))"

definition core_inv :: "engine_config \<Rightarrow> engine \<Rightarrow> bool" where
  "core_inv cfg w \<longleftrightarrow>
     broker_inv (ec_broker cfg) (en_broker w) \<and> committer_inv (en_committer w, en_commit w) \<and> workers_wf cfg w \<and>
     slots_accounted w \<and> sp_run_id (cms_progress (en_commit w)) = ec_run_id cfg"

text \<open>Once the loop is left, nothing is under way.\<close>

definition all_settled :: "engine_config \<Rightarrow> engine \<Rightarrow> bool" where
  "all_settled cfg w \<longleftrightarrow>
     en_requested w = None \<and> \<not> has_pending (en_committer w) \<and> \<not> has_unfinished_slots (en_broker w) \<and>
     (\<forall>k. en_workers w k \<noteq> None \<longrightarrow> en_workers w k = Some WExited) \<and> completions (en_events w) = []"

definition engine_inv :: "engine_config \<Rightarrow> engine \<Rightarrow> bool" where
  "engine_inv cfg w \<longleftrightarrow>
     dispatch_capacity cfg \<le> usize_max \<and>
     (case en_phase w of
        AtTop \<Rightarrow> core_inv cfg w \<and> en_requested w \<noteq> Some EngCompleted
      | AtPoll \<Rightarrow> core_inv cfg w \<and> en_requested w \<noteq> Some EngCompleted
      | AtFinish \<Rightarrow> core_inv cfg w \<and> all_settled cfg w
      | Returned r \<Rightarrow> True
      | ShutDown r \<Rightarrow> True)"

lemma core_inv_quiet:
  assumes "core_inv cfg w" "quiet w w'"
  shows "core_inv cfg w'"
  using assms
  by (auto simp: core_inv_def quiet_def committer_inv_def workers_wf_def slots_accounted_def)

section \<open>Steps\<close>

text \<open>
  Trial indices do not reach the end of \<open>usize\<close>. Other processes write the control record and the state of trials; the
  tables of slots belong to the engine while it runs.
\<close>

datatype engine_label =
    Coordinator
  | WorkerClaim string
  | WorkerPrepareFailed string
  | WorkerLaunch string
  | WorkerComplete string "(string, trial_execution_result) result"
  | Outside

inductive engine_step :: "engine_config \<Rightarrow> engine \<Rightarrow> engine_label \<Rightarrow> engine \<Rightarrow> bool"
  for cfg :: engine_config where
  step_coordinator: "engine_step cfg w Coordinator (coordinator_step cfg io w)"
| step_claim:
    "en_workers w k = Some WIdle \<Longrightarrow> bs_trial_index (en_broker w) < usize_max \<Longrightarrow> worker_claim cfg io k w = Some w' \<Longrightarrow>
     engine_step cfg w (WorkerClaim k) w'"
| step_prepare_failed:
    "en_workers w k = Some (WClaimed trial_id i active) \<Longrightarrow>
     engine_step cfg w (WorkerPrepareFailed k) (worker_prepare_failed cfg k trial_id i w)"
| step_launch:
    "en_workers w k = Some (WClaimed trial_id i active) \<Longrightarrow>
     engine_step cfg w (WorkerLaunch k) (worker_launch cfg io k trial_id i active w)"
| step_worker_complete:
    "en_workers w k = Some (WRunning trial_id i) \<Longrightarrow>
     engine_step cfg w (WorkerComplete k result) (worker_complete k trial_id i result w)"
| step_outside: "engine_step cfg w Outside (w\<lparr>en_control := c\<rparr>)"

text \<open>
  The engine starts on a store that holds what progress and journal call committed as committed.
\<close>

definition engine_init :: "engine_config \<Rightarrow> engine \<Rightarrow> bool" where
  "engine_init cfg w \<longleftrightarrow>
     (\<exists>io recovered w0. engine_start cfg io recovered w0 = (Ok (), w) \<and>
        sp_run_id (cms_progress (en_commit w0)) = ec_run_id cfg \<and> dispatch_capacity cfg \<le> usize_max \<and>
        (\<forall>journal v. load_engine_journal io w0 = (Ok journal, v) \<longrightarrow>
           dc_committed_schedules (from_progress (cms_progress (en_commit w0)) journal) \<subseteq> durable (en_commit w0)))"

section \<open>Workers keep the invariant\<close>

lemma core_invD:
  assumes "core_inv cfg w"
  shows "broker_inv (ec_broker cfg) (en_broker w)" "committer_inv (en_committer w, en_commit w)" "workers_wf cfg w"
    "slots_accounted w" "sp_run_id (cms_progress (en_commit w)) = ec_run_id cfg"
  using assms by (simp_all add: core_inv_def)

lemma workers_wfD:
  assumes "workers_wf cfg w"
  shows "dom (en_workers w) = worker_name ` {..<dispatch_capacity cfg}"
    "en_workers w k = Some phase \<Longrightarrow> holds phase = Some (trial_id, i) \<Longrightarrow>
       \<exists>d. bt_get (bs_in_flight (en_broker w)) trial_id = Some d \<and> ifd_worker_id d = k \<and> ifd_schedule_idx d = i"
    "card {k. en_workers w k = Some WExited} = en_exited w + length (filter is_exited (en_events w))"
    "exits_last (en_workers w) (en_events w)"
  using assms unfolding workers_wf_def by blast+

text \<open>One worker moves and sends events; the trials the others hold stay in flight.\<close>

lemma workers_wf_move:
  assumes wf: "workers_wf cfg w" and k: "en_workers w k = Some old" "old \<noteq> WExited"
    and w': "en_workers w' = (en_workers w)(k \<mapsto> phase)" "en_events w' = en_events w @ new" "en_exited w' = en_exited w"
    and exits: "length (filter is_exited new) = (if phase = WExited then 1 else 0)"
      "phase = WExited \<Longrightarrow> EvExited k \<in> set new" "exits_last ((en_workers w)(k \<mapsto> phase)) new"
    and own: "\<And>trial_id i. holds phase = Some (trial_id, i) \<Longrightarrow>
      \<exists>d. bt_get (bs_in_flight (en_broker w')) trial_id = Some d \<and> ifd_worker_id d = k \<and> ifd_schedule_idx d = i"
    and others: "\<And>trial_id d. bt_get (bs_in_flight (en_broker w)) trial_id = Some d \<Longrightarrow> ifd_worker_id d \<noteq> k \<Longrightarrow>
      bt_get (bs_in_flight (en_broker w')) trial_id = Some d"
  shows "workers_wf cfg w'"
proof -
  note D = workers_wfD [OF wf]
  have dom: "dom (en_workers w') = worker_name ` {..<dispatch_capacity cfg}" using D(1) k(1) by (auto simp: w')
  have held: "\<exists>d. bt_get (bs_in_flight (en_broker w')) trial_id = Some d \<and> ifd_worker_id d = j \<and> ifd_schedule_idx d = i"
    if "en_workers w' j = Some ph" "holds ph = Some (trial_id, i)" for j ph trial_id i
  proof (cases "j = k")
    case True
    with that own [of trial_id i] show ?thesis by (simp add: w')
  next
    case False
    with that D(2) [of j ph trial_id i] obtain d where "bt_get (bs_in_flight (en_broker w)) trial_id = Some d"
        "ifd_worker_id d = j" "ifd_schedule_idx d = i" by (auto simp: w')
    with others [of trial_id d] False show ?thesis by auto
  qed
  have "finite (dom (en_workers w))" by (simp add: D(1))
  then have fin: "finite {j. en_workers w j = Some WExited}" by (rule finite_subset [rotated]) auto
  have "{j. en_workers w' j = Some WExited} =
      (if phase = WExited then insert k {j. en_workers w j = Some WExited} else {j. en_workers w j = Some WExited})"
    using k by (auto simp: w')
  then have "card {j. en_workers w' j = Some WExited} = en_exited w' + length (filter is_exited (en_events w'))"
    using D(3) exits(1) fin k by (auto simp: w')
  moreover have "exits_last (en_workers w') (en_events w')"
    unfolding w' by (rule exits_last_append [OF D(4)]) (use k exits(2,3) in \<open>auto split: if_splits\<close>)
  ultimately show ?thesis using dom held by (simp add: workers_wf_def)
qed

lemma dispatch_slot_fields:
  assumes "dispatch_slot b k now i st = (outcome, st')"
  shows "bs_slot_states st' = (bs_slot_states st)[i := BActive]"
    "\<exists>slot active d. outcome = Dispatched i (trial_id_of (saturating_add (bs_trial_index st) 1)) slot active \<and>
       bt_get (bs_in_flight st') = (bt_get (bs_in_flight st))(trial_id_of (saturating_add (bs_trial_index st) 1) \<mapsto> d) \<and>
       ifd_worker_id d = k \<and> ifd_schedule_idx d = i"
  using assms by (auto simp: dispatch_slot_def Let_def)

lemma fresh_trial_id:
  assumes "broker_inv b st" "bs_trial_index st < usize_max"
  shows "bt_get (bs_in_flight st) (trial_id_of (saturating_add (bs_trial_index st) 1)) = None"
proof (rule ccontr)
  have "saturating_add (bs_trial_index st) 1 = bs_trial_index st + 1"
    using assms(2) by (intro saturating_add_exact) linarith
  moreover assume "bt_get (bs_in_flight st) (trial_id_of (saturating_add (bs_trial_index st) 1)) \<noteq> None"
  ultimately obtain d where "bt_get (bs_in_flight st) (trial_id_of (bs_trial_index st + 1)) = Some d" by auto
  from broker_invD(3) [OF assms(1) this] show False by (auto simp: dispatch_wf_def)
qed

text \<open>What a slot change means for the account: only indices below the schedule's length occur.\<close>

lemma slots_accounted_update:
  assumes "slots_accounted w" "en_committer w' = en_committer w" "en_commit w' = en_commit w"
    and "accounted (bs_slot_states (en_broker w')) (dc_committed_schedules (en_committer w))
       (dom (bt_get (dc_pending_by_schedule (en_committer w)))) (completions (en_events w'))"
    and "bs_slot_states (en_broker w') = (bs_slot_states (en_broker w))[i := s]" "s \<noteq> BCommitted"
  shows "slots_accounted w'"
proof -
  have "j \<in> durable (en_commit w)"
    if "j < length (bs_slot_states (en_broker w'))" "bs_slot_states (en_broker w') ! j = BCommitted" for j
    using assms(1,5,6) that by (cases "j = i") (auto simp: slots_accounted_def)
  with assms(2-4) show ?thesis by (simp add: slots_accounted_def)
qed

lemma worker_claim_core:
  assumes inv: "core_inv cfg w" and k: "en_workers w k = Some WIdle" and index: "bs_trial_index (en_broker w) < usize_max"
    and claim: "worker_claim cfg io k w = Some w'"
  shows "core_inv cfg w' \<and> en_phase w' = en_phase w"
proof -
  note D = core_invD [OF inv]
  obtain outcome b where next_claim: "claim_next (ec_broker cfg) k (ei_now io) (en_broker w) = Some (outcome, b)"
    using claim by (auto simp: worker_claim_def split: option.splits)
  have b: "broker_inv (ec_broker cfg) b"
    by (rule broker_step_inv [OF D(1) step_claim_next [OF next_claim index]])
  have acc: "accounted (bs_slot_states (en_broker w)) (dc_committed_schedules (en_committer w))
      (dom (bt_get (dc_pending_by_schedule (en_committer w)))) (completions (en_events w))"
    using D(4) by (simp add: slots_accounted_def)
  from claim_next_outcome [OF next_claim] consider
      (none) "outcome = NoMoreWork" "b = en_broker w"
    | (wait) "outcome = MustWait"
    | (skip) i where "i < length (bs_slot_states (en_broker w))" "bs_slot_states (en_broker w) ! i = BPending"
        "outcome = SkippedPruned i" "b = (en_broker w)\<lparr>bs_slot_states := (bs_slot_states (en_broker w))[i := BCompletedPendingCommit]\<rparr>"
    | (dispatch) i where "i < length (bs_slot_states (en_broker w))" "bs_slot_states (en_broker w) ! i = BPending"
        "dispatch_slot (ec_broker cfg) k (ei_now io) i (en_broker w) = (outcome, b)"
    by (auto simp: Let_def)
  then show ?thesis
  proof cases
    case none
    with claim next_claim have w': "w' = send_worker_event [EvExited k] (set_worker k WExited w)"
      by (simp add: worker_claim_def)
    have "workers_wf cfg w'"
      by (rule workers_wf_move [OF D(3) k, where new = "[EvExited k]" and phase = WExited])
        (simp_all add: w' send_worker_event_def set_worker_def)
    with D show ?thesis by (simp add: core_inv_def w' send_worker_event_def set_worker_def slots_accounted_def)
  next
    case wait
    with claim next_claim show ?thesis by (simp add: worker_claim_def)
  next
    case (skip i)
    with claim next_claim have w': "w' = send_worker_event [EvSkippedPruned k i] (w\<lparr>en_broker := b\<rparr>)"
      by (simp add: worker_claim_def)
    have "workers_wf cfg w'"
      by (rule workers_wf_move [OF D(3) k, where new = "[EvSkippedPruned k i]" and phase = WIdle])
        (use k in \<open>simp_all add: w' send_worker_event_def skip(4) fun_upd_idem\<close>)
    moreover have "slots_accounted w'"
      by (rule slots_accounted_update [OF D(4), where i = i and s = BCompletedPendingCommit])
        (use accounted_complete [OF acc skip(1)] skip in \<open>simp_all add: w' send_worker_event_def\<close>)
    ultimately show ?thesis using D b by (simp add: core_inv_def w' send_worker_event_def)
  next
    case (dispatch i)
    note f = dispatch_slot_fields [OF dispatch(3)]
    obtain slot active d where o: "outcome = Dispatched i (trial_id_of (saturating_add (bs_trial_index (en_broker w)) 1)) slot active"
      and m: "bt_get (bs_in_flight b) = (bt_get (bs_in_flight (en_broker w)))(trial_id_of (saturating_add (bs_trial_index (en_broker w)) 1) \<mapsto> d)"
        "ifd_worker_id d = k" "ifd_schedule_idx d = i"
      using f(2) by (elim exE conjE)
    define t where "t = trial_id_of (saturating_add (bs_trial_index (en_broker w)) 1)"
    have m1: "bt_get (bs_in_flight b) = (bt_get (bs_in_flight (en_broker w)))(t \<mapsto> d)" using m(1) by (simp only: t_def)
    have new: "bt_get (bs_in_flight (en_broker w)) t = None" unfolding t_def by (rule fresh_trial_id [OF D(1) index])
    have w': "w' = set_worker k (WClaimed t i active) (w\<lparr>en_broker := b\<rparr>)"
      using claim next_claim o by (simp add: worker_claim_def t_def)
    have "workers_wf cfg w'"
      by (rule workers_wf_move [OF D(3) k, where new = "[]" and phase = "WClaimed t i active"])
        (use m1 m(2,3) new in \<open>auto simp: w' set_worker_def\<close>)
    moreover have "slots_accounted w'"
      by (rule slots_accounted_update [OF D(4), where i = i and s = BActive])
        (use accounted_set [OF acc dispatch(1), of BActive] dispatch(2) f(1) in \<open>simp_all add: w' set_worker_def\<close>)
    ultimately show ?thesis using D b by (simp add: core_inv_def w' set_worker_def)
  qed
qed

text \<open>A worker gives its trial back, finished or not.\<close>

lemma held_trial:
  assumes inv: "core_inv cfg w" and k: "en_workers w k = Some phase" "holds phase = Some (t, i)"
  shows "\<exists>d. bt_get (bs_in_flight (en_broker w)) t = Some d \<and> ifd_worker_id d = k \<and> ifd_schedule_idx d = i \<and>
    ifd_variant_idx d = ts_variant_idx (ec_schedule cfg ! i) \<and> i < length (bs_slot_states (en_broker w)) \<and>
    bs_slot_states (en_broker w) ! i = BActive"
proof -
  note D = core_invD [OF inv]
  obtain d where d: "bt_get (bs_in_flight (en_broker w)) t = Some d" "ifd_worker_id d = k" "ifd_schedule_idx d = i"
    using workers_wfD(2) [OF D(3) k] by blast
  from broker_invD(3) [OF D(1) d(1)] d show ?thesis by (auto simp: dispatch_wf_def)
qed

lemma give_back_core:
  assumes inv: "core_inv cfg w" and k: "en_workers w k = Some phase" "holds phase = Some (t, i)"
    and w': "en_broker w' = rollback_claim i t (ts_variant_idx (ec_schedule cfg ! i)) s (en_broker w)"
      "en_workers w' = (en_workers w)(k \<mapsto> phase')" "en_events w' = en_events w @ new" "en_exited w' = en_exited w"
      "en_committer w' = en_committer w" "en_commit w' = en_commit w"
    and s: "s = BPending \<and> completions new = [] \<or> s = BCompletedPendingCommit \<and> completions new = [i]"
    and phase': "holds phase' = None" "length (filter is_exited new) = (if phase' = WExited then 1 else 0)"
      "phase' = WExited \<Longrightarrow> EvExited k \<in> set new" "exits_last ((en_workers w)(k \<mapsto> phase')) new"
  shows "core_inv cfg w'"
proof -
  note D = core_invD [OF inv]
  obtain d where d: "bt_get (bs_in_flight (en_broker w)) t = Some d" "ifd_worker_id d = k" "ifd_schedule_idx d = i"
      "ifd_variant_idx d = ts_variant_idx (ec_schedule cfg ! i)"
    and i: "i < length (bs_slot_states (en_broker w))" "bs_slot_states (en_broker w) ! i = BActive"
    using held_trial [OF inv k] by blast
  have flight: "bt_get (bs_in_flight (en_broker w')) = (bt_get (bs_in_flight (en_broker w)))(t := None)"
    and slots: "bs_slot_states (en_broker w') = (bs_slot_states (en_broker w))[i := s]"
    using i(1) by (simp_all add: w' rollback_claim_def set_slot_state_def)
  have "broker_inv (ec_broker cfg) (en_broker w')"
  proof -
    have "broker_step (ec_broker cfg) (en_broker w) (if s = BPending then ReleaseOwned k t i else CompleteOwned k t i) (en_broker w')"
      using d s by (auto simp: w' complete_owned_def release_owned_to_pending_def take_owned_Ok
          intro!: step_release_owned step_complete)
    then show ?thesis by (rule broker_step_inv [OF D(1)])
  qed
  moreover have "workers_wf cfg w'"
    by (rule workers_wf_move [OF D(3) k(1) _ w'(2-4) phase'(2-4)])
      (use k(2) phase'(1) flight d in auto)
  moreover have "slots_accounted w'"
  proof (rule slots_accounted_update [OF D(4) w'(5,6) _ slots])
    have acc: "accounted (bs_slot_states (en_broker w)) (dc_committed_schedules (en_committer w))
        (dom (bt_get (dc_pending_by_schedule (en_committer w)))) (completions (en_events w))"
      using D(4) by (simp add: slots_accounted_def)
    show "accounted (bs_slot_states (en_broker w')) (dc_committed_schedules (en_committer w))
        (dom (bt_get (dc_pending_by_schedule (en_committer w)))) (completions (en_events w'))"
      using s accounted_set [OF acc i(1), of BPending] accounted_complete [OF acc i(1)] i(2)
      by (auto simp: slots w'(3))
  qed (use s in auto)
  ultimately show ?thesis using D by (simp add: core_inv_def w'(5,6))
qed

lemma worker_prepare_failed_core:
  assumes "core_inv cfg w" "en_workers w k = Some (WClaimed t i active)"
  shows "core_inv cfg (worker_prepare_failed cfg k t i w)"
  by (rule give_back_core [OF assms, where new = "[EvFatal k, EvExited k]" and phase' = WExited])
    (simp_all add: worker_prepare_failed_def worker_fault_def send_worker_event_def set_worker_def)

lemma owned_release:
  assumes inv: "core_inv cfg w" and k: "en_workers w k = Some phase" "holds phase = Some (t, i)"
  shows "take_owned s k t i (en_broker w) = Ok (rollback_claim i t (ts_variant_idx (ec_schedule cfg ! i)) s (en_broker w))"
  using held_trial [OF assms] by (auto simp: take_owned_Ok)

lemma worker_launch_core:
  assumes inv: "core_inv cfg w" and k: "en_workers w k = Some (WClaimed t i active)"
  shows "core_inv cfg (worker_launch cfg io k t i active w)"
proof (cases "ei_intent_ok io")
  case True
  let ?w = "worker_launch cfg io k t i active w"
  note D = core_invD [OF inv]
  have "workers_wf cfg ?w"
    by (rule workers_wf_move [OF D(3) k, where new = "[EvClaimed active]" and phase = "WRunning t i"])
      (use held_trial [OF inv k holds.simps(1)] True in \<open>auto simp: worker_launch_def send_worker_event_def set_worker_def\<close>)
  with D True show ?thesis
    by (simp add: core_inv_def worker_launch_def send_worker_event_def set_worker_def slots_accounted_def)
next
  case False
  show ?thesis
    by (rule give_back_core [OF inv k, where new = "[EvFatal k, EvExited k]" and phase' = WExited])
      (use owned_release [OF inv k holds.simps(1), where s = BPending] False in
        \<open>simp_all add: worker_launch_def worker_fault_def send_worker_event_def set_worker_def release_owned_to_pending_def\<close>)
qed

lemma worker_complete_core:
  assumes inv: "core_inv cfg w" and k: "en_workers w k = Some (WRunning t i)"
  shows "core_inv cfg (worker_complete k t i result w)"
  by (rule give_back_core [OF inv k, where phase' = WIdle and
        new = "[EvCompleted \<lparr>ltc_worker_id = k, ltc_trial_id = t, ltc_schedule_idx = i, ltc_result = result\<rparr>]"])
    (use owned_release [OF inv k holds.simps(2), where s = BCompletedPendingCommit] in
      \<open>simp_all add: worker_complete_def send_worker_event_def set_worker_def complete_owned_def\<close>)

end
