(* ===== verification/Engine_Steps.thy ===== *)
theory Engine_Steps
  imports Engine_Inv
begin

text \<open>
  The coordinator keeps the invariant of the schedule engine: polling, handling an event, draining and leaving the
  loop. With it, an engine that reports completion has every slot committed in the store, except those the broker
  found active there when it started.
\<close>

section \<open>Draining\<close>

lemma fold_mark_committed:
  assumes "broker_inv b st" "\<forall>i \<in> set is. i < length (bs_slot_states st) \<and> bs_slot_states st ! i \<noteq> BActive"
  shows "broker_inv b (fold mark_committed is st) \<and> bs_in_flight (fold mark_committed is st) = bs_in_flight st \<and>
    length (bs_slot_states (fold mark_committed is st)) = length (bs_slot_states st) \<and>
    (\<forall>i < length (bs_slot_states st). bs_slot_states (fold mark_committed is st) ! i =
       (if i \<in> set is then BCommitted else bs_slot_states st ! i))"
  using assms
proof (induction "is" arbitrary: st)
  case (Cons j "is")
  let ?st = "mark_committed j st"
  have j: "j < length (bs_slot_states st)" "bs_slot_states st ! j \<noteq> BActive" using Cons.prems(2) by simp_all
  have slots: "bs_slot_states ?st = (bs_slot_states st)[j := BCommitted]" "bs_in_flight ?st = bs_in_flight st"
    using j(1) by (simp_all add: mark_committed_def set_slot_state_def)
  have "broker_inv b ?st" by (rule broker_step_inv [OF Cons.prems(1) step_mark_committed [OF j]])
  moreover have "\<forall>i \<in> set is. i < length (bs_slot_states ?st) \<and> bs_slot_states ?st ! i \<noteq> BActive"
    using Cons.prems(2) by (auto simp: slots nth_list_update)
  ultimately show ?case using Cons.IH [of ?st] by (auto simp: slots nth_list_update)
qed simp

lemma durable_trial_index [simp]: "durable (s\<lparr>cms_trial_index := n\<rparr>) = durable s"
  "durable (s\<lparr>cms_trial_index := n, cms_progress := (cms_progress s)\<lparr>sp_next_trial_index := m\<rparr>\<rparr>) = durable s"
  by (simp_all add: durable_alt)

lemma settle_commits_core:
  assumes inv: "core_inv cfg w" and drained: "drain_engine cfg io n w = (Ok k, w1)"
  shows "core_inv cfg (settle_commits (dc_committed_schedules (en_committer w)) w1) \<and>
    dc_pending_by_schedule (en_committer w1) = []"
proof -
  let ?c = "en_committer w" and ?s = "(en_commit w)\<lparr>cms_trial_index := n\<rparr>"
  let ?p = "dom (bt_get (dc_pending_by_schedule ?c))"
  let ?w = "settle_commits (dc_committed_schedules ?c) w1"
  note D = core_invD [OF inv]
  obtain c' s' where dr: "drain_ready (ei_commit io) (ec_max_failures cfg) (?c, ?s) = (Ok k, (c', s'))"
    and w1: "w1 = w\<lparr>en_committer := c', en_commit := s'\<lparr>cms_trial_index := cms_trial_index (en_commit w)\<rparr>\<rparr>"
    using drained by (auto simp: drain_engine_def map_err_def split: prod.splits sum.splits)
  have wf: "bt_wf (dc_pending_by_schedule ?c)" using D(2) by (simp add: committer_inv_def committer_wf_def)
  have keys: "set (bt_keys (dc_pending_by_schedule ?c)) = ?p" by (simp add: set_bt_keys)
  note all = drain_ready_all [OF wf dr, unfolded keys]
  have acc: "accounted (bs_slot_states (en_broker w)) (dc_committed_schedules ?c) ?p (completions (en_events w))"
    using D(4) by (simp add: slots_accounted_def)
  have newly: "dc_committed_schedules c' - dc_committed_schedules ?c = ?p"
    using all accounted_not_committed [OF acc] by auto
  have fin: "finite ?p" unfolding keys [symmetric] by simp
  have marks: "\<forall>i \<in> set (sorted_list_of_set ?p). i < length (bs_slot_states (en_broker w)) \<and> bs_slot_states (en_broker w) ! i \<noteq> BActive"
    using accountedD(3) [OF acc] fin by auto
  define b where "b = fold mark_committed (sorted_list_of_set ?p) (en_broker w)"
  have b: "broker_inv (ec_broker cfg) b" "bs_in_flight b = bs_in_flight (en_broker w)"
      "length (bs_slot_states b) = length (bs_slot_states (en_broker w))"
      "\<And>i. i < length (bs_slot_states (en_broker w)) \<Longrightarrow>
        bs_slot_states b ! i = (if i \<in> ?p then BCommitted else bs_slot_states (en_broker w) ! i)"
    using fold_mark_committed [OF D(1) marks] fin by (simp_all add: b_def)
  have w': "en_broker ?w = update_pruned_variants (cms_pruned_variants s') b" "en_committer ?w = c'"
      "en_workers ?w = en_workers w" "en_events ?w = en_events w" "en_exited ?w = en_exited w"
    by (simp_all add: settle_commits_def Let_def w1 newly b_def)
  have dur: "durable (en_commit ?w) = durable s'" by (simp add: settle_commits_def Let_def w1 durable_alt)
  have durs: "durable s' = durable (en_commit w) \<union> ?p" using all by simp
  have "broker_inv (ec_broker cfg) (en_broker ?w)"
    unfolding w' by (rule broker_step_inv [OF b(1) step_prune])
  moreover have "committer_inv (en_committer ?w, en_commit ?w)"
  proof -
    have "committer_inv (?c, ?s)" using D(2) by (simp add: committer_inv_def)
    from drain_ready_inv [OF this, of "ei_commit io" "ec_max_failures cfg"] dr
    show ?thesis by (simp add: committer_inv_def w' dur)
  qed
  moreover have "workers_wf cfg ?w"
    using D(3) by (simp add: workers_wf_def w' update_pruned_variants_def b(2))
  moreover have "slots_accounted ?w"
  proof -
    have pend: "dc_pending_by_schedule c' = []" "dc_committed_schedules c' = dc_committed_schedules ?c \<union> ?p" using all by simp_all
    have "accounted (bs_slot_states b) (dc_committed_schedules ?c \<union> ?p) {} (completions (en_events w))"
      by (rule accounted_drain [OF acc b(3,4)])
    moreover have "i \<in> durable s'" if "i < length (bs_slot_states b)" "bs_slot_states b ! i = BCommitted" for i
    proof (cases "i \<in> ?p")
      case True
      then show ?thesis by (simp add: durs)
    next
      case False
      with that b(3) b(4) [of i] have "i < length (bs_slot_states (en_broker w))" "bs_slot_states (en_broker w) ! i = BCommitted"
        by simp_all
      with D(4) show ?thesis by (simp add: slots_accounted_def durs)
    qed
    ultimately show ?thesis by (simp add: slots_accounted_def w' update_pruned_variants_def dur pend)
  qed
  moreover have "sp_run_id (cms_progress (en_commit ?w)) = ec_run_id cfg"
    using drain_ready_run_id [OF wf dr] D(5) by (simp add: settle_commits_def Let_def w1)
  ultimately show ?thesis using all by (simp add: core_inv_def w1)
qed

lemma drain_and_persist_core:
  assumes "core_inv cfg w" "drain_ready_and_persist cfg io w = (Ok k, w')"
  shows "core_inv cfg w' \<and> dc_pending_by_schedule (en_committer w') = [] \<and> en_events w' = en_events w \<and>
    en_workers w' = en_workers w \<and> en_exited w' = en_exited w \<and> en_requested w' = en_requested w"
proof -
  obtain w1 where 1: "drain_engine cfg io (bs_trial_index (en_broker w)) w = (Ok k, w1)"
    and 2: "persist_pending_trial_completions cfg io (settle_commits (dc_committed_schedules (en_committer w)) w1) = (Ok (), w')"
    using assms(2) by (auto simp: drain_ready_and_persist_def obind_eq_Ok oget_def omodify_def oreturn_def)
  let ?v = "settle_commits (dc_committed_schedules (en_committer w)) w1"
  note settled = settle_commits_core [OF assms(1) 1]
  have q: "quiet ?v w'" using persist_pending_quiet [of ?v ?v cfg io] 2 by simp
  have same: "en_events ?v = en_events w" "en_workers ?v = en_workers w" "en_exited ?v = en_exited w"
      "en_requested ?v = en_requested w" "en_committer ?v = en_committer w1"
    using 1 by (auto simp: settle_commits_def Let_def drain_engine_def split: prod.splits)
  show ?thesis
    using core_inv_quiet [OF _ q] settled q same by (simp add: quiet_def)
qed

section \<open>Events\<close>

lemma pop_event_core:
  assumes "core_inv cfg w" "en_events w = e # rest" "completes e = None" "\<not> is_exited e"
  shows "core_inv cfg (w\<lparr>en_events := rest\<rparr>)"
  using assms by (auto simp: core_inv_def workers_wf_def slots_accounted_def)

lemma pop_exited_core:
  assumes "core_inv cfg w" "en_events w = EvExited k # rest" "dispatch_capacity cfg \<le> usize_max"
  shows "core_inv cfg (w\<lparr>en_events := rest, en_exited := saturating_add (en_exited w) 1\<rparr>)"
proof -
  note D = workers_wfD [OF core_invD(3) [OF assms(1)]]
  have "{k. en_workers w k = Some WExited} \<subseteq> worker_name ` {..<dispatch_capacity cfg}" using D(1) by auto
  then have "card {k. en_workers w k = Some WExited} \<le> card (worker_name ` {..<dispatch_capacity cfg})" by (intro card_mono) simp_all
  also have "\<dots> \<le> dispatch_capacity cfg" using card_image_le [of "{..<dispatch_capacity cfg}" worker_name] by simp
  finally have "en_exited w + 1 \<le> usize_max" using D(3) assms(2,3) by simp
  then have "saturating_add (en_exited w) 1 = en_exited w + 1" by (rule saturating_add_exact)
  with assms(1,2) show ?thesis by (auto simp: core_inv_def workers_wf_def slots_accounted_def)
qed

lemma enqueue_core:
  assumes inv: "core_inv cfg w" and e: "en_events w = e # rest" "completes e = Some (k, i)"
    and enq: "enqueue_completion i p (w\<lparr>en_events := rest\<rparr>) = (Ok (), w')"
  shows "core_inv cfg w'"
proof -
  note D = core_invD [OF inv]
  have acc: "accounted (bs_slot_states (en_broker w)) (dc_committed_schedules (en_committer w))
      (dom (bt_get (dc_pending_by_schedule (en_committer w)))) (i # completions rest)"
    using D(4) e by (simp add: slots_accounted_def)
  have new: "i \<notin> dc_committed_schedules (en_committer w)" using accounted_not_committed [OF acc] by simp
  have wf: "committer_wf (en_committer w)" using D(2) by (simp add: committer_inv_def)
  obtain fresh c where c: "enqueue i p (en_committer w) = Ok (fresh, c)" and w': "w' = w\<lparr>en_events := rest, en_committer := c\<rparr>"
    using enq by (auto simp: enqueue_completion_def split: sum.splits)
  have "commit_key_for_pending i p \<notin> dc_committed_keys (en_committer w)"
    using committer_wfD(3) [OF wf] new by blast
  moreover have "bt_get (dc_pending_by_schedule (en_committer w)) i = None"
    using accountedD(2) [OF acc] by (auto simp: domIff)
  ultimately have pending: "dc_pending_by_schedule c = bt_insert i p (dc_pending_by_schedule (en_committer w))"
    using c new by (auto simp: enqueue_def Let_def split: if_splits)
  note same = enqueue_wf [OF wf c]
  have "committer_inv (c, en_commit w)" using D(2) same by (simp add: committer_inv_def)
  moreover have "accounted (bs_slot_states (en_broker w)) (dc_committed_schedules c)
      (dom (bt_get (dc_pending_by_schedule c))) (completions rest)"
    using accounted_receive [OF acc] same by (simp add: pending)
  moreover have "workers_wf cfg w'"
  proof -
    have "\<not> is_exited e" using e(2) by (cases e) simp_all
    with D(3) e(1) show ?thesis by (auto simp: workers_wf_def w')
  qed
  ultimately show ?thesis using D by (simp add: core_inv_def slots_accounted_def w')
qed

lemma quiet_step: "m w = (r, w') \<Longrightarrow> (\<And>s. quiet w s \<Longrightarrow> quiet w (snd (m s))) \<Longrightarrow> quiet w w'"
  by (metis quiet_refl snd_conv)

lemma write_status_core:
  assumes "core_inv cfg w" "write_status cfg io w = (r, w')"
  shows "core_inv cfg w'" "quiet w w'"
proof -
  show q: "quiet w w'" using write_status_quiet [of w w cfg io] assms(2) by simp
  show "core_inv cfg w'" by (rule core_inv_quiet [OF assms(1) q])
qed

lemma handle_claimed_core:
  assumes inv: "core_inv cfg w" and ok: "handle_claimed cfg io active w = (Ok (), w')"
  shows "core_inv cfg w'"
proof -
  obtain i x w1 where claim: "on_engine_store (claim_schedule_slot (ei_db io) (ec_run_id cfg) i (rcat_trial_id active)
        (rcat_worker_id active) ''slot-broker'' None) w = (Ok x, w1)"
    and rest: "obind (oget en_first_dispatched) (\<lambda>dispatched.
       obind (if dispatched then oreturn ()
              else obind (omodify (\<lambda>w. w\<lparr>en_first_dispatched := True\<rparr>)) (\<lambda>_.
                   olift (ensure (ei_perf_ok io) PerfRecord))) (\<lambda>_.
       write_status cfg io)) w1 = (Ok (), w')"
    using ok by (auto simp: handle_claimed_def obind_eq_Ok olift_def)
  have "quiet w w1"
    using on_engine_store_quiet [where m = "claim_schedule_slot (ei_db io) (ec_run_id cfg) i (rcat_trial_id active)
        (rcat_worker_id active) ''slot-broker'' None" and w = w and s = w, OF claim_keeps_committed quiet_refl refl] claim
    by simp
  then have w1: "core_inv cfg w1" by (rule core_inv_quiet [OF inv])
  have first: "core_inv cfg (w1\<lparr>en_first_dispatched := True\<rparr>)"
    by (rule core_inv_quiet [OF w1]) (simp add: quiet_def)
  from rest w1 first show ?thesis
    by (cases "en_first_dispatched w1")
      (auto simp: obind_eq_Ok oget_def oreturn_def omodify_def olift_def dest: write_status_core(1))
qed

lemma enqueued_completion_core:
  assumes "core_inv cfg w" "en_events w = e # rest" "completes e = Some (k, i)"
    and "enqueue_completion i p (w\<lparr>en_events := rest\<rparr>) = (Ok (), w1)" "quiet w1 w2"
    and "drain_ready_and_persist cfg io w2 = (Ok n, w3)" "write_status cfg io w3 = (Ok (), w')"
  shows "core_inv cfg w'"
proof -
  have "core_inv cfg w2" by (rule core_inv_quiet [OF enqueue_core [OF assms(1-4)] assms(5)])
  from drain_and_persist_core [OF this assms(6)] write_status_core(1) [OF _ assms(7)] show ?thesis by blast
qed

lemma handle_event_core:
  assumes inv: "core_inv cfg w" and e: "en_events w = e # rest" and cap: "dispatch_capacity cfg \<le> usize_max"
    and ok: "handle_event cfg io e (w\<lparr>en_events := rest\<rparr>) = (Ok (), w')"
  shows "core_inv cfg w'"
proof (cases e)
  case (EvClaimed active)
  from pop_event_core [OF inv e] ok show ?thesis by (auto simp: EvClaimed intro: handle_claimed_core)
next
  case (EvCompleted completion)
  let ?i = "ltc_schedule_idx completion"
  obtain result w1 w2 n w3 where enq: "enqueue_completion ?i (PendingTrial result) (w\<lparr>en_events := rest\<rparr>) = (Ok (), w1)"
    and persist: "persist_pending_trial_completions cfg io w1 = (Ok (), w2)"
    and steps: "drain_ready_and_persist cfg io w2 = (Ok n, w3)" "write_status cfg io w3 = (Ok (), w')"
    using ok by (auto simp: EvCompleted handle_completed_def obind_eq_Ok olift_def)
  have "quiet w1 w2" using persist_pending_quiet [of w1 w1 cfg io] persist by simp
  from enqueued_completion_core [OF inv e _ enq this steps] show ?thesis by (simp add: EvCompleted)
next
  case (EvSkippedPruned k i)
  obtain w1 n w3 where enq: "enqueue_completion i PendingSkippedPruned (w\<lparr>en_events := rest\<rparr>) = (Ok (), w1)"
    and steps: "drain_ready_and_persist cfg io w1 = (Ok n, w3)" "write_status cfg io w3 = (Ok (), w')"
    using ok by (auto simp: EvSkippedPruned handle_skipped_def obind_eq_Ok)
  from enqueued_completion_core [OF inv e _ enq quiet_refl steps] show ?thesis by (simp add: EvSkippedPruned)
next
  case (EvExited k)
  with ok have "w' = w\<lparr>en_events := rest, en_exited := saturating_add (en_exited w) 1\<rparr>" by (simp add: omodify_def)
  with pop_exited_core [OF inv _ cap] e EvExited show ?thesis by simp
next
  case (EvFatal k)
  with ok show ?thesis by (simp add: obind_def omodify_def ofail_def)
qed

lemma engine_poll_core:
  assumes "core_inv cfg w" "dispatch_capacity cfg \<le> usize_max" "engine_poll cfg io w = (Ok (), w')"
  shows "core_inv cfg w'"
proof (cases "en_events w")
  case Nil
  with assms(3) have "w' = w" by (auto simp: engine_poll_def obind_eq_Ok oget_def oreturn_def ofail_def split: if_splits)
  with assms(1) show ?thesis by simp
next
  case (Cons e rest)
  with assms(3) have "handle_event cfg io e (w\<lparr>en_events := rest\<rparr>) = (Ok (), w')"
    by (simp add: engine_poll_def obind_eq_Ok oget_def omodify_def)
  from handle_event_core [OF assms(1) Cons assms(2) this] show ?thesis .
qed

section \<open>The top of the loop and its end\<close>

lemma request_outcome_core: "core_inv cfg w \<Longrightarrow> core_inv cfg (request_outcome outcome w)"
  using broker_step_inv [OF _ step_stop, of "ec_broker cfg" "en_broker w"]
  by (auto simp: core_inv_def request_outcome_def workers_wf_def slots_accounted_def stop_accepting_def)

lemma leave_loop_settled:
  assumes inv: "core_inv cfg w" and leave: "decide_flow cfg w = Ok LeaveLoop"
  shows "all_settled cfg w"
proof -
  note D = workers_wfD [OF core_invD(3) [OF inv]]
  have d: "en_requested w = None" "dispatch_capacity cfg \<le> en_exited w" "\<not> has_pending (en_committer w)"
      "\<not> has_unfinished_slots (en_broker w)"
    using leave by (auto simp: decide_flow_def Let_def split: option.splits if_splits)
  let ?gone = "{k. en_workers w k = Some WExited}"
  have fin: "finite (dom (en_workers w))" by (simp add: D(1))
  have sub: "?gone \<subseteq> dom (en_workers w)" by auto
  have "card (dom (en_workers w)) \<le> dispatch_capacity cfg"
    unfolding D(1) using card_image_le [of "{..<dispatch_capacity cfg}" worker_name] by simp
  then have le: "card (dom (en_workers w)) \<le> card ?gone" and none: "length (filter is_exited (en_events w)) = 0"
    using card_mono [OF fin sub] D(3) d(2) by linarith+
  have "?gone = dom (en_workers w)"
    using card_subset_eq [OF fin sub] card_mono [OF fin sub] le by simp
  then have gone: "en_workers w k = Some WExited" if "en_workers w k \<noteq> None" for k using that by auto
  have "completions (en_events w) = []"
    by (rule exits_last_none_left [OF D(4) gone]) (use none in \<open>auto simp: filter_empty_conv\<close>)
  with d gone show ?thesis by (simp add: all_settled_def)
qed

lemma engine_top_core:
  assumes inv: "core_inv cfg w" and top: "engine_top cfg io w = (Ok flow, w')" and flow: "flow = GoOn \<or> flow = LeaveLoop"
  shows "core_inv cfg w' \<and> (flow = LeaveLoop \<longrightarrow> all_settled cfg w')"
proof -
  have "\<not> ei_interrupted io"
    using top flow by (auto simp: engine_top_def obind_eq_Ok oreturn_def)
  with top obtain external w1 where load: "on_engine_control (load_external_schedule_outcome_request (ei_control io)) w = (Ok external, w1)"
    and w': "w' = (case external of None \<Rightarrow> id | Some outcome \<Rightarrow> request_outcome outcome) w1"
    and decide: "decide_flow cfg w' = Ok flow"
    by (auto simp: engine_top_def obind_eq_Ok omodify_def oget_def olift_def)
  have "quiet w w1" using on_engine_control_quiet [of w w "load_external_schedule_outcome_request (ei_control io)"] load by simp
  then have "core_inv cfg w1" by (rule core_inv_quiet [OF inv])
  then have "core_inv cfg w'" using request_outcome_core by (simp add: w' split: option.split)
  with leave_loop_settled [of cfg w'] decide show ?thesis by blast
qed

lemma engine_finish_settled:
  assumes inv: "core_inv cfg w" "all_settled cfg w" and fin: "engine_finish cfg io w = (Ok outcome, w')" and i: "i < length (ec_schedule cfg)"
  shows "outcome = EngCompleted \<and>
    (i \<in> durable (en_commit w') \<or> bs_slot_states (en_broker w') ! i = BBlockedActive) \<and>
    sp_run_id (cms_progress (en_commit w')) = ec_run_id cfg"
proof -
  obtain n w1 where 1: "drain_ready_and_persist cfg io w = (Ok n, w1)" and 2: "write_status cfg io w1 = (Ok (), w')"
    and out: "outcome = (case en_requested w' of None \<Rightarrow> EngCompleted | Some outcome \<Rightarrow> outcome)"
    using fin by (auto simp: engine_finish_def obind_eq_Ok oget_def)
  have empty: "dc_pending_by_schedule (en_committer w) = []" using inv(2) by (simp add: all_settled_def has_pending_def)
  have "drain_ready (ei_commit io) (ec_max_failures cfg) (en_committer w, s) = (Ok 0, (en_committer w, s))" for s
    unfolding drain_ready_def fst_conv empty by (simp add: bt_keys_def)
  then have drained: "drain_engine cfg io m w = (Ok 0, w)" for m
    by (simp add: drain_engine_def map_err_def)
  have settle: "bs_slot_states (en_broker (settle_commits (dc_committed_schedules (en_committer w)) w)) = bs_slot_states (en_broker w)"
    by (simp add: settle_commits_def Let_def update_pruned_variants_def)
  have "persist_pending_trial_completions cfg io (settle_commits (dc_committed_schedules (en_committer w)) w) = (Ok (), w1)"
    using 1 drained by (auto simp: drain_ready_and_persist_def obind_eq_Ok oget_def omodify_def oreturn_def)
  then have "quiet (settle_commits (dc_committed_schedules (en_committer w)) w) w1"
    using persist_pending_quiet [of "settle_commits (dc_committed_schedules (en_committer w)) w"
        "settle_commits (dc_committed_schedules (en_committer w)) w" cfg io] by simp
  then have slots1: "bs_slot_states (en_broker w1) = bs_slot_states (en_broker w)" by (simp add: quiet_def settle)
  note c1 = drain_and_persist_core [OF inv(1) 1]
  note q = write_status_core(2) [OF _ 2] and c' = write_status_core(1) [OF _ 2]
  have core': "core_inv cfg w'" and quiet': "quiet w1 w'" using c' q c1 by blast+
  note D = core_invD [OF core']
  have slots: "bs_slot_states (en_broker w') = bs_slot_states (en_broker w)" using quiet' slots1 by (simp add: quiet_def)
  have events: "completions (en_events w') = []" using quiet' c1 inv(2) by (simp add: quiet_def all_settled_def)
  have pend: "dc_pending_by_schedule (en_committer w') = []" using quiet' c1 by (simp add: quiet_def)
  have len: "i < length (bs_slot_states (en_broker w'))" using broker_invD(1) [OF D(1)] i by simp
  have "accounted (bs_slot_states (en_broker w')) (dc_committed_schedules (en_committer w')) {} []"
    using D(4) events pend by (simp add: slots_accounted_def)
  from accounted_nothing_left [OF this len] have "bs_slot_states (en_broker w') ! i \<noteq> BCompletedPendingCommit" .
  moreover have "bs_slot_states (en_broker w') ! i \<notin> {BPending, BActive}"
    using inv(2) len nth_mem [OF len] by (auto simp: all_settled_def has_unfinished_slots_def slots)
  ultimately have "bs_slot_states (en_broker w') ! i = BCommitted \<or> bs_slot_states (en_broker w') ! i = BBlockedActive"
    by (cases "bs_slot_states (en_broker w') ! i") auto
  then have "i \<in> durable (en_commit w') \<or> bs_slot_states (en_broker w') ! i = BBlockedActive"
    using D(4) len by (auto simp: slots_accounted_def)
  moreover have "en_requested w' = None" using quiet' c1 inv(2) by (simp add: quiet_def all_settled_def)
  ultimately show ?thesis using out D(5) by simp
qed

section \<open>The start\<close>

definition resumable :: "engine_config \<Rightarrow> engine \<Rightarrow> bool" where
  "resumable cfg w \<longleftrightarrow>
     committer_inv (en_committer w, en_commit w) \<and> sp_run_id (cms_progress (en_commit w)) = ec_run_id cfg"

lemma resumable_quiet: "resumable cfg w \<Longrightarrow> quiet w w' \<Longrightarrow> resumable cfg w'"
  by (auto simp: resumable_def quiet_def committer_inv_def)

lemma enqueue_completion_resumable: "resumable cfg w \<Longrightarrow> resumable cfg (snd (enqueue_completion i p w))"
proof (cases "enqueue i p (en_committer w)")
  case (Inr x)
  obtain fresh c where x: "x = (fresh, c)" by (cases x)
  assume "resumable cfg w"
  with enqueue_wf [of "en_committer w" i p fresh c] Inr x show ?thesis
    by (simp add: enqueue_completion_def resumable_def committer_inv_def)
qed (simp add: enqueue_completion_def)

lemma on_engine_trials_resumable: "resumable cfg w \<Longrightarrow> resumable cfg (snd (on_engine_trials m w))"
  using resumable_quiet on_engine_trials_quiet [of w w m] by simp

lemma enqueue_persisted_resumable: "resumable cfg w \<Longrightarrow> resumable cfg (snd (enqueue_persisted cfg x w))"
  by (cases x) (auto simp: enqueue_persisted_def obind_def oget_def oreturn_def intro: enqueue_completion_resumable)

lemma enqueue_recovered_resumable: "resumable cfg w \<Longrightarrow> resumable cfg (snd (enqueue_recovered cfg io persisted x w))"
  unfolding enqueue_recovered_def
  by (auto simp: oget_def oreturn_def Let_def split: option.split
      intro!: obind_invariant [where P = "resumable cfg"] enqueue_completion_resumable on_engine_trials_resumable)

lemma ensure_keeps_committed:
  assumes "ensure_schedule_slots io run_id schedule st = (r, st')"
  shows "committed_in (st_slots st) run \<subseteq> committed_in (st_slots st') run"
  using ensure_schedule_slots_outcome [OF assms] committed_in_ensured [of run_id schedule st run]
  by (auto simp: ensured_slot_def fun_eq_iff committed_in_def)

lemma reads_quiet:
  "quiet w s \<Longrightarrow> quiet w (snd (load_engine_journal io s))"
  "quiet w s \<Longrightarrow> quiet w (snd (load_pending_trial_completion_records io s))"
  unfolding load_engine_journal_def load_pending_trial_completion_records_def
  by (auto simp: oget_def oreturn_def stored_run_id_quiet split: option.splits
      intro!: obind_invariant [where P = "quiet w"])

lemma journal_read:
  assumes "load_engine_journal io w = (r, w')"
  shows "en_commit w' = en_commit w"
proof -
  have control: "en_commit (snd (on_engine_control m s)) = en_commit s" for m :: "'a control_op" and s
    by (simp add: on_engine_control_def split: prod.splits)
  have "en_commit (snd (load_engine_journal io w)) = en_commit w"
    unfolding load_engine_journal_def
    by (rule obind_invariant [where P = "\<lambda>s. en_commit s = en_commit w"])
      (auto simp: stored_run_id_def control oget_def oreturn_def split: option.splits)
  with assms show ?thesis by simp
qed

lemma left_behind_resumable:
  assumes ok: "enqueue_left_behind cfg io recovered w0 = (Ok (), w)"
    and run: "sp_run_id (cms_progress (en_commit w0)) = ec_run_id cfg"
    and start: "\<forall>journal v. load_engine_journal io w0 = (Ok journal, v) \<longrightarrow>
      dc_committed_schedules (from_progress (cms_progress (en_commit w0)) journal) \<subseteq> durable (en_commit w0)"
  shows "resumable cfg w"
proof -
  let ?ensure = "ensure_schedule_slots (ei_db io) (ec_run_id cfg) (ec_schedule cfg)"
  obtain journal v0 where j: "load_engine_journal io w0 = (Ok journal, v0)"
    using ok by (auto simp: enqueue_left_behind_def obind_eq_Ok)
  define v1 where "v1 = v0\<lparr>en_committer := from_progress (cms_progress (en_commit v0)) journal\<rparr>"
  have "resumable cfg v1"
    using start j run journal_read [OF j] from_progress_wf [of "cms_progress (en_commit w0)" journal]
    by (simp add: resumable_def v1_def committer_inv_def)
  obtain v2 persisted v3 v4 v5 where 2: "on_engine_store ?ensure v1 = (Ok (), v2)"
    and 3: "load_pending_trial_completion_records io v2 = (Ok persisted, v3)"
    and 4: "oforeach persisted (enqueue_persisted cfg) v3 = (Ok (), v4)"
    and 5: "oforeach recovered (enqueue_recovered cfg io persisted) v4 = (Ok (), v5)"
    and 6: "persist_pending_trial_completions cfg io v5 = (Ok (), w)"
    using ok j by (auto simp: enqueue_left_behind_def obind_eq_Ok omodify_def v1_def)
  have "quiet v1 v2"
    using on_engine_store_quiet [where m = ?ensure and w = v1 and s = v1, OF ensure_keeps_committed quiet_refl refl] 2 by simp
  moreover have "quiet v2 v3" using reads_quiet(2) [of v2 v2 io] 3 by simp
  ultimately have r3: "resumable cfg v3" using resumable_quiet [OF \<open>resumable cfg v1\<close>] quiet_trans by blast
  have "resumable cfg (snd (oforeach persisted (enqueue_persisted cfg) v3))"
    by (rule oforeach_invariant [where P = "resumable cfg"]) (simp_all add: r3 enqueue_persisted_resumable)
  then have r4: "resumable cfg v4" using 4 by simp
  have "resumable cfg (snd (oforeach recovered (enqueue_recovered cfg io persisted) v4))"
    by (rule oforeach_invariant [where P = "resumable cfg"]) (simp_all add: r4 enqueue_recovered_resumable)
  then have r5: "resumable cfg v5" using 5 by simp
  have "quiet v5 w" using persist_pending_quiet [of v5 v5 cfg io] 6 by simp
  then show ?thesis by (rule resumable_quiet [OF r5])
qed

text \<open>What the broker reads from a store in which nothing waits.\<close>

lemma start_broker_accounted:
  assumes "resumable cfg w" "dc_pending_by_schedule (en_committer w) = []" "start_broker cfg w = (Ok (), w')"
  shows "\<exists>b. w' = w\<lparr>en_broker := b\<rparr> \<and> broker_inv (ec_broker cfg) b \<and> bs_in_flight b = [] \<and>
    accounted (bs_slot_states b) (dc_committed_schedules (en_committer w)) {} [] \<and>
    (\<forall>i < length (bs_slot_states b). bs_slot_states b ! i = BCommitted \<longrightarrow> i \<in> durable (en_commit w))"
proof -
  let ?st = "cms_store (en_commit w)"
  obtain b where b: "broker_new ?st (ec_run_id cfg) (ec_schedule cfg) (engine_recovery w) = Ok b" "w' = w\<lparr>en_broker := b\<rparr>"
    using assms(3) by (auto simp: start_broker_def split: sum.splits)
  then have inv: "broker_inv (ec_broker cfg) b" by (intro broker_init_inv) (auto simp: broker_init_def)
  have states: "restore_slot_states ?st (ec_run_id cfg) (engine_recovery w) [0..<length (ec_schedule cfg)] = Ok (bs_slot_states b)"
    and flight: "bs_in_flight b = []"
    using b(1) by (auto simp: broker_new_def result_iffs)
  have slot: "restore_slot_state ?st (ec_run_id cfg) (engine_recovery w) i = Ok (bs_slot_states b ! i)"
    if "i < length (bs_slot_states b)" for i
    using restore_slot_states_nth [OF states, of i] that broker_invD(1) [OF inv] by simp
  have no_pending: "sbr_pending_completion_schedules (engine_recovery w) = {}"
    by (simp add: engine_recovery_def assms(2) bt_keys_def)
  have committed: "sbr_committed_schedules (engine_recovery w) = dc_committed_schedules (en_committer w)"
    by (simp add: engine_recovery_def)
  have state: "bs_slot_states b ! i \<noteq> BCompletedPendingCommit \<and>
      (i \<in> dc_committed_schedules (en_committer w) \<longrightarrow> bs_slot_states b ! i = BCommitted) \<and>
      (bs_slot_states b ! i = BCommitted \<longrightarrow> i \<in> durable (en_commit w))" if "i < length (bs_slot_states b)" for i
  proof (cases "i \<in> dc_committed_schedules (en_committer w)")
    case True
    with slot [OF that] assms(1) show ?thesis
      by (auto simp: restore_slot_state_def committed resumable_def committer_inv_def)
  next
    case False
    with slot [OF that] obtain r where r: "schedule_slot ?st (ec_run_id cfg) i = Some r"
      by (auto simp: restore_slot_state_def committed no_pending ok_or_def split: option.splits)
    have run: "sp_run_id (cms_progress (en_commit w)) = ec_run_id cfg" using assms(1) by (simp add: resumable_def)
    show ?thesis
      using slot [OF that] False r
      by (cases "ssr_state r") (auto simp: restore_slot_state_def committed no_pending ok_or_def durable_def run schedule_slot_def)
  qed
  have "accounted (bs_slot_states b) (dc_committed_schedules (en_committer w)) {} []"
    by (rule accountedI) (use state in auto)
  with b(2) inv flight state show ?thesis by blast
qed

lemma engine_init_core:
  assumes "engine_init cfg w"
  shows "engine_inv cfg w"
proof -
  obtain io recovered w0 where start: "engine_start cfg io recovered w0 = (Ok (), w)"
    and run: "sp_run_id (cms_progress (en_commit w0)) = ec_run_id cfg" and cap: "dispatch_capacity cfg \<le> usize_max"
    and committed: "\<forall>journal v. load_engine_journal io w0 = (Ok journal, v) \<longrightarrow>
      dc_committed_schedules (from_progress (cms_progress (en_commit w0)) journal) \<subseteq> durable (en_commit w0)"
    using assms unfolding engine_init_def by blast
  obtain v1 k v2 v3 v4 v5 where 1: "enqueue_left_behind cfg io recovered w0 = (Ok (), v1)"
    and 2: "drain_engine cfg io (cms_trial_index (en_commit v1)) v1 = (Ok k, v2)"
    and 3: "persist_pending_trial_completions cfg io v2 = (Ok (), v3)"
    and 4: "start_broker cfg v3 = (Ok (), v4)" and 5: "write_engine_control cfg io ''running'' v4 = (Ok (), v5)"
    and w: "w = start_workers cfg v5"
    using start by (auto simp: engine_start_def obind_eq_Ok olift_def oget_def omodify_def)
  have r1: "resumable cfg v1" by (rule left_behind_resumable [OF 1 run committed])
  have wf: "bt_wf (dc_pending_by_schedule (en_committer v1))" using r1 by (simp add: resumable_def committer_inv_def committer_wf_def)
  obtain c s where dr: "drain_ready (ei_commit io) (ec_max_failures cfg) (en_committer v1, en_commit v1) = (Ok k, (c, s))"
    and v2: "v2 = v1\<lparr>en_committer := c, en_commit := s\<lparr>cms_trial_index := cms_trial_index (en_commit v1)\<rparr>\<rparr>"
    using 2 by (auto simp: drain_engine_def map_err_def split: prod.splits sum.splits)
  have "committer_inv (en_committer v1, en_commit v1)" using r1 by (simp add: resumable_def)
  from drain_ready_inv [OF this, of "ei_commit io" "ec_max_failures cfg"] dr drain_ready_run_id [OF wf dr] r1
  have r2: "resumable cfg v2" by (simp add: resumable_def v2 committer_inv_def)
  have p2: "dc_pending_by_schedule (en_committer v2) = []" using drain_ready_all [OF wf dr] by (simp add: v2)
  have q3: "quiet v2 v3" using persist_pending_quiet [of v2 v2 cfg io] 3 by simp
  have r3: "resumable cfg v3" by (rule resumable_quiet [OF r2 q3])
  have p3: "dc_pending_by_schedule (en_committer v3) = []" using q3 p2 by (simp add: quiet_def)
  obtain b where v4: "v4 = v3\<lparr>en_broker := b\<rparr>" and b: "broker_inv (ec_broker cfg) b" "bs_in_flight b = []"
      "accounted (bs_slot_states b) (dc_committed_schedules (en_committer v3)) {} []"
      "\<forall>i < length (bs_slot_states b). bs_slot_states b ! i = BCommitted \<longrightarrow> i \<in> durable (en_commit v3)"
    using start_broker_accounted [OF r3 p3 4] by blast
  have q5: "quiet v4 v5" using write_engine_control_quiet [of v4 v4 cfg io "''running''"] 5 by simp
  have fields: "en_broker w = b" "en_committer w = en_committer v3" "durable (en_commit v3) \<subseteq> durable (en_commit w)"
      "sp_run_id (cms_progress (en_commit w)) = ec_run_id cfg" "en_events w = []" "en_exited w = 0" "en_phase w = AtTop" "en_requested w = None"
      "en_workers w = (\<lambda>k. if k \<in> worker_name ` {..<dispatch_capacity cfg} then Some WIdle else None)"
    using q5 r3 by (simp_all add: w start_workers_def v4 quiet_def resumable_def)
  have "dom (en_workers w) = worker_name ` {..<dispatch_capacity cfg}" by (auto simp: fields dom_def)
  then have "workers_wf cfg w" by (auto simp: workers_wf_def fields)
  moreover have "committer_inv (en_committer w, en_commit w)" using r3 fields(2,3) by (auto simp: resumable_def committer_inv_def)
  moreover have "slots_accounted w" using b(3,4) fields(3) by (auto simp: slots_accounted_def fields(1,2,5) p3)
  ultimately show ?thesis using b(1) cap by (simp add: engine_inv_def core_inv_def fields)
qed

section \<open>Requests\<close>

text \<open>Events do not change what was requested, and nothing requests completion.\<close>

lemma requested_frame:
  "en_requested (snd (on_engine_control m w)) = en_requested w"
  "en_requested (snd (on_engine_store n w)) = en_requested w"
  "en_requested (snd (enqueue_completion i p w)) = en_requested w"
  "en_requested (snd (drain_engine cfg io k w)) = en_requested w"
  "en_requested (settle_commits before w) = en_requested w"
  by (auto simp: on_engine_control_def on_engine_store_def enqueue_completion_def drain_engine_def settle_commits_def Let_def
      split: prod.splits sum.splits)

lemma requested_calls:
  "en_requested (snd (write_status cfg io w)) = en_requested w"
  "en_requested (snd (persist_pending_trial_completions cfg io w)) = en_requested w"
  using write_status_quiet [of w w cfg io] persist_pending_quiet [of w w cfg io] by (simp_all add: quiet_def)

lemma poll_requested: "en_requested (snd (engine_poll cfg io w)) = en_requested w"
proof -
  note bind = obind_invariant [where P = "\<lambda>s. en_requested s = en_requested w"]
  have drain: "en_requested (snd (drain_ready_and_persist cfg io s)) = en_requested w" if "en_requested s = en_requested w" for s
    unfolding drain_ready_and_persist_def
    by (auto simp: oget_def omodify_def oreturn_def requested_frame requested_calls that intro!: bind)
  have event: "en_requested (snd (handle_event cfg io e s)) = en_requested w" if "en_requested s = en_requested w" for e s
    by (cases e) (auto simp: handle_claimed_def handle_skipped_def handle_completed_def olift_def oget_def omodify_def
        oreturn_def ofail_def requested_frame requested_calls drain that intro!: bind)
  show ?thesis
    unfolding engine_poll_def
    by (auto simp: oget_def omodify_def oreturn_def ofail_def event split: list.split intro!: bind)
qed

lemma top_requested:
  assumes "engine_top cfg io w = (Ok flow, w')" "en_requested w \<noteq> Some EngCompleted"
  shows "flow \<noteq> ReturnOutcome EngCompleted \<and> (flow = GoOn \<or> flow = LeaveLoop \<longrightarrow> en_requested w' \<noteq> Some EngCompleted)"
proof (cases "ei_interrupted io")
  case True
  with assms(1) show ?thesis by (auto simp: engine_top_def obind_eq_Ok oreturn_def)
next
  case False
  with assms(1) obtain external w1 where load: "on_engine_control (load_external_schedule_outcome_request (ei_control io)) w = (Ok external, w1)"
    and w': "w' = (case external of None \<Rightarrow> id | Some outcome \<Rightarrow> request_outcome outcome) w1"
    and decide: "decide_flow cfg w' = Ok flow"
    by (auto simp: engine_top_def obind_eq_Ok omodify_def oget_def olift_def)
  have "external \<noteq> Some EngCompleted"
    using load by (auto simp: on_engine_control_def load_external_schedule_outcome_request_def map_err_def obind_eq_Ok oreturn_def
        split: prod.splits sum.splits if_splits)
  moreover have "en_requested w1 = en_requested w"
    using requested_frame(1) [of "load_external_schedule_outcome_request (ei_control io)" w] load by simp
  ultimately have "en_requested w' \<noteq> Some EngCompleted"
    using assms(2) by (auto simp: w' request_outcome_def split: option.splits)
  then show ?thesis using decide by (auto simp: decide_flow_def Let_def split: option.splits if_splits)
qed

section \<open>The engine as a state machine\<close>

lemma coordinator_step_inv:
  assumes "engine_inv cfg w"
  shows "engine_inv cfg (coordinator_step cfg io w)"
proof (cases "en_phase w")
  case AtTop
  with assms have inv: "core_inv cfg w" "dispatch_capacity cfg \<le> usize_max" "en_requested w \<noteq> Some EngCompleted"
    by (simp_all add: engine_inv_def)
  obtain r w' where top: "engine_top cfg io w = (r, w')" by (cases "engine_top cfg io w")
  show ?thesis
  proof (cases r)
    case (Inr flow)
    show ?thesis
    proof (cases "flow = GoOn \<or> flow = LeaveLoop")
      case True
      from engine_top_core [OF inv(1) top [unfolded Inr] this] have "core_inv cfg w'" "flow = LeaveLoop \<longrightarrow> all_settled cfg w'" by simp_all
      with True inv(2) top_requested [OF top [unfolded Inr] inv(3)] show ?thesis
        by (auto simp: coordinator_step_def AtTop top Inr engine_inv_def core_inv_def workers_wf_def slots_accounted_def all_settled_def)
    next
      case False
      then obtain outcome where "flow = ReturnOutcome outcome" by (cases flow) auto
      with inv(2) show ?thesis by (simp add: coordinator_step_def AtTop top Inr engine_inv_def)
    qed
  qed (use inv(2) in \<open>simp add: coordinator_step_def AtTop top engine_inv_def\<close>)
next
  case AtPoll
  with assms have inv: "core_inv cfg w" "dispatch_capacity cfg \<le> usize_max" "en_requested w \<noteq> Some EngCompleted"
    by (simp_all add: engine_inv_def)
  obtain r w' where poll: "engine_poll cfg io w = (r, w')" by (cases "engine_poll cfg io w")
  show ?thesis
  proof (cases r)
    case (Inr u)
    with engine_poll_core [OF inv(1,2)] poll have "core_inv cfg w'" by simp
    moreover have "en_requested w' \<noteq> Some EngCompleted" using poll_requested [of cfg io w] poll inv(3) by simp
    ultimately show ?thesis
      using inv(2) by (simp add: coordinator_step_def AtPoll poll Inr engine_inv_def core_inv_def workers_wf_def slots_accounted_def)
  qed (use inv(2) in \<open>simp add: coordinator_step_def AtPoll poll engine_inv_def\<close>)
next
  case AtFinish
  with assms show ?thesis by (cases "engine_finish cfg io w") (simp add: coordinator_step_def engine_inv_def)
next
  case (Returned r)
  with assms show ?thesis
    by (simp add: coordinator_step_def engine_inv_def engine_shutdown_def Let_def split: prod.split)
qed (use assms in \<open>simp add: coordinator_step_def\<close>)

text \<open>A worker moves only before it is gone, so that nothing moves once the loop is left.\<close>

lemma worker_step_inv:
  assumes "engine_inv cfg w" "en_workers w k = Some phase" "phase \<noteq> WExited"
    and "core_inv cfg w \<Longrightarrow> core_inv cfg w'" "en_phase w' = en_phase w" "en_requested w' = en_requested w"
  shows "engine_inv cfg w'"
  using assms by (cases "en_phase w") (auto simp: engine_inv_def all_settled_def)

lemma engine_step_inv:
  assumes "engine_inv cfg w" "engine_step cfg w l w'"
  shows "engine_inv cfg w'"
  using assms(2)
proof cases
  case (step_coordinator io)
  with coordinator_step_inv [OF assms(1)] show ?thesis by simp
next
  case (step_claim k io)
  have "en_phase w' = en_phase w" "en_requested w' = en_requested w"
    using step_claim(4) by (auto simp: worker_claim_def send_worker_event_def set_worker_def split: option.splits claim_outcome.splits)
  with worker_claim_core [OF _ step_claim(2-4)] show ?thesis by (intro worker_step_inv [OF assms(1) step_claim(2)]) simp_all
next
  case (step_prepare_failed k t i active)
  with worker_prepare_failed_core [of cfg w k t i active] show ?thesis
    by (intro worker_step_inv [OF assms(1) step_prepare_failed(3)])
      (simp_all add: worker_prepare_failed_def worker_fault_def send_worker_event_def set_worker_def)
next
  case (step_launch k t i active io)
  with worker_launch_core [of cfg w k t i active io] show ?thesis
    by (intro worker_step_inv [OF assms(1) step_launch(3)])
      (simp_all add: worker_launch_def worker_fault_def send_worker_event_def set_worker_def split: sum.split)
next
  case (step_worker_complete k t i result)
  with worker_complete_core [of cfg w k t i result] show ?thesis
    by (intro worker_step_inv [OF assms(1) step_worker_complete(3)])
      (simp_all add: worker_complete_def send_worker_event_def set_worker_def split: sum.split)
next
  case (step_outside c)
  then have q: "quiet w w'" by simp
  from assms(1) core_inv_quiet [OF _ q] q show ?thesis
    by (auto simp: engine_inv_def all_settled_def quiet_def split: coordinator_phase.splits)
qed

interpretation engine: invariant_system "engine_init cfg" "engine_step cfg" "engine_inv cfg" for cfg
  by unfold_locales (auto intro: engine_init_core engine_step_inv)

end
