(* ===== verification/Engine_Properties.thy ===== *)
theory Engine_Properties
  imports Engine_Steps
begin

text \<open>
  What the schedule engine guarantees and what it does not, with a small run as an example: one slot whose completion
  an earlier engine left in the store, and one worker. The engine commits the slot, finds nothing else to do and ends.
\<close>

section \<open>A small run\<close>

definition sample_engine_config :: engine_config where
  "sample_engine_config = \<lparr>ec_run_id = ''run'',
     ec_broker = \<lparr>sb_variants = [''v''], sb_schedule = sample_slots, sb_max_in_flight_per_variant = None\<rparr>,
     ec_max_failures = None, ec_isolate = True, ec_max_concurrency = 1, ec_capacity_ceiling = None,
     ec_run_dir_name = None\<rparr>"

definition sample_engine_io :: engine_io where
  "sample_engine_io = \<lparr>ei_commit = sample_env, ei_control = sample_control_env, ei_db = (\<lambda>_. True),
     ei_interrupted = False, ei_disk_ok = True, ei_size_ok = True, ei_perf_ok = True, ei_intent_ok = True,
     ei_first_pending_run = None, ei_first_journal_run = None, ei_now = ''t1''\<rparr>"

definition sample_engine_world :: engine where
  "sample_engine_world = \<lparr>en_broker = sample_broker0, en_committer = sample_committer,
     en_commit = sample_commit_state\<lparr>cms_store := sample_store1\<lparr>st_journal := Map.empty,
       st_pending := [(''run'', 0) \<mapsto> sample_result]\<rparr>\<rparr>,
     en_control = \<lparr>cw_lease = NoLease, cw_control = Some (run_control_payload ''run'' ''running'' [] None ''t0''),
       cw_run_status = Some ''running'', cw_trials = sample_world\<rparr>,
     en_intents = Map.empty, en_events = [], en_workers = Map.empty, en_requested = None, en_exited = 0,
     en_first_dispatched = False, en_phase = AtTop\<rparr>"

lemma sample_config_fields [simp]:
  "ec_run_id sample_engine_config = ''run''" "ec_schedule sample_engine_config = sample_slots" "ec_isolate sample_engine_config"
  "ec_max_failures sample_engine_config = None" "dispatch_capacity sample_engine_config = 1"
  by (simp_all add: sample_engine_config_def dispatch_capacity_def resolve_local_worker_max_in_flight_def)

lemma sample_io_fields [simp]:
  "ei_commit sample_engine_io = sample_env" "ei_control sample_engine_io = sample_control_env" "ei_db sample_engine_io = (\<lambda>_. True)"
  "\<not> ei_interrupted sample_engine_io" "ei_disk_ok sample_engine_io" "ei_size_ok sample_engine_io"
  by (simp_all add: sample_engine_io_def)

lemma sample_control_fields [simp]:
  "cn_externs sample_control_env = sample_externs" "cn_contract sample_control_env = (\<lambda>_. True)"
  "cn_db sample_control_env = (\<lambda>_. True)" "cn_now sample_control_env = ''t1''"
  by (simp_all add: sample_control_env_def)

definition running_control :: "engine \<Rightarrow> bool" where
  "running_control w \<longleftrightarrow> (\<exists>now. cw_control (en_control w) = Some (run_control_payload ''run'' ''running'' [] None now))"

lemma sample_stored_run_id:
  assumes "running_control w"
  shows "stored_run_id sample_engine_io w = (Ok (Some ''run''), w)"
proof -
  obtain now where "cw_control (en_control w) = Some (run_control_payload ''run'' ''running'' [] None now)"
    using assms by (auto simp: running_control_def)
  then show ?thesis
    by (simp add: stored_run_id_def on_engine_control_def control_db_def op_defs ensure_def backend_run_id_def map_err_def
        run_control_payload_def pointer_str_json_object [OF sample_externs_pointer] trim_def is_whitespace_def)
qed

lemma sample_replace_pending:
  assumes "distinct (map ptc_schedule_idx rows)" "\<forall>row \<in> set rows. ptc_schedule_idx row < 2 ^ 63"
  shows "\<exists>pending. replace_pending_trial_completions (\<lambda>_. True) sample_contracts run_id rows st =
    (Ok (), st\<lparr>st_pending := pending\<rparr>)"
proof -
  let ?body = "\<lambda>row. if \<not> contract_pending sample_contracts (ptc_schedule_idx row) (ptc_trial_result row)
      then ofail (SchemaContract ''pending_trial_completions row'')
      else obind (olift (as_i64 (ptc_schedule_idx row))) (\<lambda>schedule_idx.
        obind (oget (\<lambda>st. st_pending st (run_id, schedule_idx))) (\<lambda>duplicate.
        if duplicate \<noteq> None then ofail (DatabaseError AtPending)
        else modify_pending (\<lambda>pending. pending((run_id, schedule_idx) \<mapsto> ptc_trial_result row))))"
  have "\<exists>pending. oforeach rows ?body st = (Ok (), st\<lparr>st_pending := pending\<rparr>)"
    if "distinct (map ptc_schedule_idx rows)" "\<forall>row \<in> set rows. ptc_schedule_idx row < 2 ^ 63 \<and> st_pending st (run_id, ptc_schedule_idx row) = None"
    for rows st
    using that
  proof (induction rows arbitrary: st)
    case Nil
    then show ?case by (intro exI [of _ "st_pending st"]) (simp add: oreturn_def)
  next
    case (Cons row rows)
    let ?st = "st\<lparr>st_pending := (st_pending st)((run_id, ptc_schedule_idx row) \<mapsto> ptc_trial_result row)\<rparr>"
    have "?body row st = (Ok (), ?st)"
      using Cons.prems(2) by (simp add: sample_contracts_def op_defs as_i64_def modify_pending_def)
    moreover have "\<forall>r \<in> set rows. ptc_schedule_idx r < 2 ^ 63 \<and> st_pending ?st (run_id, ptc_schedule_idx r) = None"
      using Cons.prems by (auto simp: image_iff)
    then obtain pending where "oforeach rows ?body ?st = (Ok (), ?st\<lparr>st_pending := pending\<rparr>)"
      using Cons.IH [of ?st] Cons.prems(1) by (auto simp only: list.map distinct.simps)
    ultimately show ?case by (intro exI [of _ pending]) (simp add: obind_def)
  qed
  from this [of rows "st\<lparr>st_pending := (\<lambda>k. if fst k = run_id then None else st_pending st k)\<rparr>"] assms
  obtain pending where "oforeach rows ?body (st\<lparr>st_pending := (\<lambda>k. if fst k = run_id then None else st_pending st k)\<rparr>) =
      (Ok (), st\<lparr>st_pending := pending\<rparr>)" by auto
  then show ?thesis
    by (intro exI [of _ pending])
      (simp add: replace_pending_trial_completions_def transactional_def obind_def at_point_def oreturn_def
        modify_pending_def omodify_def)
qed

lemma sample_persist_pending:
  assumes "running_control w" "distinct (map ptc_schedule_idx (pending_trial_completion_records (en_committer w)))"
    and "\<forall>row \<in> set (pending_trial_completion_records (en_committer w)). ptc_schedule_idx row < 2 ^ 63"
  shows "\<exists>pending. persist_pending_trial_completions cfg sample_engine_io w =
    (Ok (), w\<lparr>en_commit := (en_commit w)\<lparr>cms_store := (cms_store (en_commit w))\<lparr>st_pending := pending\<rparr>\<rparr>\<rparr>)"
proof -
  obtain pending where "replace_pending_trial_completions (\<lambda>_. True) sample_contracts ''run''
      (pending_trial_completion_records (en_committer w)) (cms_store (en_commit w)) =
      (Ok (), (cms_store (en_commit w))\<lparr>st_pending := pending\<rparr>)"
    using sample_replace_pending [OF assms(2,3)] by blast
  moreover have "ce_contracts sample_env = sample_contracts" by (simp add: sample_env_def)
  ultimately show ?thesis
    by (intro exI [of _ pending])
      (simp add: persist_pending_trial_completions_def obind_def oget_def sample_stored_run_id [OF assms(1)]
        or_else_def on_engine_store_def map_err_def)
qed

lemma sample_write_control:
  assumes "bs_in_flight (en_broker w) = []"
  shows "\<exists>c. write_engine_control sample_engine_config sample_engine_io ''running'' w = (Ok (), w\<lparr>en_control := c\<rparr>) \<and>
    running_control (w\<lparr>en_control := c\<rparr>)"
proof -
  have "active_trials w = []" by (simp add: active_trials_def in_flight_active_trials_def sort_active_trials_def assms)
  then show ?thesis
    by (intro exI [of _ "(en_control w)\<lparr>cw_control := Some (run_control_payload ''run'' ''running'' [] None ''t1''),
        cw_run_status := Some ''running''\<rparr>"])
      (auto simp: write_engine_control_def obind_def oget_def on_engine_control_def write_run_control_def control_db_def
        op_defs ensure_def Let_def map_err_def running_control_def)
qed

text \<open>The start: the completion left behind is committed, and the broker finds the slot committed.\<close>

lemma sample_left_behind:
  "\<exists>v. enqueue_left_behind sample_engine_config sample_engine_io [] sample_engine_world = (Ok (), v) \<and>
     en_committer v = sample_queued \<and> running_control v \<and>
     cms_progress (en_commit v) = cms_progress sample_commit_state \<and> cms_trial_index (en_commit v) = 1 \<and>
     st_slots (cms_store (en_commit v)) (''run'', 0) = Some sample_claimed"
proof -
  let ?w = sample_engine_world and ?st = "sample_store1\<lparr>st_journal := Map.empty, st_pending := [(''run'', 0) \<mapsto> sample_result]\<rparr>"
  have control: "running_control ?w" by (auto simp: running_control_def sample_engine_world_def)
  have store: "cms_store (en_commit ?w) = ?st" and progress: "cms_progress (en_commit ?w) = cms_progress sample_commit_state"
    "cms_trial_index (en_commit ?w) = 1"
    by (simp_all add: sample_engine_world_def sample_commit_state_def)
  have "load_slot_commit_records ?st ''run'' = []" by (simp add: load_slot_commit_records_def)
  then have 1: "load_engine_journal sample_engine_io ?w = (Ok [], ?w)"
    by (simp add: load_engine_journal_def obind_def sample_stored_run_id [OF control] or_else_def oget_def store)
  have c: "?w\<lparr>en_committer := from_progress (cms_progress (en_commit ?w)) []\<rparr> = ?w"
    by (simp add: progress sample_committer_def [symmetric]) (simp add: sample_engine_world_def)
  define st where "st = ?st\<lparr>st_slots := ensured_slot ''run'' sample_slots ?st\<rparr>"
  define v2 where "v2 = ?w\<lparr>en_commit := (en_commit ?w)\<lparr>cms_store := st\<rparr>\<rparr>"
  have 2: "on_engine_store (ensure_schedule_slots (\<lambda>_. True) ''run'' sample_slots) ?w = (Ok (), v2)"
    using ensure_schedule_slots_succeeds [of "\<lambda>_. True" sample_slots "''run''" ?st]
    by (simp add: on_engine_store_def store map_err_def v2_def st_def sample_slots_def)
  have control2: "running_control v2" using control by (simp add: v2_def running_control_def)
  have "{k \<in> dom (st_pending st). fst k = ''run''} = {(''run'', 0)}" by (auto simp: st_def)
  then have "load_pending_trial_completions st ''run'' =
      [\<lparr>ptc_schema_version = ''pending_trial_completion_v1'', ptc_schedule_idx = 0, ptc_trial_result = sample_result\<rparr>]"
    by (simp add: load_pending_trial_completions_def) (simp add: st_def)
  then have 3: "load_pending_trial_completion_records sample_engine_io v2 = (Ok [(0, sample_result)], v2)"
    using control2 by (simp add: load_pending_trial_completion_records_def obind_def sample_stored_run_id or_else_def oget_def)
      (simp add: v2_def)
  define v3 where "v3 = v2\<lparr>en_committer := sample_queued\<rparr>"
  have "en_committer v2 = sample_committer" by (simp add: v2_def sample_engine_world_def)
  then have 4: "enqueue_persisted sample_engine_config (0, sample_result) v2 = (Ok (), v3)"
    by (simp add: enqueue_persisted_def obind_def oget_def is_committed_schedule_def sample_committer_fields sample_slots_def
        enqueue_completion_def sample_enqueue v3_def)
  have "running_control v3" using control2 by (simp add: v3_def running_control_def)
  moreover have rows: "pending_trial_completion_records (en_committer v3) =
      [\<lparr>ptc_schema_version = ''pending_trial_completion_v1'', ptc_schedule_idx = 0, ptc_trial_result = sample_result\<rparr>]"
    by (simp add: v3_def sample_queued_def pending_trial_completion_records_def List.map_filter_def)
  ultimately obtain pending where 5: "persist_pending_trial_completions sample_engine_config sample_engine_io v3 =
      (Ok (), v3\<lparr>en_commit := (en_commit v3)\<lparr>cms_store := (cms_store (en_commit v3))\<lparr>st_pending := pending\<rparr>\<rparr>\<rparr>)"
    using sample_persist_pending [of v3] by auto
  have slot: "st_slots st (''run'', 0) = Some sample_claimed"
    by (simp add: st_def ensured_slot_def sample_store1_slots sample_slots_def)
      (simp add: sample_claimed_def claimed_slot_def pending_slot_def)
  show ?thesis
    using 1 2 3 4 5 c \<open>running_control v3\<close> slot
    by (simp add: enqueue_left_behind_def obind_def omodify_def oreturn_def v3_def running_control_def v2_def progress)
qed

lemma sample_start:
  "\<exists>w. engine_start sample_engine_config sample_engine_io [] sample_engine_world = (Ok (), w) \<and> running_control w \<and>
     dc_pending_by_schedule (en_committer w) = [] \<and> bs_slot_states (en_broker w) = [BCommitted] \<and>
     bs_in_flight (en_broker w) = [] \<and> bs_accepting (en_broker w) \<and> bs_trial_index (en_broker w) = 1 \<and>
     en_events w = [] \<and> en_workers w = [worker_name 0 \<mapsto> WIdle] \<and>
     en_requested w = None \<and> en_exited w = 0 \<and> en_phase w = AtTop"
proof -
  let ?cfg = sample_engine_config and ?io = sample_engine_io
  obtain v where 1: "enqueue_left_behind ?cfg ?io [] sample_engine_world = (Ok (), v)"
    and v: "en_committer v = sample_queued" "running_control v"
      "cms_progress (en_commit v) = cms_progress sample_commit_state" and index: "cms_trial_index (en_commit v) = 1"
      and slot: "st_slots (cms_store (en_commit v)) (''run'', 0) = Some sample_claimed"
    using sample_left_behind by blast
  have wf: "bt_wf (dc_pending_by_schedule sample_queued)" by (simp add: sample_queued_def bt_wf_def)
  have "\<exists>s'. commit_pending sample_env None 0 (PendingTrial sample_result) (dc_slot_attempts sample_queued) (en_commit v) =
      (Ok ((dc_slot_attempts sample_queued)(0 \<mapsto> attempt_of (dc_slot_attempts sample_queued) 0 + 1)), s')"
    by (rule commit_pending_succeeds)
      (use v slot in \<open>simp_all add: sample_env_def sample_contracts_def healthy_def sample_commit_state_def new_schedule_progress_def
        sample_slots_def sample_queued_def sample_committer_fields attempt_of_def sample_result_def
        trial_execution_result_minimal_def sample_claimed_def claimed_slot_def\<close>)
  then obtain s' where "commit_pending sample_env None 0 (PendingTrial sample_result) (dc_slot_attempts sample_queued) (en_commit v) =
      (Ok ((dc_slot_attempts sample_queued)(0 \<mapsto> attempt_of (dc_slot_attempts sample_queued) 0 + 1)), s')" by blast
  then obtain c where dr: "drain_ready sample_env None (sample_queued, en_commit v) = (Ok 1, (c, s'))"
    by (simp add: drain_ready_def sample_queued_def bt_keys_def bt_get_def Let_def)
  note all = drain_ready_all [OF wf dr]
  define v2 where "v2 = v\<lparr>en_committer := c, en_commit := s'\<lparr>cms_trial_index := cms_trial_index (en_commit v)\<rparr>\<rparr>"
  have 2: "drain_engine ?cfg ?io (cms_trial_index (en_commit v)) v = (Ok 1, v2)"
    using dr v(1) by (simp add: drain_engine_def v2_def map_err_def)
  have control2: "running_control v2" using v(2) by (simp add: running_control_def v2_def)
  have empty: "pending_trial_completion_records (en_committer v2) = []"
    using all by (simp add: v2_def pending_trial_completion_records_def List.map_filter_def)
  obtain pending where 3: "persist_pending_trial_completions ?cfg ?io v2 =
      (Ok (), v2\<lparr>en_commit := (en_commit v2)\<lparr>cms_store := (cms_store (en_commit v2))\<lparr>st_pending := pending\<rparr>\<rparr>\<rparr>)"
    using sample_persist_pending [OF control2] empty by auto
  define v3 where "v3 = v2\<lparr>en_commit := (en_commit v2)\<lparr>cms_store := (cms_store (en_commit v2))\<lparr>st_pending := pending\<rparr>\<rparr>\<rparr>"
  have committed: "0 \<in> dc_committed_schedules (en_committer v3)"
    using all by (simp add: v3_def v2_def sample_queued_def bt_keys_def)
  have index3: "cms_trial_index (en_commit v3) = 1" by (simp add: v3_def v2_def index)
  obtain b where 4: "start_broker ?cfg v3 = (Ok (), v3\<lparr>en_broker := b\<rparr>)" and b: "bs_slot_states b = [BCommitted]"
      "bs_in_flight b = []" "bs_accepting b" "bs_trial_index b = 1"
    using committed index3
    by (simp add: start_broker_def broker_new_def sample_slots_def restore_slot_state_def engine_recovery_def)
  obtain ctl where 5: "write_engine_control ?cfg ?io ''running'' (v3\<lparr>en_broker := b\<rparr>) = (Ok (), v3\<lparr>en_broker := b, en_control := ctl\<rparr>)"
    and control5: "running_control (v3\<lparr>en_broker := b, en_control := ctl\<rparr>)"
    using sample_write_control [of "v3\<lparr>en_broker := b\<rparr>"] b(2) by auto
  have workers: "(\<lambda>k. if k \<in> worker_name ` {..<1} then Some WIdle else None) = [worker_name 0 \<mapsto> WIdle]" by auto
  have "engine_start ?cfg ?io [] sample_engine_world = (Ok (), start_workers ?cfg (v3\<lparr>en_broker := b, en_control := ctl\<rparr>))"
    using 1 2 3 4 5 by (simp add: engine_start_def obind_def olift_def ensure_def oget_def omodify_def v3_def)
  then show ?thesis using b control5 all workers
    by (simp add: start_workers_def running_control_def v3_def v2_def)
qed

text \<open>The worker finds nothing, the coordinator hears of it and ends the run.\<close>

lemma sample_external:
  assumes "running_control w"
  shows "on_engine_control (load_external_schedule_outcome_request sample_control_env) w = (Ok None, w)"
proof -
  obtain now where "cw_control (en_control w) = Some (run_control_payload ''run'' ''running'' [] None now)"
    using assms by (auto simp: running_control_def)
  then have "load_run_control sample_control_env (en_control w) =
      (Ok (run_control_payload ''run'' ''running'' [] None now), en_control w)"
    by (simp add: load_run_control_Ok)
  then show ?thesis
    by (simp add: on_engine_control_def load_external_schedule_outcome_request_def obind_def olift_def
        payload_status [OF sample_externs_pointer] oreturn_def map_err_def)
qed

lemma sample_finish:
  assumes "running_control w" "dc_pending_by_schedule (en_committer w) = []" "bs_in_flight (en_broker w) = []" "en_requested w = None"
  shows "\<exists>v. engine_finish sample_engine_config sample_engine_io w = (Ok EngCompleted, v) \<and>
    bs_slot_states (en_broker v) = bs_slot_states (en_broker w)"
proof -
  let ?cfg = sample_engine_config and ?io = sample_engine_io
  have "drain_ready sample_env None (en_committer w, s) = (Ok 0, (en_committer w, s))" for s
    by (simp add: drain_ready_def assms(2) bt_keys_def)
  then have drained: "drain_engine ?cfg ?io m w = (Ok 0, w)" for m by (simp add: drain_engine_def map_err_def)
  define v where "v = settle_commits (dc_committed_schedules (en_committer w)) w"
  have v: "running_control v" "bs_in_flight (en_broker v) = []" "en_requested v = None" "en_committer v = en_committer w"
      "bs_slot_states (en_broker v) = bs_slot_states (en_broker w)"
    using assms by (simp_all add: v_def settle_commits_def Let_def running_control_def update_pruned_variants_def)
  then have "pending_trial_completion_records (en_committer v) = []"
    by (simp add: assms(2) pending_trial_completion_records_def List.map_filter_def)
  then obtain pending where p: "persist_pending_trial_completions ?cfg ?io v =
      (Ok (), v\<lparr>en_commit := (en_commit v)\<lparr>cms_store := (cms_store (en_commit v))\<lparr>st_pending := pending\<rparr>\<rparr>\<rparr>)"
    using sample_persist_pending [OF v(1)] by auto
  define u where "u = v\<lparr>en_commit := (en_commit v)\<lparr>cms_store := (cms_store (en_commit v))\<lparr>st_pending := pending\<rparr>\<rparr>\<rparr>"
  have u: "bs_in_flight (en_broker u) = []" "en_requested u = None" "bs_slot_states (en_broker u) = bs_slot_states (en_broker w)"
    using v by (simp_all add: u_def)
  obtain c where "write_engine_control ?cfg ?io ''running'' u = (Ok (), u\<lparr>en_control := c\<rparr>)"
    using sample_write_control [OF u(1)] by blast
  with drained p u(2,3) show ?thesis
    by (intro exI [of _ "u\<lparr>en_control := c\<rparr>"]) (simp add: engine_finish_def drain_ready_and_persist_def write_status_def obind_def oget_def omodify_def oreturn_def
        v_def [symmetric] u_def [symmetric])
qed

lemma sample_run:
  "\<exists>w. reachable (engine_init sample_engine_config) (engine_step sample_engine_config) w \<and>
     en_phase w = AtFinish \<and> en_phase (coordinator_step sample_engine_config sample_engine_io w) = Returned (Ok EngCompleted) \<and>
     bs_slot_states (en_broker (coordinator_step sample_engine_config sample_engine_io w)) = [BCommitted]"
proof -
  let ?cfg = sample_engine_config and ?io = sample_engine_io
  obtain w where start: "engine_start ?cfg ?io [] sample_engine_world = (Ok (), w)" and control: "running_control w"
    and pending: "dc_pending_by_schedule (en_committer w) = []"
    and b: "bs_slot_states (en_broker w) = [BCommitted]" "bs_in_flight (en_broker w) = []" "bs_accepting (en_broker w)"
      "bs_trial_index (en_broker w) = 1"
    and w: "en_events w = []" "en_workers w = [worker_name 0 \<mapsto> WIdle]" "en_requested w = None" "en_exited w = 0" "en_phase w = AtTop"
    using sample_start by (elim exE conjE)
  have journal: "load_engine_journal ?io sample_engine_world = (Ok [], v)" if "load_engine_journal ?io sample_engine_world = (Ok j, v)" for j v
  proof -
    have "running_control sample_engine_world" by (auto simp: running_control_def sample_engine_world_def)
    with that show ?thesis
      by (simp add: load_engine_journal_def obind_def sample_stored_run_id or_else_def oget_def)
        (simp add: sample_engine_world_def load_slot_commit_records_def)
  qed
  have "engine_init ?cfg w"
    unfolding engine_init_def
  proof (intro exI conjI allI impI)
    show "engine_start ?cfg ?io [] sample_engine_world = (Ok (), w)" by (rule start)
    show "sp_run_id (cms_progress (en_commit sample_engine_world)) = ec_run_id ?cfg"
      by (simp add: sample_engine_world_def sample_commit_state_def new_schedule_progress_def)
    show "dispatch_capacity ?cfg \<le> usize_max" by (simp add: usize_max_def)
    fix j v
    assume "load_engine_journal ?io sample_engine_world = (Ok j, v)"
    with journal have "j = []" by fastforce
    then show "dc_committed_schedules (from_progress (cms_progress (en_commit sample_engine_world)) j) \<subseteq>
        durable (en_commit sample_engine_world)"
      using sample_committer_fields(2) by (simp add: sample_engine_world_def sample_committer_def)
  qed
  then have 0: "reachable (engine_init ?cfg) (engine_step ?cfg) w" by (rule reach_init)
  define w1 where "w1 = w\<lparr>en_workers := [worker_name 0 \<mapsto> WExited], en_events := [EvExited (worker_name 0)]\<rparr>"
  have "claim_next (ec_broker ?cfg) (worker_name 0) (ei_now ?io) (en_broker w) = Some (NoMoreWork, en_broker w)"
    using b by (simp add: claim_next_def sample_engine_config_def sample_slots_def)
  then have "worker_claim ?cfg ?io (worker_name 0) w = Some w1"
    using w by (simp add: worker_claim_def send_worker_event_def set_worker_def w1_def)
  then have "engine_step ?cfg w (WorkerClaim (worker_name 0)) w1"
    using w b by (intro step_claim [where io = ?io]) (simp_all add: usize_max_def)
  then have 1: "reachable (engine_init ?cfg) (engine_step ?cfg) w1" by (rule reach_step [OF 0])
  have top: "engine_top ?cfg ?io v = (case decide_flow ?cfg v of Inl e \<Rightarrow> (Inl e, v) | Inr f \<Rightarrow> (Inr f, v))" if "running_control v" for v
    using sample_external [OF that] by (simp add: engine_top_def obind_def omodify_def oget_def olift_def ensure_def split: sum.split)
  have "running_control w1" using control by (simp add: w1_def running_control_def)
  then have s1: "coordinator_step ?cfg ?io w1 = w1\<lparr>en_phase := AtPoll\<rparr>"
    using w by (simp add: coordinator_step_def top w1_def decide_flow_def Let_def)
  define w2 where "w2 = w1\<lparr>en_phase := AtTop, en_events := [], en_exited := 1\<rparr>"
  have s2: "coordinator_step ?cfg ?io (w1\<lparr>en_phase := AtPoll\<rparr>) = w2"
    using w by (simp add: coordinator_step_def engine_poll_def obind_def oget_def omodify_def w1_def w2_def saturating_add_def usize_max_def)
  have "running_control w2" using control by (simp add: w1_def w2_def running_control_def)
  then have s3: "coordinator_step ?cfg ?io w2 = w2\<lparr>en_phase := AtFinish\<rparr>"
    using w pending b
    by (simp add: coordinator_step_def top w1_def w2_def decide_flow_def Let_def has_pending_def has_unfinished_slots_def)
  note step = step_coordinator [of ?cfg _ ?io]
  have 2: "reachable (engine_init ?cfg) (engine_step ?cfg) (w2\<lparr>en_phase := AtFinish\<rparr>)"
    using reach_step [OF reach_step [OF reach_step [OF 1 step] step] step] by (simp add: s1 s2 s3)
  let ?w3 = "w2\<lparr>en_phase := AtFinish\<rparr>"
  have "running_control ?w3" using \<open>running_control w2\<close> by (simp add: running_control_def)
  then obtain v where "engine_finish ?cfg ?io ?w3 = (Ok EngCompleted, v)" "bs_slot_states (en_broker v) = [BCommitted]"
    using sample_finish [of ?w3] w pending b by (auto simp: w1_def w2_def)
  with 2 show ?thesis by (intro exI [of _ ?w3]) (simp add: coordinator_step_def)
qed

section \<open>Properties\<close>

text \<open>
  C1: Whatever the interleaving of workers, coordinator and other processes, and whatever calls fail on the way, an
  engine that reports the run as completed has committed every slot of the schedule in the store, except slots that the
  broker had found active there when the engine started.
\<close>

theorem engine_completed_commits_all:
  assumes "reachable (engine_init cfg) (engine_step cfg) w"
    and "en_phase w \<noteq> Returned (Ok EngCompleted)" "w' = coordinator_step cfg io w"
    and "en_phase w' = Returned (Ok EngCompleted)" "i < length (ec_schedule cfg)"
  shows "(\<exists>r. st_slots (cms_store (en_commit w')) (ec_run_id cfg, i) = Some r \<and> ssr_state r = SlotCommitted) \<or>
    bs_slot_states (en_broker w') ! i = BBlockedActive"
proof -
  note result = assms(4) [unfolded assms(3)]
  have inv: "engine_inv cfg w" by (rule engine.reachable_inv [OF assms(1)])
  have finish: "en_phase w = AtFinish"
  proof (cases "en_phase w")
    case AtTop
    obtain r v where top: "engine_top cfg io w = (r, v)" by (cases "engine_top cfg io w")
    from result have "r = Ok (ReturnOutcome EngCompleted)"
      by (auto simp: coordinator_step_def AtTop top split: sum.splits loop_flow.splits)
    with top_requested [of cfg io w "ReturnOutcome EngCompleted" v] top inv AtTop show ?thesis by (simp add: engine_inv_def)
  next
    case AtPoll
    with result show ?thesis by (auto simp: coordinator_step_def split: prod.splits sum.splits)
  next
    case (Returned r)
    with result show ?thesis by (auto simp: coordinator_step_def engine_shutdown_def Let_def split: prod.splits)
  next
    case (ShutDown r)
    with result show ?thesis by (simp add: coordinator_step_def)
  qed
  obtain r v where fin: "engine_finish cfg io w = (r, v)" by (cases "engine_finish cfg io w")
  with result finish have r: "r = Ok EngCompleted" and w': "w' = v\<lparr>en_phase := Returned (Ok EngCompleted)\<rparr>"
    by (simp_all add: coordinator_step_def assms(3))
  from inv finish have "core_inv cfg w" "all_settled cfg w" by (simp_all add: engine_inv_def)
  from engine_finish_settled [OF this fin [unfolded r] assms(5)] show ?thesis by (auto simp: w' durable_def)
qed

theorem engine_completed_commits_all_witness:
  "\<exists>w. reachable (engine_init sample_engine_config) (engine_step sample_engine_config) w \<and>
     en_phase (coordinator_step sample_engine_config sample_engine_io w) = Returned (Ok EngCompleted) \<and>
     (\<exists>r. st_slots (cms_store (en_commit (coordinator_step sample_engine_config sample_engine_io w))) (''run'', 0) = Some r \<and>
        ssr_state r = SlotCommitted)"
proof -
  obtain w where w: "reachable (engine_init sample_engine_config) (engine_step sample_engine_config) w" "en_phase w = AtFinish"
    "en_phase (coordinator_step sample_engine_config sample_engine_io w) = Returned (Ok EngCompleted)"
    and slot: "bs_slot_states (en_broker (coordinator_step sample_engine_config sample_engine_io w)) = [BCommitted]"
    using sample_run by (elim exE conjE)
  from engine_completed_commits_all [OF w(1) _ refl w(3), of 0] w(2) slot
  have "\<exists>r. st_slots (cms_store (en_commit (coordinator_step sample_engine_config sample_engine_io w))) (''run'', 0) = Some r \<and>
      ssr_state r = SlotCommitted"
    by (simp add: sample_slots_def)
  with w(1,3) show ?thesis by (intro exI [of _ w]) simp
qed

end
