(* ===== verification/Engine_Capacity.thy ===== *)
theory Engine_Capacity
  imports Engine_Properties
begin

text \<open>
  The number of trials under way: a trial in flight is held by exactly one worker, also while the engine stops, so
  that their number is bounded by the number of workers.
\<close>

section \<open>The coordinator leaves the workers and their trials alone\<close>

definition crew :: "engine \<Rightarrow> (string, in_flight_dispatch) btree \<times> nat \<times> (string \<rightharpoonup> worker_phase)" where
  "crew w = (bs_in_flight (en_broker w), bs_trial_index (en_broker w), en_workers w)"

lemma crew_updates [simp]:
  "crew (w\<lparr>en_commit := s\<rparr>) = crew w" "crew (w\<lparr>en_control := c\<rparr>) = crew w" "crew (w\<lparr>en_committer := d\<rparr>) = crew w"
  "crew (w\<lparr>en_events := evs\<rparr>) = crew w" "crew (w\<lparr>en_phase := p\<rparr>) = crew w" "crew (w\<lparr>en_requested := q\<rparr>) = crew w"
  "crew (w\<lparr>en_exited := n\<rparr>) = crew w" "crew (w\<lparr>en_first_dispatched := f\<rparr>) = crew w" "crew (w\<lparr>en_intents := m\<rparr>) = crew w"
  "crew (w\<lparr>en_broker := stop_accepting (en_broker w)\<rparr>) = crew w"
  by (simp_all add: crew_def stop_accepting_def)

lemma fold_mark_committed_crew:
  "bs_in_flight (fold mark_committed is b) = bs_in_flight b" "bs_trial_index (fold mark_committed is b) = bs_trial_index b"
  by (induction "is" arbitrary: b) (simp_all add: mark_committed_def)

lemma crew_frame:
  "crew (snd (on_engine_control m w)) = crew w" "crew (snd (on_engine_trials t w)) = crew w"
  "crew (snd (on_engine_store n w)) = crew w" "crew (snd (enqueue_completion i p w)) = crew w"
  "crew (snd (drain_engine cfg io k w)) = crew w" "crew (settle_commits before w) = crew w"
  "crew (request_outcome outcome w) = crew w"
  by (auto simp: on_engine_control_def on_engine_trials_def on_engine_store_def enqueue_completion_def drain_engine_def
      settle_commits_def request_outcome_def Let_def split: prod.splits sum.splits)
    (simp_all add: crew_def update_pruned_variants_def fold_mark_committed_crew stop_accepting_def)

lemma crew_calls:
  "crew (snd (write_engine_control cfg io status w)) = crew w" "crew (snd (write_status cfg io w)) = crew w"
  "crew (snd (stored_run_id io w)) = crew w" "crew (snd (persist_pending_trial_completions cfg io w)) = crew w"
proof -
  note bind = obind_invariant [where P = "\<lambda>s. crew s = crew w"]
  show "crew (snd (stored_run_id io w)) = crew w" by (simp add: stored_run_id_def crew_frame)
  show "crew (snd (write_engine_control cfg io status w)) = crew w"
    unfolding write_engine_control_def by (auto simp: oget_def crew_frame intro!: bind)
  show "crew (snd (write_status cfg io w)) = crew w"
    unfolding write_status_def write_engine_control_def by (auto simp: oget_def crew_frame intro!: bind)
  show "crew (snd (persist_pending_trial_completions cfg io w)) = crew w"
    unfolding persist_pending_trial_completions_def stored_run_id_def
    by (auto simp: oget_def oreturn_def ofail_def Let_def crew_frame split: option.splits intro!: bind)
qed

lemma drain_crew: "crew (snd (drain_ready_and_persist cfg io w)) = crew w"
  unfolding drain_ready_and_persist_def
  by (auto simp: oget_def omodify_def oreturn_def crew_frame crew_calls intro!: obind_invariant [where P = "\<lambda>s. crew s = crew w"])

lemma handle_event_crew: "crew (snd (handle_event cfg io e w)) = crew w"
  by (cases e) (auto simp: handle_claimed_def handle_skipped_def handle_completed_def olift_def oget_def omodify_def
      oreturn_def ofail_def crew_frame crew_calls drain_crew intro!: obind_invariant [where P = "\<lambda>s. crew s = crew w"])

lemma loop_crew:
  "crew (snd (engine_top cfg io w)) = crew w" "crew (snd (engine_poll cfg io w)) = crew w"
  "crew (snd (engine_finish cfg io w)) = crew w"
proof -
  note bind = obind_invariant [where P = "\<lambda>s. crew s = crew w"]
  show "crew (snd (engine_top cfg io w)) = crew w"
    unfolding engine_top_def
    by (auto simp: oget_def omodify_def olift_def oreturn_def crew_frame crew_calls split: option.splits intro!: bind)
  show "crew (snd (engine_poll cfg io w)) = crew w"
    unfolding engine_poll_def
    by (auto simp: oget_def omodify_def oreturn_def ofail_def handle_event_crew split: list.splits intro!: bind)
  show "crew (snd (engine_finish cfg io w)) = crew w"
    unfolding engine_finish_def by (auto simp: oget_def crew_calls drain_crew intro!: bind)
qed

lemma try_each_crew: "(\<And>x w. crew (snd (f x w)) = crew w) \<Longrightarrow> crew (snd (try_each xs f w)) = crew w"
proof (induction xs arbitrary: w)
  case (Cons x xs)
  have "crew (snd (f x w)) = crew w" by (rule Cons.prems)
  moreover have "crew (snd (try_each xs f (snd (f x w)))) = crew (snd (f x w))" by (rule Cons.IH) (rule Cons.prems)
  ultimately show ?case by (simp add: split_beta)
qed simp

lemma shutdown_crew: "crew (engine_shutdown cfg io r w) = crew w"
proof -
  have "crew (snd (shutdown_in_flight cfg io ds v)) = crew v" for ds v
    by (simp add: shutdown_in_flight_def cleanup_in_flight_trial_containers_def split_beta crew_frame try_each_crew)
  then show ?thesis by (simp add: engine_shutdown_def Let_def split_beta)
qed

lemma coordinator_crew: "crew (coordinator_step cfg io w) = crew w"
  using loop_crew [of cfg io w] shutdown_crew [of cfg io _ w]
  by (auto simp: coordinator_step_def split: coordinator_phase.splits prod.splits sum.splits loop_flow.splits)

section \<open>Trials in flight are those the workers hold\<close>

definition held_by :: "(string \<rightharpoonup> worker_phase) \<Rightarrow> string \<Rightarrow> (string \<times> nat) option" where
  "held_by workers k = Option.bind (workers k) holds"

definition crew_inv :: "engine_config \<Rightarrow> engine \<Rightarrow> bool" where
  "crew_inv cfg w \<longleftrightarrow>
     bt_wf (bs_in_flight (en_broker w)) \<and>
     dom (en_workers w) = worker_name ` {..<dispatch_capacity cfg} \<and>
     (\<forall>t \<in> dom (bt_get (bs_in_flight (en_broker w))). \<exists>n \<le> bs_trial_index (en_broker w). t = trial_id_of n) \<and>
     (\<forall>k t i. held_by (en_workers w) k = Some (t, i) \<longleftrightarrow>
        (\<exists>d. bt_get (bs_in_flight (en_broker w)) t = Some d \<and> ifd_worker_id d = k \<and> ifd_schedule_idx d = i))"

lemma crew_invD:
  assumes "crew_inv cfg w"
  shows "bt_wf (bs_in_flight (en_broker w))" "dom (en_workers w) = worker_name ` {..<dispatch_capacity cfg}"
    "bt_get (bs_in_flight (en_broker w)) t = Some d \<Longrightarrow> \<exists>n \<le> bs_trial_index (en_broker w). t = trial_id_of n"
    "held_by (en_workers w) k = Some (t, i) \<Longrightarrow>
       \<exists>d. bt_get (bs_in_flight (en_broker w)) t = Some d \<and> ifd_worker_id d = k \<and> ifd_schedule_idx d = i"
    "bt_get (bs_in_flight (en_broker w)) t = Some d \<Longrightarrow> held_by (en_workers w) (ifd_worker_id d) = Some (t, ifd_schedule_idx d)"
  using assms unfolding crew_inv_def by blast+

lemma crew_invI:
  assumes "bt_wf (bs_in_flight (en_broker w))" "dom (en_workers w) = worker_name ` {..<dispatch_capacity cfg}"
    and "\<And>t d. bt_get (bs_in_flight (en_broker w)) t = Some d \<Longrightarrow> \<exists>n \<le> bs_trial_index (en_broker w). t = trial_id_of n"
    and "\<And>k t i. held_by (en_workers w) k = Some (t, i) \<Longrightarrow>
       \<exists>d. bt_get (bs_in_flight (en_broker w)) t = Some d \<and> ifd_worker_id d = k \<and> ifd_schedule_idx d = i"
    and "\<And>t d. bt_get (bs_in_flight (en_broker w)) t = Some d \<Longrightarrow>
       held_by (en_workers w) (ifd_worker_id d) = Some (t, ifd_schedule_idx d)"
  shows "crew_inv cfg w"
  unfolding crew_inv_def
proof (intro conjI ballI allI iffI)
  fix t
  assume "t \<in> dom (bt_get (bs_in_flight (en_broker w)))"
  then show "\<exists>n \<le> bs_trial_index (en_broker w). t = trial_id_of n" using assms(3) by auto
next
  fix k t i
  assume "\<exists>d. bt_get (bs_in_flight (en_broker w)) t = Some d \<and> ifd_worker_id d = k \<and> ifd_schedule_idx d = i"
  then show "held_by (en_workers w) k = Some (t, i)" using assms(5) by auto
qed (use assms(1,2,4) in simp_all)

lemma crew_inv_crew: "crew_inv cfg w \<Longrightarrow> crew w' = crew w \<Longrightarrow> crew_inv cfg w'"
  by (simp add: crew_inv_def crew_def)

lemma crew_inv_init:
  assumes "engine_init cfg w"
  shows "crew_inv cfg w"
proof -
  obtain io recovered w0 where "engine_start cfg io recovered w0 = (Ok (), w)"
    using assms unfolding engine_init_def by blast
  then obtain v3 v4 v5 where 4: "start_broker cfg v3 = (Ok (), v4)" and 5: "write_engine_control cfg io ''running'' v4 = (Ok (), v5)"
    and w: "w = start_workers cfg v5"
    by (auto simp: engine_start_def obind_eq_Ok olift_def oget_def omodify_def)
  have "bs_in_flight (en_broker v4) = []"
    using 4 by (auto simp: start_broker_def broker_new_def result_iffs split: sum.splits)
  then have "bs_in_flight (en_broker v5) = []" using crew_calls(1) [of cfg io "''running''" v4] 5 by (simp add: crew_def)
  then show ?thesis
    by (intro crew_invI) (auto simp: w start_workers_def held_by_def split: if_splits)
qed

text \<open>A worker that holds nothing takes a new trial; a worker that holds one gives it back or keeps it.\<close>

lemma crew_take:
  assumes inv: "crew_inv cfg w" and k: "en_workers w k = Some WIdle" and index: "bs_trial_index (en_broker w) < usize_max"
    and slot: "dispatch_slot b k now i (en_broker w) = (outcome, b')" and w': "en_broker w' = b'"
      "en_workers w' = (en_workers w)(k \<mapsto> phase)" "holds phase = Some (trial_id_of (saturating_add (bs_trial_index (en_broker w)) 1), i)"
  shows "crew_inv cfg w'"
proof -
  note D = crew_invD [OF inv]
  let ?n = "bs_trial_index (en_broker w)"
  have sat: "saturating_add ?n 1 = ?n + 1" using index by (intro saturating_add_exact) linarith
  obtain d where flight: "bs_in_flight b' = bt_insert (trial_id_of (?n + 1)) d (bs_in_flight (en_broker w))"
    and d: "ifd_worker_id d = k" "ifd_schedule_idx d = i" and n: "bs_trial_index b' = ?n + 1"
    using slot sat by (auto simp: dispatch_slot_def Let_def)
  have fresh: "bt_get (bs_in_flight (en_broker w)) (trial_id_of (?n + 1)) = None"
    using D(3) [of "trial_id_of (?n + 1)"] by (cases "bt_get (bs_in_flight (en_broker w)) (trial_id_of (?n + 1))") auto
  have held: "held_by (en_workers w') j = (if j = k then Some (trial_id_of (?n + 1), i) else held_by (en_workers w) j)" for j
    using w'(3) sat by (simp add: w'(2) held_by_def)
  have idle: "held_by (en_workers w) k = None" using k by (simp add: held_by_def)
  show ?thesis
  proof (rule crew_invI)
    show "dom (en_workers w') = worker_name ` {..<dispatch_capacity cfg}" using D(2) k by (auto simp: w'(2))
    show "\<exists>m \<le> bs_trial_index (en_broker w'). t = trial_id_of m" if "bt_get (bs_in_flight (en_broker w')) t = Some e" for t e
      using that D(3) [of t] by (auto simp: w'(1) flight n split: if_splits intro: le_SucI)
    show "\<exists>e. bt_get (bs_in_flight (en_broker w')) t = Some e \<and> ifd_worker_id e = j \<and> ifd_schedule_idx e = l"
      if "held_by (en_workers w') j = Some (t, l)" for j t l
      using that D(4) [of j t l] fresh d by (auto simp: held w'(1) flight split: if_splits)
    show "held_by (en_workers w') (ifd_worker_id e) = Some (t, ifd_schedule_idx e)"
      if "bt_get (bs_in_flight (en_broker w')) t = Some e" for t e
      using that D(5) [of t e] idle d by (auto simp: held w'(1) flight split: if_splits)
  qed (use D(1) in \<open>simp add: w'(1) flight\<close>)
qed

lemma crew_give:
  assumes inv: "crew_inv cfg w" and k: "held_by (en_workers w) k = Some (t, i)"
    and w': "bs_in_flight (en_broker w') = bt_remove t (bs_in_flight (en_broker w))"
      "bs_trial_index (en_broker w') = bs_trial_index (en_broker w)" "en_workers w' = (en_workers w)(k \<mapsto> phase)" "holds phase = None"
  shows "crew_inv cfg w'"
proof -
  note D = crew_invD [OF inv]
  have held: "held_by (en_workers w') j = (if j = k then None else held_by (en_workers w) j)" for j
    using w'(4) by (simp add: w'(3) held_by_def)
  obtain d where d: "bt_get (bs_in_flight (en_broker w)) t = Some d" "ifd_worker_id d = k" using D(4) [OF k] by blast
  show ?thesis
  proof (rule crew_invI)
    have "k \<in> dom (en_workers w)" using k by (auto simp: held_by_def bind_eq_Some_conv)
    then show "dom (en_workers w') = worker_name ` {..<dispatch_capacity cfg}" using D(2) by (auto simp: w'(3))
    show "\<exists>m \<le> bs_trial_index (en_broker w'). s = trial_id_of m" if "bt_get (bs_in_flight (en_broker w')) s = Some e" for s e
      using that D(3) [of s] by (auto simp: w'(1,2) split: if_splits)
    show "\<exists>e. bt_get (bs_in_flight (en_broker w')) s = Some e \<and> ifd_worker_id e = j \<and> ifd_schedule_idx e = l"
      if "held_by (en_workers w') j = Some (s, l)" for j s l
      using that D(4) [of j s l] d by (auto simp: held w'(1) split: if_splits)
    show "held_by (en_workers w') (ifd_worker_id e) = Some (s, ifd_schedule_idx e)"
      if "bt_get (bs_in_flight (en_broker w')) s = Some e" for s e
      using that D(5) [of s e] k by (auto simp: held w'(1) split: if_splits)
  qed (use D(1) in \<open>simp add: w'(1)\<close>)
qed

lemma crew_keep:
  assumes "crew_inv cfg w" "en_workers w k = Some old" "holds phase = holds old" "bs_in_flight (en_broker w') = bs_in_flight (en_broker w)"
    and "bs_trial_index (en_broker w') = bs_trial_index (en_broker w)" "en_workers w' = (en_workers w)(k \<mapsto> phase)"
  shows "crew_inv cfg w'"
proof -
  have "held_by (en_workers w') = held_by (en_workers w)" using assms(2,3) by (auto simp: held_by_def assms(6))
  moreover have "dom (en_workers w') = dom (en_workers w)" using assms(2) by (auto simp: assms(6))
  ultimately show ?thesis using assms(1) by (simp add: crew_inv_def assms(4,5))
qed

lemma taken:
  assumes "crew_inv cfg w" "held_by (en_workers w) k = Some (t, i)"
  shows "\<exists>v. take_owned s k t i (en_broker w) = Ok (rollback_claim i t v s (en_broker w))"
  using crew_invD(4) [OF assms] by (auto simp: take_owned_Ok)

lemma crew_inv_step:
  assumes inv: "crew_inv cfg w" and step: "engine_step cfg w l w'"
  shows "crew_inv cfg w'"
  using step
proof cases
  case (step_coordinator io)
  with crew_inv_crew [OF inv coordinator_crew] show ?thesis by simp
next
  case (step_claim k io)
  obtain outcome b where c: "claim_next (ec_broker cfg) k (ei_now io) (en_broker w) = Some (outcome, b)"
    using step_claim(4) by (auto simp: worker_claim_def split: option.splits)
  note step_claim = step_claim(2,3) step_claim(4) [unfolded worker_claim_def c]
  from claim_next_outcome [OF c] consider
      (none) "outcome \<in> {NoMoreWork, MustWait}" "b = en_broker w"
    | (skip) i where "outcome = SkippedPruned i" "b = (en_broker w)\<lparr>bs_slot_states := (bs_slot_states (en_broker w))[i := BCompletedPendingCommit]\<rparr>"
    | (dispatch) i where "dispatch_slot (ec_broker cfg) k (ei_now io) i (en_broker w) = (outcome, b)"
    by (auto simp: Let_def)
  then show ?thesis
  proof cases
    case none
    with step_claim(3) show ?thesis
      by (intro crew_keep [OF inv step_claim(1), where phase = WExited]) (auto simp: send_worker_event_def set_worker_def)
  next
    case (skip i)
    with step_claim(3) show ?thesis by (intro crew_inv_crew [OF inv]) (auto simp: send_worker_event_def crew_def)
  next
    case (dispatch i)
    obtain slot active where o: "outcome = Dispatched i (trial_id_of (saturating_add (bs_trial_index (en_broker w)) 1)) slot active"
      using dispatch_slot_fields(2) [OF dispatch] by blast
    with step_claim(3) show ?thesis
      by (intro crew_take [OF inv step_claim(1,2) dispatch]) (auto simp: set_worker_def)
  qed
next
  case (step_prepare_failed k t i active)
  then show ?thesis
    by (intro crew_give [OF inv, where k = k and t = t and i = i and phase = WExited])
      (simp_all add: held_by_def worker_prepare_failed_def worker_fault_def send_worker_event_def set_worker_def rollback_claim_def)
next
  case (step_launch k t i active io)
  have held: "held_by (en_workers w) k = Some (t, i)" using step_launch(3) by (simp add: held_by_def)
  obtain v where v: "take_owned BPending k t i (en_broker w) = Ok (rollback_claim i t v BPending (en_broker w))"
    using taken [OF inv held] by blast
  show ?thesis
  proof (cases "ei_intent_ok io")
    case True
    with step_launch show ?thesis
      by (intro crew_keep [OF inv step_launch(3), where phase = "WRunning t i"])
        (simp_all add: worker_launch_def send_worker_event_def set_worker_def)
  next
    case False
    with step_launch v show ?thesis
      by (intro crew_give [OF inv held, where phase = WExited])
        (simp_all add: worker_launch_def worker_fault_def send_worker_event_def set_worker_def release_owned_to_pending_def rollback_claim_def)
  qed
next
  case (step_worker_complete k t i result)
  have held: "held_by (en_workers w) k = Some (t, i)" using step_worker_complete(3) by (simp add: held_by_def)
  obtain v where "take_owned BCompletedPendingCommit k t i (en_broker w) = Ok (rollback_claim i t v BCompletedPendingCommit (en_broker w))"
    using taken [OF inv held] by blast
  with step_worker_complete show ?thesis
    by (intro crew_give [OF inv held, where phase = WIdle])
      (simp_all add: worker_complete_def send_worker_event_def set_worker_def complete_owned_def rollback_claim_def)
next
  case (step_outside c)
  then show ?thesis by (intro crew_inv_crew [OF inv]) simp
qed

interpretation crew: invariant_system "engine_init cfg" "engine_step cfg" "crew_inv cfg" for cfg
  by unfold_locales (auto intro: crew_inv_init crew_inv_step)

section \<open>Properties\<close>

text \<open>
  C2: However workers, coordinator and other processes interleave, and also while the engine stops after an error, every
  trial in flight is held by a worker of its own, and there are never more of them than the dispatch capacity, which is at
  least one and exceeds neither the concurrency of the experiment nor the ceiling set for the host, unless these are zero.
\<close>

theorem engine_in_flight_bounded:
  assumes "reachable (engine_init cfg) (engine_step cfg) w"
  shows "length (bs_in_flight (en_broker w)) \<le> dispatch_capacity cfg \<and>
    inj_on (\<lambda>t. ifd_worker_id (the (bt_get (bs_in_flight (en_broker w)) t))) (dom (bt_get (bs_in_flight (en_broker w)))) \<and>
    1 \<le> dispatch_capacity cfg \<and> dispatch_capacity cfg \<le> max 1 (ec_max_concurrency cfg) \<and>
    (case ec_capacity_ceiling cfg of None \<Rightarrow> True | Some c \<Rightarrow> dispatch_capacity cfg \<le> max 1 c)"
proof -
  let ?flight = "bt_get (bs_in_flight (en_broker w))"
  let ?owner = "\<lambda>t. ifd_worker_id (the (?flight t))"
  note D = crew_invD [OF crew.reachable_inv [OF assms]]
  have held: "held_by (en_workers w) (?owner t) = Some (t, ifd_schedule_idx (the (?flight t)))" if "t \<in> dom ?flight" for t
    using that D(5) by auto
  have inj: "inj_on ?owner (dom ?flight)"
  proof (rule inj_onI)
    fix s t
    assume "s \<in> dom ?flight" "t \<in> dom ?flight" "?owner s = ?owner t"
    then have "Some (s, ifd_schedule_idx (the (?flight s))) = Some (t, ifd_schedule_idx (the (?flight t)))"
      by (metis held)
    then show "s = t" by blast
  qed
  have "?owner ` dom ?flight \<subseteq> worker_name ` {..<dispatch_capacity cfg}"
    unfolding D(2) [symmetric] using held by (force simp: held_by_def bind_eq_Some_conv)
  then have "card (?owner ` dom ?flight) \<le> card (worker_name ` {..<dispatch_capacity cfg})" by (intro card_mono) simp_all
  also have "\<dots> \<le> dispatch_capacity cfg" using card_image_le [of "{..<dispatch_capacity cfg}" worker_name] by simp
  finally have "length (bs_in_flight (en_broker w)) \<le> dispatch_capacity cfg"
    using length_in_flight [OF D(1)] card_image [OF inj] by simp
  moreover have "1 \<le> dispatch_capacity cfg" "dispatch_capacity cfg \<le> max 1 (ec_max_concurrency cfg)"
      "case ec_capacity_ceiling cfg of None \<Rightarrow> True | Some c \<Rightarrow> dispatch_capacity cfg \<le> max 1 c"
    by (auto simp: dispatch_capacity_def resolve_local_worker_max_in_flight_def Let_def split: option.split)
  ultimately show ?thesis using inj by blast
qed

theorem engine_in_flight_bounded_witness:
  "\<exists>w. reachable (engine_init sample_engine_config) (engine_step sample_engine_config) w \<and>
     length (bs_in_flight (en_broker w)) \<le> 1"
proof -
  obtain w where w: "reachable (engine_init sample_engine_config) (engine_step sample_engine_config) w"
    using sample_run by (elim exE conjE)
  from engine_in_flight_bounded [OF w] w show ?thesis by (intro exI [of _ w]) simp
qed

end
