(* ===== verification/Run_Kill.thy ===== *)
theory Run_Kill
  imports Run_Control
begin

text \<open>
  What killing a run leaves behind (\<open>kill_run\<close> of \<open>lab-runner/src/experiment/control.rs\<close>): the attempts of the
  trials, their state files and the control att, after a complete and after a partial kill.
\<close>

section \<open>Settled trials\<close>

definition finished_attempt :: "string \<Rightarrow> trial_world \<Rightarrow> string \<Rightarrow> bool" where
  "finished_attempt run_id t trial_id \<longleftrightarrow>
     (\<exists>r. latest_attempt t run_id trial_id = Some r \<and> tas_phase (tar_state r) \<in> {PhKilled, PhCommitted})"

definition marked_killed :: "trial_world \<Rightarrow> string \<Rightarrow> bool" where
  "marked_killed t trial_id \<longleftrightarrow>
     (trial_id \<in> tw_dirs t \<longrightarrow>
      tw_trial_states t trial_id = Some \<lparr>tsf_status = ''killed'', tsf_pause_label = None,
        tsf_checkpoint_selected = None, tsf_exit_reason = Some ''killed_by_user''\<rparr>)"

definition settled :: "string \<Rightarrow> trial_world \<Rightarrow> string \<Rightarrow> bool" where
  "settled run_id t trial_id \<longleftrightarrow> finished_attempt run_id t trial_id \<and> marked_killed t trial_id"

section \<open>Lemmas\<close>

lemma obind_Ok: "m s = (Ok x, t) \<Longrightarrow> obind m f s = f x t"
  by (simp add: obind_def)

lemma persist_attempts:
  "tw_attempts (snd (persist_attempt_state env run_id trial_id state w)) = tw_attempts w \<or>
   tw_attempts (snd (persist_attempt_state env run_id trial_id state w)) =
     (tw_attempts w)((run_id, trial_id, tak_attempt (tas_key state)) \<mapsto> attempt_record trial_id state)"
  "tw_dirs (snd (persist_attempt_state env run_id trial_id state w)) = tw_dirs w"
proof -
  let ?new = "\<lambda>v. (tw_attempts v)((run_id, trial_id, tak_attempt (tas_key state)) \<mapsto> attempt_record trial_id state)"
  have upsert: "(tw_attempts (snd (upsert_trial_attempt_state env run_id trial_id state v)) = tw_attempts v \<or>
      tw_attempts (snd (upsert_trial_attempt_state env run_id trial_id state v)) = ?new v) \<and>
      tw_dirs (snd (upsert_trial_attempt_state env run_id trial_id state v)) = tw_dirs v" for v
    unfolding upsert_trial_attempt_state_def
    by (rule retry_sqlite_busy_frame [where P = "\<lambda>s. (tw_attempts s = tw_attempts v \<or> tw_attempts s = ?new v) \<and> tw_dirs s = tw_dirs v"])
      (auto simp: upsert_attempt_once split: option.splits)
  obtain fr v where v: "write_trial_attempt_state env trial_id state w = (fr, v)" "tw_attempts v = tw_attempts w"
      "tw_dirs v = tw_dirs w"
    by (cases "te_file env trial_id RuntimeWrite") (simp_all add: write_trial_attempt_state_def file_call_def op_defs)
  obtain dr u where u: "upsert_trial_attempt_state env run_id trial_id state v = (dr, u)"
    by (cases "upsert_trial_attempt_state env run_id trial_id state v")
  have "snd (persist_attempt_state env run_id trial_id state w) = u"
    by (cases fr; cases dr) (simp_all add: persist_attempt_state_def v(1) u)
  with upsert [of v] u v show
    "tw_attempts (snd (persist_attempt_state env run_id trial_id state w)) = tw_attempts w \<or>
     tw_attempts (snd (persist_attempt_state env run_id trial_id state w)) = ?new w"
    "tw_dirs (snd (persist_attempt_state env run_id trial_id state w)) = tw_dirs w"
    by simp_all
qed

lemma latest_attempt_other:
  assumes "tw_attempts w' = (tw_attempts w)((run_id, trial_id, a) \<mapsto> r)" "i \<noteq> trial_id"
  shows "latest_attempt w' run_id i = latest_attempt w run_id i"
  using assms by (simp add: latest_attempt_def attempt_numbers_def)

text \<open>Marking an attempt as killed never takes a finished attempt back.\<close>

lemma mark_killed_result:
  assumes "attempts_wf t" "mark_trial_attempt_killed env run_id trial_id t = (r, t')"
  shows "attempts_wf t' \<and> tw_trial_states t' = tw_trial_states t \<and> tw_dirs t' = tw_dirs t \<and>
    (\<forall>i. finished_attempt run_id t i \<longrightarrow> finished_attempt run_id t' i) \<and>
    (is_ok r \<longrightarrow> finished_attempt run_id t' trial_id)"
proof (cases "t' = t \<and> \<not> is_ok r")
  case True
  with assms(1) show ?thesis by simp
next
  case False
  have connected: "te_db env trial_id SiteLatest = None" "latest_attempt t run_id trial_id \<noteq> None"
    using assms(2) False
    by (auto simp: mark_trial_attempt_killed_def load_latest_trial_attempt_def db_call_def op_defs ok_or_def is_ok_def
        split: option.splits)
  then obtain att where latest: "latest_attempt t run_id trial_id = Some att" by blast
  define state where "state = (tar_state att)\<lparr>tas_phase := PhKilled, tas_paused_from_phase := None\<rparr>"
  have step: "(if tas_phase (tar_state att) \<noteq> PhCommitted then persist_attempt_state env run_id trial_id state
      else oreturn ()) t = (r, t')"
    using assms(2) connected latest
    by (cases "tas_phase (tar_state att) = PhCommitted")
      (simp_all add: mark_trial_attempt_killed_def load_latest_trial_attempt_def db_call_def op_defs ok_or_def state_def Let_def)
  show ?thesis
  proof (cases "tas_phase (tar_state att) = PhCommitted")
    case True
    with step have "t' = t" "r = Ok ()" by (simp_all add: oreturn_def)
    with True latest assms(1) show ?thesis by (simp add: finished_attempt_def)
  next
    case open_attempt: False
    with step have p: "persist_attempt_state env run_id trial_id state t = (r, t')" by simp
    have frame: "tw_trial_states t' = tw_trial_states t" "tw_dirs t' = tw_dirs t"
      using persist_frame [of env run_id trial_id state t] persist_attempts(2) [of env run_id trial_id state t] p by simp_all
    consider "tw_attempts t' = tw_attempts t" "\<not> is_ok r"
      | "tw_attempts t' = (tw_attempts t)((run_id, trial_id, tak_attempt (tas_key state)) \<mapsto> attempt_record trial_id state)"
      using persist_attempts(1) [of env run_id trial_id state t] p persist_attempt_state_Ok [of env run_id trial_id state t t']
      by (cases r) (auto simp: is_ok_def)
    then show ?thesis
    proof cases
      case 1
      with frame assms(1) show ?thesis
        using latest_attempt_cong [OF 1(1)] attempts_wf_cong [OF 1(1)] by (simp add: finished_attempt_def)
    next
      case 2
      have "tas_key state = tas_key (tar_state att)" by (simp add: state_def)
      from latest_attempt_rewrite [OF assms(1) latest this 2]
      have new: "latest_attempt t' run_id trial_id = Some (attempt_record trial_id state)" "attempts_wf t'" by simp_all
      have "finished_attempt run_id t' trial_id"
        by (simp add: finished_attempt_def new(1)) (simp add: attempt_record_def state_def)
      moreover have "finished_attempt run_id t' i" if "finished_attempt run_id t i" "i \<noteq> trial_id" for i
        using that latest_attempt_other [OF 2 that(2)] by (simp add: finished_attempt_def)
      ultimately show ?thesis using frame new(2) by blast
    qed
  qed
qed

definition trials_same :: "trial_world \<Rightarrow> trial_world \<Rightarrow> bool" where
  "trials_same t s \<longleftrightarrow> tw_attempts s = tw_attempts t \<and> tw_trial_states s = tw_trial_states t \<and> tw_dirs s = tw_dirs t"

lemma trials_same_refl [simp]: "trials_same t t"
  by (simp add: trials_same_def)

lemma docker_calls_same:
  "trials_same t s \<Longrightarrow> trials_same t (snd (remove_docker_container_handles_required env handles s))"
  "trials_same t s \<Longrightarrow> trials_same t (snd (remove_docker_network_handles_required env handles s))"
proof -
  have call: "trials_same t s \<Longrightarrow> trials_same t (snd (docker_call_op env c s))" for c s
    by (auto simp: docker_call_op_def trials_same_def split: docker_reply.splits)
  have connect: "trials_same t s \<Longrightarrow> trials_same t (snd (docker_connect env s))" for s
    by (simp add: docker_connect_def olift_def)
  show "trials_same t s \<Longrightarrow> trials_same t (snd (remove_docker_container_handles_required env handles s))"
    unfolding remove_docker_container_handles_required_def
    by (auto simp: oreturn_def intro!: obind_invariant [where P = "trials_same t"] oforeach_invariant [where P = "trials_same t"]
        call connect)
  show "trials_same t s \<Longrightarrow> trials_same t (snd (remove_docker_network_handles_required env handles s))"
    unfolding remove_docker_network_handles_required_def
    by (auto simp: oreturn_def intro!: obind_invariant [where P = "trials_same t"] oforeach_invariant [where P = "trials_same t"]
        call connect)
qed

lemma cleanup_same:
  "trials_same t s \<Longrightarrow> trials_same t (snd (cleanup_local_docker_attempt_runtime env run_id trial_id s))"
  "trials_same t s \<Longrightarrow> trials_same t (snd (cleanup_local_docker_run_runtime env s))"
  unfolding cleanup_local_docker_attempt_runtime_def cleanup_local_docker_run_runtime_def
  by (auto simp: oreturn_def ofail_def Let_def trial_reads docker_calls_same
      intro!: obind_invariant [where P = "trials_same t"] split: option.splits)

lemma trials_same_settled:
  assumes "trials_same t s"
  shows "attempts_wf s = attempts_wf t" "settled run_id s i = settled run_id t i"
    "finished_attempt run_id s i = finished_attempt run_id t i"
  using assms latest_attempt_cong [of s t] attempts_wf_cong [of s t]
  by (simp_all add: trials_same_def settled_def finished_attempt_def marked_killed_def)

lemma write_trial_state_result:
  assumes "write_trial_state env trial_id ''killed'' None None (Some ''killed_by_user'') t = (r, t')"
  shows "tw_attempts t' = tw_attempts t \<and> tw_dirs t' = tw_dirs t \<and> (\<forall>i. marked_killed t i \<longrightarrow> marked_killed t' i) \<and>
    (is_ok r \<longrightarrow> marked_killed t' trial_id)"
  using assms by (auto simp: write_trial_state_def file_call_def op_defs marked_killed_def is_ok_def split: if_splits)

lemma kill_one_result:
  assumes "attempts_wf (cw_trials w)" "kill_one env run_id trial_id w = (outcome, w')"
  shows "\<exists>t. w' = w\<lparr>cw_trials := t\<rparr> \<and> attempts_wf t \<and>
    (\<forall>i. settled run_id (cw_trials w) i \<longrightarrow> settled run_id t i) \<and>
    (\<forall>i. finished_attempt run_id (cw_trials w) i \<longrightarrow> finished_attempt run_id t i) \<and>
    (outcome = Killed \<longrightarrow> settled run_id t trial_id) \<and>
    ((\<exists>e. outcome = KilledUnrecorded e) \<longrightarrow> finished_attempt run_id t trial_id)"
proof -
  let ?mark = "\<lambda>cleaned. if cleaned > (0 :: nat) then mark_trial_attempt_killed (cn_trials env) run_id trial_id
    else ofail (MissingRuntimeWorker trial_id)"
  obtain c t0 where c: "cleanup_local_docker_attempt_runtime (cn_trials env) run_id trial_id (cw_trials w) = (c, t0)"
    by (cases "cleanup_local_docker_attempt_runtime (cn_trials env) run_id trial_id (cw_trials w)")
  have same: "trials_same (cw_trials w) t0"
    using cleanup_same(1) [of "cw_trials w" "cw_trials w" "cn_trials env" run_id trial_id] c by simp
  obtain q t1 where q: "obind (cleanup_local_docker_attempt_runtime (cn_trials env) run_id trial_id) ?mark (cw_trials w) = (q, t1)"
    by (cases "obind (cleanup_local_docker_attempt_runtime (cn_trials env) run_id trial_id) ?mark (cw_trials w)")
  have t1: "attempts_wf t1 \<and> tw_trial_states t1 = tw_trial_states t0 \<and> tw_dirs t1 = tw_dirs t0 \<and>
      (\<forall>i. finished_attempt run_id t0 i \<longrightarrow> finished_attempt run_id t1 i) \<and> (is_ok q \<longrightarrow> finished_attempt run_id t1 trial_id)"
  proof (cases "\<exists>n. c = Ok n \<and> n > 0")
    case True
    then obtain n where n: "c = Ok n" "n > 0" by blast
    with c q have "mark_trial_attempt_killed (cn_trials env) run_id trial_id t0 = (q, t1)" by (simp add: obind_def)
    from mark_killed_result [OF _ this] show ?thesis using assms(1) trials_same_settled [OF same] by simp
  next
    case False
    with c q have "t1 = t0" "\<not> is_ok q" by (auto simp: obind_def ofail_def is_ok_def split: sum.splits)
    then show ?thesis using assms(1) trials_same_settled [OF same] by simp
  qed
  then have keep: "settled run_id t1 i" if "settled run_id (cw_trials w) i" for i
    using that same by (simp add: settled_def marked_killed_def trials_same_def trials_same_settled(3) [OF same])
  have fin0: "finished_attempt run_id t1 i" if "finished_attempt run_id (cw_trials w) i" for i
    using that t1 trials_same_settled(3) [OF same] by blast
  show ?thesis
  proof (cases "is_ok q \<and> trial_id \<in> tw_dirs t1")
    case True
    obtain s t2 where s: "write_trial_state (cn_trials env) trial_id ''killed'' None None (Some ''killed_by_user'') t1 = (s, t2)"
      by (cases "write_trial_state (cn_trials env) trial_id ''killed'' None None (Some ''killed_by_user'') t1")
    note t2 = write_trial_state_result [OF s]
    have fin: "finished_attempt run_id t2 i = finished_attempt run_id t1 i" "attempts_wf t2 = attempts_wf t1" for i
      using t2 latest_attempt_cong [of t2 t1] attempts_wf_cong [of t2 t1] by (simp_all add: finished_attempt_def)
    have "w' = w\<lparr>cw_trials := t2\<rparr>" "outcome = Killed \<longleftrightarrow> is_ok s"
      using assms(2) q s True by (cases s; auto simp: kill_one_def is_ok_def split: sum.splits)+
    with t1 t2 keep fin fin0 True show ?thesis by (intro exI [of _ t2]) (auto simp: settled_def)
  next
    case False
    with assms(2) q have "w' = w\<lparr>cw_trials := t1\<rparr>" "outcome = Killed \<longrightarrow> is_ok q \<and> trial_id \<notin> tw_dirs t1"
        "outcome \<noteq> KilledUnrecorded e" for e
      by (auto simp: kill_one_def is_ok_def split: sum.splits)
    with t1 keep fin0 show ?thesis by (intro exI [of _ t1]) (auto simp: settled_def marked_killed_def)
  qed
qed

text \<open>The loop: what it reports as killed is settled, and whatever it does not settle it reports as surviving.\<close>

lemma kill_loop_result:
  assumes "attempts_wf (cw_trials w)" "kill_loop env run_id active ids w = ((killed, survivors, failures), w')"
  shows "\<exists>t. w' = w\<lparr>cw_trials := t\<rparr> \<and>
    (\<forall>i. settled run_id (cw_trials w) i \<longrightarrow> settled run_id t i) \<and>
    (\<forall>i. finished_attempt run_id (cw_trials w) i \<longrightarrow> finished_attempt run_id t i) \<and>
    (\<forall>i \<in> set killed. settled run_id t i) \<and> length killed + failures = length ids \<and> (failures = 0 \<longrightarrow> killed = ids) \<and>
    set survivors \<subseteq> set active \<and>
    (\<forall>i \<in> set ids. finished_attempt run_id t i \<or> i \<in> rcat_trial_id ` set survivors \<or> find_active i active = None)"
  using assms
proof (induction ids arbitrary: w killed survivors failures)
  case Nil
  then show ?case by (intro exI [of _ "cw_trials w"]) simp
next
  case (Cons j ids)
  obtain outcome v where v: "kill_one env run_id j w = (outcome, v)" by (cases "kill_one env run_id j w")
  obtain u where u: "v = w\<lparr>cw_trials := u\<rparr>" "attempts_wf u"
      "\<forall>i. settled run_id (cw_trials w) i \<longrightarrow> settled run_id u i"
      "\<forall>i. finished_attempt run_id (cw_trials w) i \<longrightarrow> finished_attempt run_id u i"
      "outcome = Killed \<longrightarrow> settled run_id u j" "(\<exists>e. outcome = KilledUnrecorded e) \<longrightarrow> finished_attempt run_id u j"
    using kill_one_result [OF Cons.prems(1) v] by (elim exE conjE)
  obtain killed' survivors' failures' where rest: "kill_loop env run_id active ids v = ((killed', survivors', failures'), w')"
    using Cons.prems(2) v by (auto split: prod.splits kill_outcome.splits)
  have "attempts_wf (cw_trials v)" using u(1,2) by simp
  from Cons.IH [OF this rest] obtain t where t: "w' = v\<lparr>cw_trials := t\<rparr>"
      "\<forall>i. settled run_id u i \<longrightarrow> settled run_id t i" "\<forall>i. finished_attempt run_id u i \<longrightarrow> finished_attempt run_id t i"
      "\<forall>i \<in> set killed'. settled run_id t i" "length killed' + failures' = length ids" "failures' = 0 \<longrightarrow> killed' = ids"
      "set survivors' \<subseteq> set active"
      "\<forall>i \<in> set ids. finished_attempt run_id t i \<or> i \<in> rcat_trial_id ` set survivors' \<or> find_active i active = None"
    using u(1) by auto
  have w': "w' = w\<lparr>cw_trials := t\<rparr>" using t(1) u(1) by simp
  have "finished_attempt run_id t j" if "outcome = Killed" using that u(5) t(2) by (simp add: settled_def)
  with Cons.prems(2) v rest u(3-6) t(2-) show ?case
    by (intro exI [of _ t] conjI w')
      (cases outcome; cases "find_active j active"; auto dest: find_active_id)+
qed

lemma active_trials_listed:
  assumes "run_control_active_trials ex control = Ok active" "i \<in> set (run_control_active_trial_ids ex control)"
  shows "find_active i active \<noteq> None"
proof -
  have ids: "parse_active_trials ex entries = Ok active \<Longrightarrow> map rcat_trial_id active = map fst entries" for entries
    by (induction entries arbitrary: active)
      (auto simp: parse_active_trial_def rbind_eq_Inr ok_or_eq_Inr split: option.splits if_splits prod.splits)
  have "rcat_trial_id ` set active = fst ` set entries" if "parse_active_trials ex entries = Ok active" for entries
    using arg_cong [OF ids [OF that], of set] by simp
  then have "set (run_control_active_trial_ids ex control) \<subseteq> rcat_trial_id ` set active"
    using assms(1) by (auto simp: run_control_active_trials_def run_control_active_trial_ids_def bt_keys_def split: option.splits)
  with assms(2) have "i \<in> rcat_trial_id ` set active" by auto
  then show ?thesis by (auto simp: find_active_def find_None_iff)
qed

text \<open>The last step writes the record; the sweep over the run's containers leaves the trials alone.\<close>

lemma kill_finish_result:
  assumes "pointer_laws (ex_pointer (cn_externs env))"
    and "kill_finish env run_id status ids (killed, survivors, failures) w = (r, w')"
    and "r = Ok res \<or> r = Err (KillPartialFailure n tried)"
  shows "trials_same (cw_trials w) (cw_trials w') \<and> (\<exists>control'. cw_control w' = Some control' \<and>
    (if r = Ok res
     then failures = 0 \<and> kr_killed_trials res = killed \<and> kr_run_id res = run_id \<and>
       run_control_status (cn_externs env) control' = Ok ''killed'' \<and> cw_run_status w' = Some ''killed'' \<and>
       run_control_active_trial_ids (cn_externs env) control' = []
     else run_control_status (cn_externs env) control' = Ok ''interrupted'' \<and> cw_run_status w' = Some ''interrupted'' \<and>
       set (run_control_active_trial_ids (cn_externs env) control') = rcat_trial_id ` set survivors \<and>
       n = length killed \<and> tried = length ids))"
proof -
  obtain f v where fv: "kill_sweep env failures w = (Ok f, v)"
    and same: "trials_same (cw_trials w) (cw_trials v)" and f: "failures \<noteq> 0 \<longrightarrow> f \<noteq> 0"
  proof (cases "failures = 0")
    case True
    obtain q t where q: "cleanup_local_docker_run_runtime (cn_trials env) (cw_trials w) = (q, t)"
      by (cases "cleanup_local_docker_run_runtime (cn_trials env) (cw_trials w)")
    moreover have "trials_same (cw_trials w) t"
      using cleanup_same(2) [of "cw_trials w" "cw_trials w" "cn_trials env"] q by simp
    ultimately show ?thesis using that [of _ "w\<lparr>cw_trials := t\<rparr>"] True by (cases q) (simp_all add: kill_sweep_def on_trials_def)
  qed (use that in \<open>simp add: kill_sweep_def\<close>)
  have empty: "run_control_active_trial_ids (cn_externs env) (run_control_payload run_id ''killed'' [] None now) = []" for now
    using payload_trial_ids [OF assms(1), of run_id "''killed''" "[]"] by simp
  have finish: "(if f = 0 then obind (write_run_control env run_id ''killed'' [] None) (\<lambda>_.
        oreturn \<lparr>kr_run_id = run_id, kr_previous_status = status, kr_killed_trials = killed\<rparr>)
      else obind (write_run_control env run_id ''interrupted'' survivors None) (\<lambda>_.
        ofail (KillPartialFailure (length killed) (length ids)))) v = (r, w')"
    using assms(2) by (simp only: kill_finish_def prod.case obind_Ok [of "kill_sweep env failures", OF fv])
  show ?thesis
  proof (cases "f = 0")
    case True
    with finish have "obind (write_run_control env run_id ''killed'' [] None) (\<lambda>_.
        oreturn \<lparr>kr_run_id = run_id, kr_previous_status = status, kr_killed_trials = killed\<rparr>) v = (r, w')"
      by simp
    with assms(3) same True f show ?thesis
      by (auto simp: obind_def oreturn_def payload_status [OF assms(1)] empty
          write_run_control_def control_db_def ensure_def op_defs Let_def split: if_splits)
  next
    case False
    with finish have "obind (write_run_control env run_id ''interrupted'' survivors None) (\<lambda>_.
        ofail (KillPartialFailure (length killed) (length ids))) v = (r, w')"
      by simp
    with assms(3) same show ?thesis
      by (auto simp: obind_def ofail_def payload_status [OF assms(1)] payload_trial_ids [OF assms(1)]
          write_run_control_def control_db_def ensure_def op_defs Let_def split: if_splits)
  qed
qed

lemma active_trials_no_kill_error:
  assumes "run_control_active_trials ex control = Err e"
  shows "e \<noteq> KillPartialFailure n tried"
proof -
  have "parse_active_trials ex entries = Err e \<Longrightarrow> e \<noteq> KillPartialFailure n tried" for entries
    by (induction entries) (auto simp: parse_active_trial_def rbind_eq_Inl ok_or_eq_Inl split: option.splits if_splits)
  with assms show ?thesis by (auto simp: run_control_active_trials_def split: option.splits)
qed

lemma kill_locked_result:
  assumes "pointer_laws (ex_pointer (cn_externs env))" "attempts_wf (cw_trials w)"
    and "kill_run_locked env w = (r, w')"
    and "r = Ok res \<or> r = Err (KillPartialFailure n tried)"
  shows "\<exists>control control' run_id ids. cw_control w = Some control \<and> cw_control w' = Some control' \<and>
    require_run_control_run_id (cn_externs env) control = Ok run_id \<and>
    run_control_status (cn_externs env) control \<noteq> Ok ''completed'' \<and>
    ids = run_control_active_trial_ids (cn_externs env) control \<and>
    (if r = Ok res
     then run_control_status (cn_externs env) control' = Ok ''killed'' \<and> cw_run_status w' = Some ''killed'' \<and>
       run_control_active_trial_ids (cn_externs env) control' = [] \<and> kr_killed_trials res = ids \<and>
       (\<forall>i \<in> set ids. settled run_id (cw_trials w') i)
     else run_control_status (cn_externs env) control' = Ok ''interrupted'' \<and> cw_run_status w' = Some ''interrupted'' \<and>
       n \<le> tried \<and> tried = length ids \<and>
       (\<forall>i \<in> set ids. finished_attempt run_id (cw_trials w') i \<or>
          i \<in> set (run_control_active_trial_ids (cn_externs env) control')))"
proof -
  let ?ex = "cn_externs env"
  obtain control where control: "cw_control w = Some control" "cn_db env ControlRead"
    using assms(3,4) by (auto simp: kill_run_locked_def load_run_control_def control_db_def ensure_def op_defs ok_or_def
        split: option.splits if_splits)
  then have load: "load_run_control env w = (Ok control, w)" by (simp add: load_run_control_Ok)
  obtain status where status: "run_control_status ?ex control = Ok status"
    using assms(3,4) by (cases "run_control_status ?ex control")
      (auto simp: kill_run_locked_def obind_def load olift_def run_control_status_def ok_or_def split: option.splits)
  have open_run: "status \<noteq> ''completed''"
    using assms(3,4) status by (auto simp: kill_run_locked_def obind_def load olift_def ofail_def split: if_splits)
  obtain run_id where run_id: "require_run_control_run_id ?ex control = Ok run_id"
    using assms(3,4) status open_run by (auto simp: kill_run_locked_def obind_def load olift_def
        require_run_control_run_id_def ok_or_def split: option.splits)
  obtain active where active: "run_control_active_trials ?ex control = Ok active"
    using assms(3,4) status open_run run_id
    by (cases "run_control_active_trials ?ex control")
      (auto simp: kill_run_locked_def obind_def load olift_def Let_def dest: active_trials_no_kill_error)
  define ids where "ids = run_control_active_trial_ids ?ex control"
  obtain killed survivors failures v where loop: "kill_loop env run_id active ids w = ((killed, survivors, failures), v)"
    by (cases "kill_loop env run_id active ids w") (auto simp: prod_eq_iff)
  have finish: "kill_finish env run_id status ids (killed, survivors, failures) v = (r, w')"
    using assms(3) status open_run run_id active loop
    by (simp add: kill_run_locked_def obind_def load olift_def Let_def ids_def [symmetric])
  obtain t where t: "v = w\<lparr>cw_trials := t\<rparr>" "\<forall>i \<in> set killed. settled run_id t i"
      "length killed + failures = length ids" "failures = 0 \<longrightarrow> killed = ids"
      "\<forall>i \<in> set ids. finished_attempt run_id t i \<or> i \<in> rcat_trial_id ` set survivors \<or> find_active i active = None"
    using kill_loop_result [OF assms(2) loop] by (elim exE conjE)
  have listed: "find_active i active \<noteq> None" if "i \<in> set ids" for i
    using active_trials_listed [OF active] that by (simp add: ids_def)
  from kill_finish_result [OF assms(1) finish assms(4)] obtain control' where
      same: "trials_same t (cw_trials w')" and control': "cw_control w' = Some control'"
    and result: "if r = Ok res
     then failures = 0 \<and> kr_killed_trials res = killed \<and> kr_run_id res = run_id \<and>
       run_control_status ?ex control' = Ok ''killed'' \<and> cw_run_status w' = Some ''killed'' \<and>
       run_control_active_trial_ids ?ex control' = []
     else run_control_status ?ex control' = Ok ''interrupted'' \<and> cw_run_status w' = Some ''interrupted'' \<and>
       set (run_control_active_trial_ids ?ex control') = rcat_trial_id ` set survivors \<and>
       n = length killed \<and> tried = length ids"
    using t(1) by auto
  note same = trials_same_settled [OF same]
  have open_status: "run_control_status ?ex control \<noteq> Ok ''completed''" using status open_run by simp
  show ?thesis
  proof (cases "r = Ok res")
    case True
    with result t same control(1) control' run_id open_status show ?thesis
      by (intro exI [of _ control] exI [of _ control'] exI [of _ run_id] exI [of _ ids] conjI) (simp_all add: ids_def)
  next
    case False
    with result t(3,5) same listed control(1) control' run_id open_status show ?thesis
      by (intro exI [of _ control] exI [of _ control'] exI [of _ run_id] exI [of _ ids] conjI)
        (auto simp: ids_def)
  qed
qed

section \<open>Properties\<close>

text \<open>
  C28: A kill that succeeds leaves no trial of the record behind: the record is empty, the run is \<open>killed\<close>, every
  trial that was listed is reported and its latest attempt is killed or committed, with its state file saying so
  where there is a trial directory. A kill that fails for some trials leaves the run \<open>interrupted\<close> and forgets no
  running trial: each listed trial either has a finished attempt or is still listed.
\<close>

theorem kill_run_outcome:
  assumes "pointer_laws (ex_pointer (cn_externs env))" "attempts_wf (cw_trials w)"
    and "kill_run env m w = (r, w')"
    and "r = Ok res \<or> r = Err (KillPartialFailure n tried)"
  shows "\<exists>control control' run_id ids. cw_control w = Some control \<and> cw_control w' = Some control' \<and>
    require_run_control_run_id (cn_externs env) control = Ok run_id \<and>
    run_control_status (cn_externs env) control \<noteq> Ok ''completed'' \<and>
    ids = run_control_active_trial_ids (cn_externs env) control \<and>
    (if r = Ok res
     then run_control_status (cn_externs env) control' = Ok ''killed'' \<and> cw_run_status w' = Some ''killed'' \<and>
       run_control_active_trial_ids (cn_externs env) control' = [] \<and> kr_killed_trials res = ids \<and>
       (\<forall>i \<in> set ids. settled run_id (cw_trials w') i)
     else run_control_status (cn_externs env) control' = Ok ''interrupted'' \<and> cw_run_status w' = Some ''interrupted'' \<and>
       n \<le> tried \<and> tried = length ids \<and>
       (\<forall>i \<in> set ids. finished_attempt run_id (cw_trials w') i \<or>
          i \<in> set (run_control_active_trial_ids (cn_externs env) control')))"
proof -
  obtain lease v where body: "kill_run_locked env (w\<lparr>cw_lease := lease\<rparr>) = (r, v)"
      and same: "cw_control w' = cw_control v" "cw_run_status w' = cw_run_status v" "cw_trials w' = cw_trials v"
    using with_operation_lease_frame [OF assms(3) [unfolded kill_run_def]] assms(4) by blast
  have "attempts_wf (cw_trials (w\<lparr>cw_lease := lease\<rparr>))" using assms(2) by simp
  from kill_locked_result [OF assms(1) this body assms(4)] same show ?thesis by (simp split del: if_split cong: if_cong)
qed

text \<open>One active trial with one container.\<close>

lemma sample_cleanup:
  "\<exists>t. cleanup_local_docker_attempt_runtime sample_trial_env ''run'' ''trial_1'' stored_world = (Ok 1, t)"
proof -
  have nets: "tas_ephemeral_networks sample_attempt = []" by (simp add: sample_attempt_def new_trial_attempt_state_def)
  show ?thesis
    by (simp add: cleanup_local_docker_attempt_runtime_def load_trial_attempt_container_ids_def load_trial_attempt_state_def
        trial_attempt_state_exists_def file_network_handles_def db_handles_if_needed_def docker_list_def docker_connect_def
        active_state_known_def file_call_def op_defs sample_trial_env_def stored_runtime_file sample_attempt_facts
        dedupe_handles_def push_new_def load_latest_trial_attempt_def db_call_def stored_latest
        remove_docker_container_handles_required_def remove_docker_network_handles_required_def docker_call_op_def nets)
qed

lemma sample_kill_one:
  assumes "cw_trials w = stored_world"
  shows "\<exists>w'. kill_one sample_control_env ''run'' ''trial_1'' w = (Killed, w')"
proof -
  obtain t where t: "cleanup_local_docker_attempt_runtime sample_trial_env ''run'' ''trial_1'' stored_world = (Ok 1, t)"
    using sample_cleanup by blast
  then have "trials_same stored_world t"
    using cleanup_same(1) [of stored_world stored_world sample_trial_env "''run''" "''trial_1''"] by simp
  then have latest: "latest_attempt t ''run'' ''trial_1'' = Some (attempt_record ''trial_1'' sample_attempt)"
    using stored_latest latest_attempt_cong [of t stored_world] by (simp add: trials_same_def)
  have "te_db sample_trial_env = (\<lambda>_ _. None)" "te_file sample_trial_env = (\<lambda>_ _. True)" by (simp_all add: sample_trial_env_def)
  then have "\<exists>u. mark_trial_attempt_killed sample_trial_env ''run'' ''trial_1'' t = (Ok (), u)"
    by (simp add: mark_trial_attempt_killed_def load_latest_trial_attempt_def db_call_def op_defs latest sample_persist
        attempt_record_def sample_attempt_facts)
  with t assms show ?thesis
    by (auto simp: kill_one_def sample_control_env_def obind_def write_trial_state_def file_call_def op_defs
        sample_trial_env_def)
qed

definition sample_kill_world :: control_world where
  "sample_kill_world = \<lparr>cw_lease = NoLease,
     cw_control = Some (run_control_payload ''run'' ''running'' [sample_actives ! 1] None ''t0''),
     cw_run_status = Some ''running'', cw_trials = stored_world\<rparr>"

lemma sample_kill_reads:
  assumes "control = run_control_payload ''run'' ''running'' [sample_actives ! 1] None ''t0''"
  shows "run_control_status sample_externs control = Ok ''running''"
    "require_run_control_run_id sample_externs control = Ok ''run''"
    "run_control_active_trial_ids sample_externs control = [''trial_1'']"
    "run_control_active_trials sample_externs control = Ok [stamped ''t0'' (sample_actives ! 1)]"
proof -
  note laws = sample_externs_pointer
  have d: "distinct (map rcat_trial_id [sample_actives ! 1])" by simp
  have storable: "storable_active_trial (sample_actives ! 1)" using sample_actives_storable by (simp add: sample_actives_def)
  show "run_control_status sample_externs control = Ok ''running''" by (simp add: assms payload_status [OF laws])
  show "require_run_control_run_id sample_externs control = Ok ''run''"
    by (simp add: assms require_run_control_run_id_def payload_run_id [OF laws] non_blank_def trim_def is_whitespace_def)
  note entries = payload_entries [OF laws d, of "''run''" "''running''" None "''t0''"]
  show "run_control_active_trial_ids sample_externs control = [''trial_1'']"
    unfolding assms run_control_active_trial_ids_def entries by (simp add: bt_keys_def sample_actives_def)
  show "run_control_active_trials sample_externs control = Ok [stamped ''t0'' (sample_actives ! 1)]"
    using parse_active_trials_entries [OF laws, of "[sample_actives ! 1]" "''t0''"] storable
    unfolding assms run_control_active_trials_def entries by simp
qed

theorem kill_run_outcome_witness:
  "\<exists>res w' control'. kill_run sample_control_env (moment 0 0) sample_kill_world = (Ok res, w') \<and>
     cw_control w' = Some control' \<and> cw_run_status w' = Some ''killed'' \<and> kr_killed_trials res = [''trial_1''] \<and>
     run_control_active_trial_ids sample_externs control' = [] \<and> settled ''run'' (cw_trials w') ''trial_1''"
proof -
  obtain oid lease where lease: "acquire_run_operation_lease sample_lease_env (moment 0 0) OpKill NoLease = (Ok oid, LeaseFile lease)"
    using healthy_acquire [OF sample_lease_healthy] by blast
  define control where "control = run_control_payload ''run'' ''running'' [sample_actives ! 1] None ''t0''"
  note reads = sample_kill_reads [OF control_def]
  have env: "cn_externs sample_control_env = sample_externs" "cn_lease sample_control_env = sample_lease_env"
      "cn_contract sample_control_env = (\<lambda>_. True)" "cn_db sample_control_env = (\<lambda>_. True)"
      "cn_trials sample_control_env = sample_trial_env"
    by (simp_all add: sample_control_env_def)
  define w where "w = sample_kill_world\<lparr>cw_lease := LeaseFile lease\<rparr>"
  have w: "cw_control w = Some control" "cw_trials w = stored_world"
    by (simp_all add: w_def sample_kill_world_def control_def)
  have load: "load_run_control sample_control_env w = (Ok control, w)" by (simp add: load_run_control_Ok env w)
  obtain w1 where one: "kill_one sample_control_env ''run'' ''trial_1'' w = (Killed, w1)" using sample_kill_one [OF w(2)] by blast
  have sweep: "\<exists>v. kill_sweep sample_control_env 0 w1 = (Ok 0, v)"
    by (simp add: kill_sweep_def on_trials_def env cleanup_local_docker_run_runtime_def docker_list_def docker_connect_def
        op_defs sample_trial_env_def dedupe_handles_def remove_docker_container_handles_required_def
        remove_docker_network_handles_required_def)
  then have "\<exists>res v. kill_run_locked sample_control_env w = (Ok res, v)"
    by (auto simp: kill_run_locked_def obind_def load env olift_def reads one kill_finish_def
        write_run_control_def control_db_def ensure_def omodify_def oreturn_def Let_def)
  then obtain res v where "kill_run_locked sample_control_env w = (Ok res, v)" by blast
  with lease obtain w' where run: "kill_run sample_control_env (moment 0 0) sample_kill_world = (Ok res, w')"
    by (simp add: kill_run_def with_operation_lease_def env w_def sample_kill_world_def)
  have start: "cw_control sample_kill_world = Some control" "attempts_wf (cw_trials sample_kill_world)"
    using stored_world_wf by (simp_all add: sample_kill_world_def control_def)
  obtain control' where "cw_control w' = Some control'" "cw_run_status w' = Some ''killed''"
      "run_control_active_trial_ids sample_externs control' = []" "kr_killed_trials res = [''trial_1'']"
      "settled ''run'' (cw_trials w') ''trial_1''"
    using kill_run_outcome [OF _ start(2) run disjI1 [OF refl], unfolded env, OF sample_externs_pointer] start(1)
    by (auto simp: reads)
  with run show ?thesis by (intro exI [of _ res] exI [of _ w'] exI [of _ control']) simp
qed

end
