(* ===== verification/Engine_Stop.thy ===== *)
theory Engine_Stop
  imports Engine_Properties Run_Kill
begin

text \<open>
  How the schedule engine stops: what its shutdown does with the trials still in flight, and what becomes of
  completions and requests that the coordinator has not seen, or has seen fail, when it leaves its loop.
\<close>

abbreviation engine_slots :: "engine \<Rightarrow> slot_key \<rightharpoonup> schedule_slot_record" where
  "engine_slots w \<equiv> st_slots (cms_store (en_commit w))"

section \<open>Shutdown\<close>

text \<open>Slots of the given indices may have been released; nothing else of the engine has changed but the store.\<close>

definition released_only :: "string \<Rightarrow> nat set \<Rightarrow> engine \<Rightarrow> engine \<Rightarrow> bool" where
  "released_only run_id idxs w w' \<longleftrightarrow>
     en_control w' = en_control w \<and> en_requested w' = en_requested w \<and> en_broker w' = en_broker w \<and>
     (\<forall>k. engine_slots w' k = engine_slots w k \<or>
        k \<in> Pair run_id ` idxs \<and>
        (\<exists>r. engine_slots w k = Some r \<and> ssr_state r \<noteq> SlotCommitted \<and> engine_slots w' k = Some (released_slot r)))"

lemma released_onlyD:
  assumes "released_only run_id idxs w w'"
  shows "en_control w' = en_control w" "en_requested w' = en_requested w" "en_broker w' = en_broker w"
    "k \<notin> Pair run_id ` idxs \<Longrightarrow> engine_slots w' k = engine_slots w k"
    "engine_slots w' k = Some r \<Longrightarrow> ssr_state r = SlotActive \<Longrightarrow> engine_slots w k = Some r"
proof -
  have k: "engine_slots w' k = engine_slots w k \<or> k \<in> Pair run_id ` idxs \<and>
      (\<exists>r. engine_slots w k = Some r \<and> ssr_state r \<noteq> SlotCommitted \<and> engine_slots w' k = Some (released_slot r))"
    using assms unfolding released_only_def by blast
  then show "k \<notin> Pair run_id ` idxs \<Longrightarrow> engine_slots w' k = engine_slots w k" by blast
  from k show "engine_slots w' k = Some r \<Longrightarrow> ssr_state r = SlotActive \<Longrightarrow> engine_slots w k = Some r"
    by (auto simp: released_slot_def)
qed (use assms in \<open>simp_all add: released_only_def\<close>)

lemma released_only_trans:
  assumes "released_only run_id is u v" "released_only run_id js v w"
  shows "released_only run_id (is \<union> js) u w"
proof -
  have "engine_slots w k = engine_slots u k \<or> k \<in> Pair run_id ` (is \<union> js) \<and>
      (\<exists>r. engine_slots u k = Some r \<and> ssr_state r \<noteq> SlotCommitted \<and> engine_slots w k = Some (released_slot r))" for k
  proof -
    have 1: "engine_slots v k = engine_slots u k \<or> k \<in> Pair run_id ` is \<and>
        (\<exists>r. engine_slots u k = Some r \<and> ssr_state r \<noteq> SlotCommitted \<and> engine_slots v k = Some (released_slot r))"
      and 2: "engine_slots w k = engine_slots v k \<or> k \<in> Pair run_id ` js \<and>
        (\<exists>r. engine_slots v k = Some r \<and> ssr_state r \<noteq> SlotCommitted \<and> engine_slots w k = Some (released_slot r))"
      using assms unfolding released_only_def by blast+
    from 1 show ?thesis
    proof
      assume "engine_slots v k = engine_slots u k"
      with 2 show ?thesis by force
    next
      assume "k \<in> Pair run_id ` is \<and>
        (\<exists>r. engine_slots u k = Some r \<and> ssr_state r \<noteq> SlotCommitted \<and> engine_slots v k = Some (released_slot r))"
      with 2 show ?thesis by (auto simp: released_slot_idem)
    qed
  qed
  with assms show ?thesis by (simp add: released_only_def)
qed

lemma release_slot:
  assumes "on_engine_store (release_schedule_slot_to_pending io run_id i) w = (r, w')"
  shows "released_only run_id {i} w w'"
    "r = Ok () \<Longrightarrow> engine_slots w' (run_id, i) = Some s \<Longrightarrow> ssr_state s \<noteq> SlotActive"
proof -
  obtain st where st: "release_schedule_slot_to_pending io run_id i (cms_store (en_commit w)) = (fst (release_schedule_slot_to_pending io run_id i (cms_store (en_commit w))), st)"
    and w': "w' = w\<lparr>en_commit := (en_commit w)\<lparr>cms_store := st\<rparr>\<rparr>"
    using assms by (auto simp: on_engine_store_def split: prod.splits)
  from release_schedule_slot_to_pending_outcome [OF st] show "released_only run_id {i} w w'"
    by (auto simp: released_only_def w' split: if_splits)
  show "ssr_state s \<noteq> SlotActive" if "r = Ok ()" "engine_slots w' (run_id, i) = Some s"
    using assms that
    by (cases "engine_slots w (run_id, i)")
      (auto simp: on_engine_store_def release_schedule_slot_to_pending_def store_op_simps as_i64_def modify_slots_def
        released_slot_def map_err_def split: if_splits prod.splits sum.splits)
qed

lemma release_each:
  assumes "try_each ds (\<lambda>(_, d). on_engine_store (release_schedule_slot_to_pending io run_id (ifd_schedule_idx d))) w = (ok, w')"
  shows "released_only run_id (ifd_schedule_idx ` snd ` set ds) w w' \<and>
    (ok \<longrightarrow> (\<forall>(t, d) \<in> set ds. \<forall>s. engine_slots w' (run_id, ifd_schedule_idx d) = Some s \<longrightarrow> ssr_state s \<noteq> SlotActive))"
  using assms
proof (induction ds arbitrary: w ok w')
  case Nil
  then show ?case by (simp add: released_only_def)
next
  case (Cons x ds)
  obtain t d where x: "x = (t, d)" by (cases x)
  obtain r v where 1: "on_engine_store (release_schedule_slot_to_pending io run_id (ifd_schedule_idx d)) w = (r, v)"
    by (cases "on_engine_store (release_schedule_slot_to_pending io run_id (ifd_schedule_idx d)) w")
  obtain ok' where 2: "try_each ds (\<lambda>(_, d). on_engine_store (release_schedule_slot_to_pending io run_id (ifd_schedule_idx d))) v = (ok', w')"
    and ok: "ok = (is_ok r \<and> ok')"
    using Cons.prems by (auto simp: x 1 split: prod.splits)
  note IH = Cons.IH [OF 2]
  have "released_only run_id (ifd_schedule_idx ` snd ` set (x # ds)) w w'"
    using released_only_trans [OF release_slot(1) [OF 1] IH [THEN conjunct1]] by (simp add: x)
  moreover have "ssr_state s \<noteq> SlotActive"
    if "ok" "engine_slots w' (run_id, ifd_schedule_idx d) = Some s" for s
  proof
    assume "ssr_state s = SlotActive"
    with released_onlyD(5) [OF IH [THEN conjunct1] that(2)] have "engine_slots v (run_id, ifd_schedule_idx d) = Some s" by simp
    moreover have "r = Ok ()" using that(1) ok by (cases r) (simp_all add: is_ok_def)
    ultimately show False using release_slot(2) [OF 1] \<open>ssr_state s = SlotActive\<close> by simp
  qed
  ultimately show ?case using IH ok by (auto simp: x)
qed

lemma cleanup_each:
  assumes "try_each ds (\<lambda>(_, d). on_engine_trials (f d)) w = (ok, w')"
  shows "en_commit w' = en_commit w \<and> en_requested w' = en_requested w \<and> en_broker w' = en_broker w \<and>
    cw_control (en_control w') = cw_control (en_control w)"
  using assms by (induction ds arbitrary: w ok w') (force simp: on_engine_trials_def split: prod.splits)+

text \<open>The whole of a shutdown with trials in flight.\<close>

lemma shutdown_in_flight_outcome:
  assumes "shutdown_in_flight cfg io in_flight w = (ok, w')"
  shows "(\<forall>k. k \<notin> Pair (ec_run_id cfg) ` ifd_schedule_idx ` snd ` set in_flight \<longrightarrow> engine_slots w' k = engine_slots w k) \<and>
    en_broker w' = en_broker w \<and>
    (ok \<longrightarrow> (\<forall>(t, d) \<in> set in_flight. \<forall>s. engine_slots w' (ec_run_id cfg, ifd_schedule_idx d) = Some s \<longrightarrow>
        ssr_state s \<noteq> SlotActive) \<and>
      cw_control (en_control w') = Some (run_control_payload (ec_run_id cfg) (schedule_engine_status (en_requested w)) [] None
        (cn_now (ei_control io))))"
proof -
  obtain cleaned v where 1: "cleanup_in_flight_trial_containers cfg io in_flight w = (cleaned, v)"
    by (cases "cleanup_in_flight_trial_containers cfg io in_flight w")
  obtain released u where 2: "try_each in_flight (\<lambda>(_, dispatch). on_engine_store
      (release_schedule_slot_to_pending (ei_db io) (ec_run_id cfg) (ifd_schedule_idx dispatch))) v = (released, u)"
    by (cases "try_each in_flight (\<lambda>(_, dispatch). on_engine_store
      (release_schedule_slot_to_pending (ei_db io) (ec_run_id cfg) (ifd_schedule_idx dispatch))) v")
  let ?record_status = "write_run_control (ei_control io) (ec_run_id cfg) (schedule_engine_status (en_requested u)) [] None"
  obtain r c where 3: "?record_status (en_control u) = (r, c)" by (cases "?record_status (en_control u)")
  have w': "w' = u\<lparr>en_control := c\<rparr>" and ok: "ok = (cleaned \<and> released \<and> is_ok (map_err EngControl r))"
    using assms 1 2 3 by (simp_all add: shutdown_in_flight_def on_engine_control_def)
  note c = cleanup_each [OF 1 [unfolded cleanup_in_flight_trial_containers_def]]
  note r = release_each [OF 2]
  have "cw_control c = Some (run_control_payload (ec_run_id cfg) (schedule_engine_status (en_requested u)) [] None
      (cn_now (ei_control io)))" if "ok"
  proof -
    have "r = Ok ()" using that ok by (cases r) (simp_all add: map_err_def)
    from write_run_control_Ok [OF 3 [unfolded this]] show ?thesis by simp
  qed
  moreover note only = released_onlyD [OF conjunct1 [OF r]]
  have "engine_slots u k = engine_slots w k" if "k \<notin> Pair (ec_run_id cfg) ` ifd_schedule_idx ` snd ` set in_flight" for k
    using only(4) [OF that] c by simp
  moreover have "en_broker u = en_broker w" "en_requested u = en_requested w" using only(2,3) c by simp_all
  moreover have "ok \<longrightarrow> (\<forall>(t, d) \<in> set in_flight. \<forall>s. engine_slots u (ec_run_id cfg, ifd_schedule_idx d) = Some s \<longrightarrow>
      ssr_state s \<noteq> SlotActive)"
    using conjunct2 [OF r] ok by (cases released) simp_all
  ultimately show ?thesis unfolding w' by simp
qed

text \<open>Every event but a worker's exit ends with the status being written.\<close>

lemma write_status_Ok:
  assumes "write_status cfg io w = (Ok (), w')"
  shows "\<exists>actives. cw_control (en_control w') = Some (run_control_payload (ec_run_id cfg)
    (schedule_engine_status (en_requested w')) actives None (cn_now (ei_control io)))"
proof -
  obtain r c where rc: "write_run_control (ei_control io) (ec_run_id cfg) (schedule_engine_status (en_requested w))
      (active_trials w) None (en_control w) = (r, c)"
    by (cases "write_run_control (ei_control io) (ec_run_id cfg) (schedule_engine_status (en_requested w))
      (active_trials w) None (en_control w)")
  with assms have "r = Ok ()" "w' = w\<lparr>en_control := c\<rparr>"
    by (simp_all add: write_status_def write_engine_control_def obind_def oget_def on_engine_control_def map_err_eq_Inr)
  with write_run_control_Ok rc show ?thesis by fastforce
qed

lemma handle_event_writes_status:
  assumes "handle_event cfg io ev w = (Ok (), w')" "\<not> is_exited ev"
  shows "\<exists>actives. cw_control (en_control w') = Some (run_control_payload (ec_run_id cfg)
    (schedule_engine_status (en_requested w')) actives None (cn_now (ei_control io)))"
  using assms
  by (cases ev) (auto simp: handle_claimed_def handle_skipped_def handle_completed_def obind_eq_Ok ofail_def dest!: write_status_Ok)

text \<open>A slot that is active in the store is blocked for an engine that starts on it.\<close>

lemma start_broker_blocks:
  assumes "start_broker cfg v = (Ok (), v')" "i < length (ec_schedule cfg)" "i \<notin> dc_committed_schedules (en_committer v)"
    and "i \<notin> set (bt_keys (dc_pending_by_schedule (en_committer v)))"
    and "engine_slots v (ec_run_id cfg, i) = Some s" "ssr_state s = SlotActive"
  shows "bs_slot_states (en_broker v') ! i = BBlockedActive"
proof -
  obtain ss where ss: "restore_slot_states (cms_store (en_commit v)) (ec_run_id cfg) (engine_recovery v) [0..<length (ec_schedule cfg)] = Ok ss"
    "bs_slot_states (en_broker v') = ss"
    using assms(1) by (auto simp: start_broker_def broker_new_def result_iffs split: sum.splits)
  from restore_slot_states_nth [OF ss(1), of i] assms(2-6) show ?thesis
    by (simp add: ss(2) restore_slot_state_def engine_recovery_def schedule_slot_def)
qed

section \<open>Properties\<close>


definition sample_dispatch :: in_flight_dispatch where
  "sample_dispatch = \<lparr>ifd_schedule_idx = 0, ifd_trial_id = ''trial_1'', ifd_variant_idx = 0, ifd_variant_id = ''v'',
     ifd_worker_id = ''bucephalus-worker-1'', ifd_started_at = ''t0''\<rparr>"

text \<open>An engine that was interrupted with one trial in flight.\<close>

definition sample_interrupted :: engine where
  "sample_interrupted = sample_engine_world
     \<lparr>en_broker := sample_broker0\<lparr>bs_slot_states := [BActive], bs_in_flight := [(''trial_1'', sample_dispatch)]\<rparr>,
      en_control := (en_control sample_engine_world)\<lparr>cw_trials := stored_world\<rparr>,
      en_requested := Some EngInterrupted, en_phase := Returned (Ok EngInterrupted)\<rparr>"

lemma sample_shutdown:
  "en_phase (coordinator_step sample_engine_config sample_engine_io sample_interrupted) = ShutDown (Ok EngInterrupted)"
proof -
  obtain t where "cleanup_local_docker_attempt_runtime sample_trial_env ''run'' ''trial_1'' stored_world = (Ok 1, t)"
    using sample_cleanup by blast
  then show ?thesis
    by (simp add: coordinator_step_def sample_interrupted_def engine_shutdown_def Let_def sample_broker0_def stop_accepting_def
        shutdown_in_flight_def cleanup_in_flight_trial_containers_def on_engine_trials_def sample_dispatch_def
        sample_control_env_def on_engine_store_def release_schedule_slot_to_pending_def store_op_simps as_i64_def
        on_engine_control_def write_run_control_def control_db_def ensure_def op_defs map_err_def)
qed


text \<open>
  C4: When a worker reports that the execution of its trial failed, the engine stops with that error and its shutdown
  does not touch the slot of the trial: the slot stays active in the store, and the next engine on that store, unless
  its committer knows a completion of the slot, blocks it and never runs it.
\<close>

theorem failed_trial_blocks_slot:
  assumes "en_phase w = AtPoll" "en_events w = EvCompleted completion # rest" "ltc_result completion = Err detail"
    and "i = ltc_schedule_idx completion" "i < length (ec_schedule cfg)"
    and "ts_variant_idx (ec_schedule cfg ! i) < length (sb_variants (ec_broker cfg))"
    and "i \<notin> ifd_schedule_idx ` snd ` set (bs_in_flight (en_broker w))"
    and "engine_slots w (ec_run_id cfg, i) = Some s" "ssr_state s = SlotActive"
    and "w' = coordinator_step cfg io' (coordinator_step cfg io w)"
    and "cms_store (en_commit v) = cms_store (en_commit w')" "i \<notin> dc_committed_schedules (en_committer v)"
    and "i \<notin> set (bt_keys (dc_pending_by_schedule (en_committer v)))" "start_broker cfg v = (Ok (), v')"
  shows "(\<exists>e. en_phase w' = ShutDown (Err e) \<and>
      e \<in> {TrialFailed (ltc_trial_id completion) i detail, ShutdownCleanup (Some (TrialFailed (ltc_trial_id completion) i detail))}) \<and>
    engine_slots w' (ec_run_id cfg, i) = Some s \<and> bs_slot_states (en_broker v') ! i = BBlockedActive"
proof -
  let ?e = "TrialFailed (ltc_trial_id completion) i detail"
  let ?w = "w\<lparr>en_events := rest, en_phase := Returned (Err ?e)\<rparr>"
  have "check_completion cfg completion = Err ?e"
    using assms(3-6) by (simp add: check_completion_def schedule_get_def Let_def)
  then have 1: "coordinator_step cfg io w = ?w"
    using assms(1,2) by (simp add: coordinator_step_def engine_poll_def handle_completed_def obind_def oget_def omodify_def olift_def)
  let ?u = "?w\<lparr>en_broker := stop_accepting (en_broker w)\<rparr>"
  have flying: "bs_in_flight (stop_accepting (en_broker w)) = bs_in_flight (en_broker w)" by (simp add: stop_accepting_def)
  obtain ok u where u: "(if bs_in_flight (en_broker w) = [] then (True, ?u)
      else shutdown_in_flight cfg io' (bs_in_flight (en_broker w)) ?u) = (ok, u)"
    by (cases "if bs_in_flight (en_broker w) = [] then (True, ?u) else shutdown_in_flight cfg io' (bs_in_flight (en_broker w)) ?u")
  have w': "w' = u\<lparr>en_phase := ShutDown (if ok then Err ?e else Err (ShutdownCleanup (Some ?e)))\<rparr>"
    unfolding assms(10) 1 using u
    by (cases "bs_in_flight (en_broker w) = []") (auto simp: coordinator_step_def engine_shutdown_def Let_def flying)
  have "(ec_run_id cfg, i) \<notin> Pair (ec_run_id cfg) ` ifd_schedule_idx ` snd ` set (bs_in_flight (en_broker w))" using assms(7) by blast
  then have "engine_slots u (ec_run_id cfg, i) = engine_slots w (ec_run_id cfg, i)"
    using u shutdown_in_flight_outcome [of cfg io' "bs_in_flight (en_broker w)" ?u ok u] by (auto split: if_splits)
  then have slot: "engine_slots w' (ec_run_id cfg, i) = Some s" by (simp add: w' assms(8))
  then have "engine_slots v (ec_run_id cfg, i) = Some s" by (simp add: assms(11))
  from start_broker_blocks [OF assms(14,5,12,13) this assms(9)] slot show ?thesis by (simp add: w')
qed

definition sample_failed :: engine where
  "sample_failed = sample_engine_world
     \<lparr>en_broker := sample_broker0\<lparr>bs_slot_states := [BCompletedPendingCommit]\<rparr>,
      en_events := [EvCompleted \<lparr>ltc_worker_id = ''w1'', ltc_trial_id = ''trial_1'', ltc_schedule_idx = 0,
        ltc_result = Err ''image pull failed''\<rparr>],
      en_phase := AtPoll\<rparr>"

theorem failed_trial_blocks_slot_witness:
  "\<exists>w' v'. w' = coordinator_step sample_engine_config sample_engine_io
       (coordinator_step sample_engine_config sample_engine_io sample_failed) \<and>
     start_broker sample_engine_config w' = (Ok (), v') \<and>
     engine_slots w' (''run'', 0) = Some sample_claimed \<and> bs_slot_states (en_broker v') ! 0 = BBlockedActive"
proof -
  let ?cfg = sample_engine_config and ?io = sample_engine_io
  have step: "coordinator_step ?cfg ?io sample_failed = sample_failed\<lparr>en_events := [],
      en_phase := Returned (Err (TrialFailed ''trial_1'' 0 ''image pull failed''))\<rparr>"
    by (simp add: coordinator_step_def sample_failed_def engine_poll_def handle_completed_def check_completion_def Let_def
        schedule_get_def sample_slots_def obind_def oget_def omodify_def olift_def sample_engine_config_def)
  define w' where "w' = coordinator_step ?cfg ?io (coordinator_step ?cfg ?io sample_failed)"
  have w': "en_commit w' = en_commit sample_engine_world" "en_committer w' = sample_committer"
    unfolding w'_def step
    by (simp_all add: coordinator_step_def engine_shutdown_def sample_failed_def stop_accepting_def sample_broker0_def
        sample_engine_world_def Let_def)
  have slot: "st_slots (cms_store (en_commit sample_engine_world)) (''run'', 0) = Some sample_claimed"
      "ssr_state sample_claimed = SlotActive"
    by (simp_all add: sample_engine_world_def sample_store1_slots sample_claimed_def claimed_slot_def)
  have committer: "dc_committed_schedules sample_committer = {}" "dc_pending_by_schedule sample_committer = []"
    by (simp_all add: sample_committer_fields)
  obtain v' where start: "start_broker ?cfg w' = (Ok (), v')"
    using slot committer
    by (simp add: start_broker_def broker_new_def sample_slots_def restore_slot_state_def engine_recovery_def w' schedule_slot_def
        bt_keys_def)
  have failed: "en_phase sample_failed = AtPoll" "bs_in_flight (en_broker sample_failed) = []"
      "en_commit sample_failed = en_commit sample_engine_world"
    and events: "en_events sample_failed = EvCompleted \<lparr>ltc_worker_id = ''w1'', ltc_trial_id = ''trial_1'', ltc_schedule_idx = 0,
        ltc_result = Err ''image pull failed''\<rparr> # []"
    by (simp_all add: sample_failed_def sample_broker0_def)
  have cfg: "length (sb_variants (ec_broker ?cfg)) = 1" by (simp add: sample_engine_config_def)
  have "engine_slots w' (ec_run_id ?cfg, 0) = Some sample_claimed \<and> bs_slot_states (en_broker v') ! 0 = BBlockedActive"
    by (rule failed_trial_blocks_slot [OF failed(1) events _ _ _ _ _ _ slot(2) w'_def refl _ _ start, THEN conjunct2])
      (simp_all add: cfg sample_slots_def failed w' committer slot bt_keys_def)
  with start show ?thesis by (intro exI [of _ w'] exI [of _ v']) (simp add: w'_def)
qed

text \<open>
  A coordinator that has not taken note of a request and handles an event of a worker writes the control record as
  that of a running engine, whatever another process has written there since the last look: a pause or kill that
  arrives between the look and the event is overwritten.
\<close>

lemma event_overwrites_control:
  assumes "en_phase w = AtPoll" "en_requested w = None" "en_events w = ev # rest" "\<not> is_exited ev"
    and "w' = coordinator_step cfg io (w\<lparr>en_control := c\<rparr>)" "en_phase w' = AtTop"
  shows "\<exists>actives. cw_control (en_control w') =
    Some (run_control_payload (ec_run_id cfg) ''running'' actives None (cn_now (ei_control io)))"
proof -
  let ?w = "w\<lparr>en_control := c\<rparr>"
  obtain r v where poll: "engine_poll cfg io ?w = (r, v)" by (cases "engine_poll cfg io ?w")
  with assms(1,5,6) have v: "r = Ok ()" "w' = v\<lparr>en_phase := AtTop\<rparr>"
    by (auto simp: coordinator_step_def split: sum.splits)
  have "handle_event cfg io ev (?w\<lparr>en_events := rest\<rparr>) = (Ok (), v)"
    using poll assms(3) by (simp add: v(1) engine_poll_def obind_def oget_def omodify_def)
  from handle_event_writes_status [OF this assms(4)] poll_requested [of cfg io ?w] poll assms(2) show ?thesis by (simp add: v(2))
qed

text \<open>
  A coordinator that finds the run paused or killed while nothing is in flight and nothing awaits its commit stops
  at once: events still in the channel, completions of trials that ended a moment ago among them, are never handled, and
  store, progress and control record stay as they are.
\<close>

lemma stop_request_drops_events:
  assumes "en_phase w = AtTop" "\<not> ei_interrupted io" "ei_disk_ok io" "ei_size_ok io" "cn_db (ei_control io) ControlRead"
    and "cw_control (en_control w) = Some control"
    and "run_control_status (cn_externs (ei_control io)) control = Ok status" "status \<in> {''paused'', ''killed''}"
    and "bs_in_flight (en_broker w) = []" "\<not> has_pending (en_committer w)"
    and "w' = coordinator_step cfg io' (coordinator_step cfg io w)"
  shows "en_phase w' = ShutDown (Ok (if status = ''paused'' then EngPaused else EngKilled)) \<and>
    en_events w' = en_events w \<and> en_commit w' = en_commit w \<and> en_control w' = en_control w"
proof -
  let ?outcome = "if status = ''paused'' then EngPaused else EngKilled"
  have "load_run_control (ei_control io) (en_control w) = (Ok control, en_control w)"
    using assms(5,6) by (simp add: load_run_control_Ok)
  then have "on_engine_control (load_external_schedule_outcome_request (ei_control io)) w = (Ok (Some ?outcome), w)"
    using assms(7,8)
    by (auto simp: on_engine_control_def load_external_schedule_outcome_request_def obind_def olift_def oreturn_def map_err_def)
  then have "engine_top cfg io w = (Ok (ReturnOutcome ?outcome), request_outcome ?outcome w)"
    using assms(2-4,9,10)
    by (simp add: engine_top_def obind_def omodify_def oget_def olift_def ensure_def decide_flow_def request_outcome_def
        stop_accepting_def)
  then have "coordinator_step cfg io w = (request_outcome ?outcome w)\<lparr>en_phase := Returned (Ok ?outcome)\<rparr>"
    by (simp add: coordinator_step_def assms(1))
  then show ?thesis
    using assms(9) by (simp add: assms(11) coordinator_step_def [of cfg io'] engine_shutdown_def request_outcome_def stop_accepting_def)
qed

end
