(* ===== verification/Command_Text.thy ===== *)
theory Command_Text
  imports Json
begin

text \<open>
  Texts the user types: quoting for a shell and names of files (\<open>lab-runner/src/util.rs\<close>), splitting of
  agent commands, selectors of checkpoints and \<open>--set\<close> keys (\<open>experiment/runner.rs\<close>), and the writing of
  a JSON value through a pointer (\<open>config.rs\<close>).
\<close>

section \<open>Quoting and tokens\<close>

definition is_ascii_alphanumeric :: "char \<Rightarrow> bool" where
  "is_ascii_alphanumeric c \<longleftrightarrow>
     (let n = (of_char c :: nat) in 48 \<le> n \<and> n \<le> 57 \<or> 65 \<le> n \<and> n \<le> 90 \<or> 97 \<le> n \<and> n \<le> 122)"

definition single_quote :: char where
  "single_quote = CHR 0x27"

definition double_quote :: char where
  "double_quote = CHR 0x22"

definition backslash :: char where
  "backslash = CHR 0x5C"

definition quote_char :: "char \<Rightarrow> string" where
  "quote_char c =
     (if c = single_quote then [single_quote, double_quote, single_quote, double_quote, single_quote] else [c])"

definition shell_quote :: "string \<Rightarrow> string" where
  "shell_quote s =
     (if s = [] then [single_quote, single_quote]
      else if list_all (\<lambda>c. is_ascii_alphanumeric c \<or> c \<in> set ''-_./:'') s then s
      else single_quote # concat (map quote_char s) @ [single_quote])"

definition sanitize_for_fs :: "string \<Rightarrow> string" where
  "sanitize_for_fs raw =
     (let out = map (\<lambda>ch. if is_ascii_alphanumeric ch \<or> ch = CHR ''-'' \<or> ch = CHR ''_'' then ch else CHR ''_'') raw
      in if out = [] then ''chain'' else out)"

datatype command_error = UnclosedQuote | EmptyCommand

record tokenizer =
  tk_tokens :: "string list"
  tk_current :: string
  tk_in_single :: bool
  tk_in_double :: bool
  tk_escaped :: bool

definition tokenize_char :: "tokenizer \<Rightarrow> char \<Rightarrow> tokenizer" where
  "tokenize_char s ch =
     (if tk_escaped s then s\<lparr>tk_current := tk_current s @ [ch], tk_escaped := False\<rparr>
      else if tk_in_single s then
        (if ch = single_quote then s\<lparr>tk_in_single := False\<rparr> else s\<lparr>tk_current := tk_current s @ [ch]\<rparr>)
      else if tk_in_double s then
        (if ch = double_quote then s\<lparr>tk_in_double := False\<rparr>
         else if ch = backslash then s\<lparr>tk_escaped := True\<rparr>
         else s\<lparr>tk_current := tk_current s @ [ch]\<rparr>)
      else if ch = backslash then s\<lparr>tk_escaped := True\<rparr>
      else if ch = single_quote then s\<lparr>tk_in_single := True\<rparr>
      else if ch = double_quote then s\<lparr>tk_in_double := True\<rparr>
      else if is_whitespace ch then
        (if tk_current s \<noteq> [] then s\<lparr>tk_tokens := tk_tokens s @ [tk_current s], tk_current := []\<rparr> else s)
      else s\<lparr>tk_current := tk_current s @ [ch]\<rparr>)"

definition tokenize_command_string :: "string \<Rightarrow> (command_error, string list) result" where
  "tokenize_command_string raw =
     (let s = foldl tokenize_char
            \<lparr>tk_tokens = [], tk_current = [], tk_in_single = False, tk_in_double = False, tk_escaped = False\<rparr> raw
      in if tk_escaped s \<or> tk_in_single s \<or> tk_in_double s then Err UnclosedQuote
         else
           let tokens = (if tk_current s \<noteq> [] then tk_tokens s @ [tk_current s] else tk_tokens s)
           in if tokens = [] then Err EmptyCommand else Ok tokens)"

section \<open>Fork selectors\<close>

datatype ForkSelector = Checkpoint string | Step nat | EventSeq nat

datatype selector_error = SelectorShape | CheckpointNameEmpty | StepNotInteger | EventSeqNotInteger | SelectorKind string

definition split_once :: "char \<Rightarrow> string \<Rightarrow> (string \<times> string) option" where
  "split_once sep s =
     (case dropWhile (\<lambda>c. c \<noteq> sep) s of [] \<Rightarrow> None | _ # rest \<Rightarrow> Some (takeWhile (\<lambda>c. c \<noteq> sep) s, rest))"

definition parse_fork_selector :: "string \<Rightarrow> (selector_error, ForkSelector) result" where
  "parse_fork_selector selector =
     rbind (ok_or SelectorShape (split_once (CHR '':'') selector)) (\<lambda>(kind, value).
     if kind = ''checkpoint'' then
       (if trim value = [] then Err CheckpointNameEmpty else Ok (Checkpoint value))
     else if kind = ''step'' then rbind (ok_or StepNotInteger (parse_u64 value)) (\<lambda>n. Ok (Step n))
     else if kind = ''event_seq'' then rbind (ok_or EventSeqNotInteger (parse_u64 value)) (\<lambda>n. Ok (EventSeq n))
     else Err (SelectorKind kind))"

section \<open>Pointers\<close>

datatype pointer_error =
    EmptySegment string
  | BlankAroundSegment string
  | PointerStart string
  | InvalidArrayIndex string
  | ArrayIndexOutOfBounds nat
  | NonContainer string
  | NonContainerTarget
  | BindingsNotObject
  | UndeclaredField string

text \<open>\<open>segment.replace('~', "~0").replace('/', "~1")\<close> and, for reading, the two replacements of a pair of
  characters, from left to right.\<close>

definition replace_char :: "char \<Rightarrow> string \<Rightarrow> string \<Rightarrow> string" where
  "replace_char c by s = concat (map (\<lambda>d. if d = c then by else [d]) s)"

fun replace_pair :: "char \<Rightarrow> char \<Rightarrow> char \<Rightarrow> string \<Rightarrow> string" where
  "replace_pair a b c (x # y # s) = (if x = a \<and> y = b then c # replace_pair a b c s else x # replace_pair a b c (y # s))"
| "replace_pair a b c s = s"

definition encode_pointer_token :: "string \<Rightarrow> string" where
  "encode_pointer_token segment = replace_char (CHR ''/'') ''~1'' (replace_char (CHR ''~'') ''~0'' segment)"

definition decode_pointer_token :: "string \<Rightarrow> string" where
  "decode_pointer_token token =
     replace_pair (CHR ''~'') (CHR ''0'') (CHR ''~'') (replace_pair (CHR ''~'') (CHR ''1'') (CHR ''/'') token)"

fun check_segments :: "string \<Rightarrow> string list \<Rightarrow> (pointer_error, string list) result" where
  "check_segments key [] = Ok []"
| "check_segments key (segment # segments) =
     (if trim segment = [] then Err (EmptySegment key)
      else if trim segment \<noteq> segment then Err (BlankAroundSegment key)
      else rbind (check_segments key segments) (\<lambda>tokens. Ok (encode_pointer_token segment # tokens)))"

definition set_binding_key_json_pointer :: "string \<Rightarrow> (pointer_error, string) result" where
  "set_binding_key_json_pointer key =
     (if trim key = [] then Err (EmptySegment key)
      else rbind (check_segments key (split_on (CHR ''.'') key)) (\<lambda>tokens.
           Ok (concat (map (\<lambda>t. CHR ''/'' # t) tokens))))"

text \<open>
  The walk to the last token and the write there. Objects get a missing entry as an empty object on the
  way; on an error the callers drop the value.
\<close>

fun set_tokens :: "string list \<Rightarrow> json \<Rightarrow> json \<Rightarrow> (pointer_error, json) result" where
  "set_tokens [] new_value cur = Ok new_value"
| "set_tokens (token # tokens) new_value (JObject m) =
     rbind (set_tokens tokens new_value (case bt_get m token of None \<Rightarrow> JObject [] | Some entry \<Rightarrow> entry))
       (\<lambda>child. Ok (JObject (bt_insert token child m)))"
| "set_tokens (token # tokens) new_value (JArray arr) =
     rbind (ok_or (InvalidArrayIndex token) (parse_u64 token)) (\<lambda>idx.
     if idx \<ge> length arr then Err (ArrayIndexOutOfBounds idx)
     else rbind (set_tokens tokens new_value (arr ! idx)) (\<lambda>child. Ok (JArray (arr[idx := child]))))"
| "set_tokens (token # tokens) new_value cur =
     Err (if tokens = [] then NonContainerTarget else NonContainer token)"

definition set_json_pointer_value :: "json \<Rightarrow> string \<Rightarrow> json \<Rightarrow> (pointer_error, json) result" where
  "set_json_pointer_value root pointer new_value =
     (if pointer = [] \<or> pointer = ''/'' then Ok new_value
      else if hd pointer \<noteq> CHR ''/'' then Err (PointerStart pointer)
      else set_tokens (map decode_pointer_token (tl (split_on (CHR ''/'') pointer))) new_value root)"

fun apply_overrides :: "json_pointer \<Rightarrow> (string \<times> json) list \<Rightarrow> json \<Rightarrow> (pointer_error, json) result" where
  "apply_overrides pointer [] bindings = Ok bindings"
| "apply_overrides pointer ((key, value) # rest) bindings =
     rbind (set_binding_key_json_pointer key) (\<lambda>ptr.
     if pointer bindings ptr = None then Err (UndeclaredField key)
     else rbind (set_json_pointer_value bindings ptr value) (apply_overrides pointer rest))"

definition apply_variant_binding_overrides ::
  "json_pointer \<Rightarrow> (string, json) btree \<Rightarrow> json \<Rightarrow> (pointer_error, json) result" where
  "apply_variant_binding_overrides pointer set_bindings bindings =
     (if set_bindings = [] then Ok bindings
      else if as_object bindings = None then Err BindingsNotObject
      else apply_overrides pointer set_bindings bindings)"

section \<open>Lemmas\<close>

definition plain_state :: "string list \<Rightarrow> string \<Rightarrow> tokenizer" where
  "plain_state tokens current =
     \<lparr>tk_tokens = tokens, tk_current = current, tk_in_single = False, tk_in_double = False, tk_escaped = False\<rparr>"

lemma quote_chars [simp]:
  "single_quote \<noteq> double_quote" "double_quote \<noteq> single_quote" "single_quote \<noteq> backslash" "double_quote \<noteq> backslash"
  "\<not> is_whitespace single_quote" "\<not> is_whitespace double_quote"
  by (simp_all add: single_quote_def double_quote_def backslash_def is_whitespace_def)

lemma foldl_in_single:
  "foldl tokenize_char \<lparr>tk_tokens = ts, tk_current = cur, tk_in_single = True, tk_in_double = False, tk_escaped = False\<rparr>
     (concat (map quote_char s)) =
   \<lparr>tk_tokens = ts, tk_current = cur @ s, tk_in_single = True, tk_in_double = False, tk_escaped = False\<rparr>"
  by (induction s arbitrary: cur) (simp_all add: quote_char_def tokenize_char_def)

lemma safe_char:
  assumes "is_ascii_alphanumeric c \<or> c \<in> set ''-_./:''"
  shows "tokenize_char (plain_state ts cur) c = plain_state ts (cur @ [c])"
  using assms
  by (auto simp: tokenize_char_def plain_state_def is_ascii_alphanumeric_def is_whitespace_def single_quote_def
      double_quote_def backslash_def Let_def)

lemma foldl_safe:
  "list_all (\<lambda>c. is_ascii_alphanumeric c \<or> c \<in> set ''-_./:'') s \<Longrightarrow>
   foldl tokenize_char (plain_state ts cur) s = plain_state ts (cur @ s)"
  by (induction s arbitrary: cur) (simp_all add: safe_char)

lemma foldl_shell_quote: "foldl tokenize_char (plain_state ts cur) (shell_quote s) = plain_state ts (cur @ s)"
proof (cases "s = [] \<or> \<not> list_all (\<lambda>c. is_ascii_alphanumeric c \<or> c \<in> set ''-_./:'') s")
  case True
  have "foldl tokenize_char (plain_state ts cur) (single_quote # concat (map quote_char s) @ [single_quote]) = plain_state ts (cur @ s)"
    by (simp add: plain_state_def tokenize_char_def [of _ single_quote] foldl_in_single)
  with True show ?thesis by (auto simp: shell_quote_def)
next
  case False
  then show ?thesis by (simp add: shell_quote_def foldl_safe)
qed

fun join_space :: "string list \<Rightarrow> string" where
  "join_space [] = []"
| "join_space [x] = x"
| "join_space (x # xs) = x @ CHR '' '' # join_space xs"

lemma foldl_join_space:
  "\<exists>tokens current. foldl tokenize_char (plain_state ts []) (join_space (map shell_quote args)) = plain_state tokens current \<and>
     tokens @ (if current = [] then [] else [current]) = ts @ filter (\<lambda>a. a \<noteq> []) args"
proof (induction args arbitrary: ts rule: join_space.induct)
  case 1
  show ?case by (simp add: plain_state_def)
next
  case (2 a)
  show ?case using foldl_shell_quote [of ts "[]" a] by (auto intro!: exI [of _ ts] exI [of _ a])
next
  case (3 a b args)
  have space: "tokenize_char (plain_state ts a) (CHR '' '') = plain_state (ts @ (if a = [] then [] else [a])) []"
    by (simp add: tokenize_char_def plain_state_def is_whitespace_def single_quote_def double_quote_def backslash_def)
  have "foldl tokenize_char (plain_state ts []) (join_space (map shell_quote (a # b # args))) =
      foldl tokenize_char (plain_state (ts @ (if a = [] then [] else [a])) []) (join_space (map shell_quote (b # args)))"
    by (simp add: foldl_shell_quote space)
  moreover obtain tokens current where
    "foldl tokenize_char (plain_state (ts @ (if a = [] then [] else [a])) []) (join_space (map shell_quote (b # args))) =
       plain_state tokens current"
    and "tokens @ (if current = [] then [] else [current]) =
       (ts @ (if a = [] then [] else [a])) @ filter (\<lambda>a. a \<noteq> []) (b # args)"
    using "3.IH" [of "ts @ (if a = [] then [] else [a])"] by (elim exE conjE)
  ultimately show ?case by (intro exI [of _ tokens] exI [of _ current]) simp
qed

section \<open>Properties\<close>

text \<open>
  C40: Splitting a command of quoted arguments gives the arguments back, whatever characters they hold,
  except that empty ones are dropped; a command of empty arguments only is refused as empty.
\<close>

theorem tokenize_quoted_arguments:
  "tokenize_command_string (join_space (map shell_quote args)) =
     (let kept = filter (\<lambda>a. a \<noteq> []) args in if kept = [] then Err EmptyCommand else Ok kept)"
proof -
  obtain tokens current where "foldl tokenize_char (plain_state [] []) (join_space (map shell_quote args)) = plain_state tokens current"
    and kept: "tokens @ (if current = [] then [] else [current]) = filter (\<lambda>a. a \<noteq> []) args"
    using foldl_join_space [of "[]" args] by auto
  then show ?thesis
    unfolding tokenize_command_string_def Let_def kept [symmetric] by (simp add: plain_state_def)
qed

end
