(* ===== verification/Debug_Bundle.thy ===== *)
theory Debug_Bundle
  imports Ascii_Text
begin

text \<open>
  The debug bundle of a run (\<open>build_debug_bundle\<close> of \<open>lab-provenance/src/lib.rs\<close>): which files of a run directory
  go into the archive, and the redaction of secrets and local paths in JSON files. Parser and printer of
  \<open>serde_json\<close> are parameters; the archive is the list of its entries.
\<close>

section \<open>Redaction\<close>

definition is_secretish_key :: "string \<Rightarrow> bool" where
  "is_secretish_key key =
     (let key = to_ascii_lowercase key in
      key = ''authorization'' \<or> key = ''password'' \<or> key = ''token'' \<or> key = ''access_token'' \<or>
      key = ''refresh_token'' \<or> key = ''api_key'' \<or> key = ''secret'' \<or>
      contains_text ''credential'' key \<or> contains_text ''password'' key \<or>
      contains_text ''token'' key \<or> contains_text ''secret'' key)"

definition is_pathish_key :: "string \<Rightarrow> bool" where
  "is_pathish_key key =
     (let key = to_ascii_lowercase key in
      key = ''path'' \<or> key = ''cwd'' \<or> key = ''workdir'' \<or>
      ends_with ''_path'' key \<or> ends_with ''_dir'' key \<or> ends_with ''_root'' key)"

definition looks_like_local_path :: "string \<Rightarrow> string \<Rightarrow> bool" where
  "looks_like_local_path run_dir raw \<longleftrightarrow>
     contains_text run_dir raw \<or> starts_with ''/Users/'' raw \<or> starts_with ''/home/'' raw \<or>
     starts_with ''/private/'' raw \<or> starts_with ''/var/folders/'' raw"

lemma json_item_size: "(x :: json) \<in> set items \<Longrightarrow> size x \<le> size_list size items"
  by (rule size_list_estimation') auto

lemma json_field_size: "(k, x :: json) \<in> set object \<Longrightarrow> size x \<le> size_list (size_prod (\<lambda>_. 0) size) object"
  by (rule size_list_estimation' [where f = "size_prod (\<lambda>_. 0) size"]) auto

function redact_debug_bundle_json_value :: "string \<Rightarrow> json \<Rightarrow> json"
  and redact_debug_bundle_path_value :: "string \<Rightarrow> json \<Rightarrow> json" where
  "redact_debug_bundle_json_value run_dir (JObject object) =
     JObject (map (\<lambda>(key, child).
       (key,
        if is_secretish_key key then JString ''<redacted>''
        else if is_pathish_key key then redact_debug_bundle_path_value run_dir child
        else redact_debug_bundle_json_value run_dir child)) object)"
| "redact_debug_bundle_json_value run_dir (JArray items) = JArray (map (redact_debug_bundle_json_value run_dir) items)"
| "redact_debug_bundle_json_value run_dir (JString raw) =
     JString (if looks_like_local_path run_dir raw then ''<local-path-redacted>'' else raw)"
| "redact_debug_bundle_json_value run_dir JNull = JNull"
| "redact_debug_bundle_json_value run_dir (JBool b) = JBool b"
| "redact_debug_bundle_json_value run_dir (JNumber n) = JNumber n"
| "redact_debug_bundle_path_value run_dir (JString raw) =
     JString (if looks_like_local_path run_dir raw then ''<local-path-redacted>'' else raw)"
| "redact_debug_bundle_path_value run_dir (JArray items) = JArray (map (redact_debug_bundle_path_value run_dir) items)"
| "redact_debug_bundle_path_value run_dir (JObject object) = redact_debug_bundle_json_value run_dir (JObject object)"
| "redact_debug_bundle_path_value run_dir JNull = JNull"
| "redact_debug_bundle_path_value run_dir (JBool b) = JBool b"
| "redact_debug_bundle_path_value run_dir (JNumber n) = JNumber n"
  by pat_completeness auto

termination
  by (relation "measures [\<lambda>x. case x of Inl (_, v) \<Rightarrow> size v | Inr (_, v) \<Rightarrow> size v, \<lambda>x. case x of Inl _ \<Rightarrow> 0 | Inr _ \<Rightarrow> 1]")
    (auto simp: less_Suc_eq_le intro: json_item_size json_field_size)

section \<open>The archive\<close>

datatype bundle_error = OutputExists | OutputNotCreated | ZipFault string | ReadFault string | WalkFault | PrintFault

text \<open>A file of the archive that is being written is the last entry.\<close>

record debug_bundle =
  bu_entries :: "(string \<times> string) list"
  bu_included :: "string list"
  bu_excluded :: "string list"

text \<open>
  \<open>be_trials\<close>: no \<open>trials\<close> directory, or what walking it yields, \<open>None\<close> for an error and otherwise a path
  relative to the run directory and whether it is a file.
\<close>

record bundle_env =
  be_run_dir :: string
  be_parse :: "string \<Rightarrow> json option"
  be_pretty :: "json \<Rightarrow> string option"
  be_out_exists :: bool
  be_create :: bool
  be_exists :: "string \<Rightarrow> bool"
  be_read :: "string \<Rightarrow> string option"
  be_trials :: "(string \<times> bool) option list option"
  be_zip :: "string \<Rightarrow> bool"

type_synonym 'a bundle_op = "(debug_bundle, bundle_error, 'a) op"

definition redact_debug_bundle_json_bytes :: "bundle_env \<Rightarrow> string \<Rightarrow> string" where
  "redact_debug_bundle_json_bytes env data =
     (case be_parse env data of
        None \<Rightarrow> data
      | Some value \<Rightarrow>
          (case be_pretty env (redact_debug_bundle_json_value (be_run_dir env) value) of
             None \<Rightarrow> data
           | Some text \<Rightarrow> text))"

definition zip_start_file :: "bundle_env \<Rightarrow> string \<Rightarrow> unit bundle_op" where
  "zip_start_file env name =
     obind (olift (ensure (be_zip env name) (ZipFault name))) (\<lambda>_.
     omodify (\<lambda>b. b\<lparr>bu_entries := bu_entries b @ [(name, [])]\<rparr>))"

definition zip_write_all :: "string \<Rightarrow> unit bundle_op" where
  "zip_write_all data = omodify (\<lambda>b. b\<lparr>bu_entries := butlast (bu_entries b) @ [(fst (last (bu_entries b)), data)]\<rparr>)"

definition write_debug_bundle_file :: "bundle_env \<Rightarrow> string \<Rightarrow> unit bundle_op" where
  "write_debug_bundle_file env rel =
     obind (zip_start_file env rel) (\<lambda>_.
     obind (olift (ok_or (ReadFault rel) (be_read env rel))) (\<lambda>raw.
     zip_write_all (if ends_with ''.json'' rel then redact_debug_bundle_json_bytes env raw else raw)))"

definition is_excluded_debug_bundle_part :: "string \<Rightarrow> bool" where
  "is_excluded_debug_bundle_part part \<longleftrightarrow> part \<in> {''workspace'', ''tmp'', ''state'', ''runtime''}"

definition should_include_debug_bundle_file :: "string \<Rightarrow> bool" where
  "should_include_debug_bundle_file rel =
     (if list_ex is_excluded_debug_bundle_part (split_on (CHR ''/'') rel) then False
      else let lower = to_ascii_lowercase rel in
        \<not> ends_with ''.env'' lower \<and> \<not> contains_text ''/.env'' lower \<and> \<not> contains_text ''secret'' lower \<and>
        \<not> contains_text ''credential'' lower \<and> \<not> contains_text ''token'' lower \<and> \<not> contains_text ''apikey'' lower \<and>
        \<not> contains_text ''api_key'' lower)"

definition include_file :: "bundle_env \<Rightarrow> string \<Rightarrow> unit bundle_op" where
  "include_file env rel =
     obind (write_debug_bundle_file env rel) (\<lambda>_. omodify (\<lambda>b. b\<lparr>bu_included := bu_included b @ [rel]\<rparr>))"

definition include_paths :: "string list" where
  "include_paths = [''manifest.json'', ''resolved_experiment.json'', ''resolved_experiment.digest'', ''attestation.json'']"

definition include_trial_entry :: "bundle_env \<Rightarrow> (string \<times> bool) option \<Rightarrow> unit bundle_op" where
  "include_trial_entry env entry =
     (case entry of
        None \<Rightarrow> ofail WalkFault
      | Some (rel, is_file) \<Rightarrow>
          if \<not> is_file then oreturn ()
          else if should_include_debug_bundle_file rel then include_file env rel
          else omodify (\<lambda>b. b\<lparr>bu_excluded := bu_excluded b @ [rel]\<rparr>))"

definition debug_bundle_manifest :: "debug_bundle \<Rightarrow> json" where
  "debug_bundle_manifest b =
     json_object
       [(''schema_version'', JString ''bucephalus_debug_bundle_v1''),
        (''sensitivity'', JString ''support_bundle_review_before_sharing''),
        (''notice'', JString ''This bundle is for support/debugging. Structured JSON is redacted for common local-path and secret fields, but logs and agent outputs can still contain user data.''),
        (''redaction'', json_object
          [(''json'', JString ''common secret and local path fields are replaced with placeholders''),
           (''excluded_by_default'', JArray (map JString
             [''trial workspaces'', ''temporary runtime directories'', ''state directories'', ''runtime directories'',
              ''secret-like filenames'']))]),
        (''included_files'', JArray (map JString (sort (bu_included b)))),
        (''excluded_files'', JArray (map JString (sort (bu_excluded b))))]"

definition build_debug_bundle :: "bundle_env \<Rightarrow> unit bundle_op" where
  "build_debug_bundle env =
     (if be_out_exists env then ofail OutputExists
      else
        obind (olift (ensure (be_create env) OutputNotCreated)) (\<lambda>_.
        obind (oforeach include_paths (\<lambda>rel. if be_exists env rel then include_file env rel else oreturn ())) (\<lambda>_.
        obind (case be_trials env of None \<Rightarrow> oreturn () | Some entries \<Rightarrow> oforeach entries (include_trial_entry env)) (\<lambda>_.
        obind (zip_start_file env ''debug_bundle_manifest.json'') (\<lambda>_.
        obind (oget (\<lambda>b. be_pretty env (debug_bundle_manifest b))) (\<lambda>text.
        obind (olift (ok_or PrintFault text)) zip_write_all))))))"

section \<open>What the redaction hides\<close>

text \<open>Values that differ only below secret keys and in local paths.\<close>

inductive secret_equal :: "string \<Rightarrow> json \<Rightarrow> json \<Rightarrow> bool" for run_dir :: string where
  same: "secret_equal run_dir v v"
| local_paths: "looks_like_local_path run_dir s \<Longrightarrow> looks_like_local_path run_dir t \<Longrightarrow>
    secret_equal run_dir (JString s) (JString t)"
| items: "list_all2 (secret_equal run_dir) xs ys \<Longrightarrow> secret_equal run_dir (JArray xs) (JArray ys)"
| entries: "list_all2 (\<lambda>e e'. fst e = fst e' \<and> (is_secretish_key (fst e) \<or> secret_equal run_dir (snd e) (snd e'))) m m' \<Longrightarrow>
    secret_equal run_dir (JObject m) (JObject m')"

lemma path_value_redaction: "redact_debug_bundle_path_value run_dir v = redact_debug_bundle_json_value run_dir v"
  by (induction v) simp_all

lemma redact_object:
  "redact_debug_bundle_json_value run_dir (JObject m) =
     JObject (map (\<lambda>e. (fst e, if is_secretish_key (fst e) then JString ''<redacted>''
       else redact_debug_bundle_json_value run_dir (snd e))) m)"
  by (simp add: path_value_redaction split_beta)

lemma map_eq_list_all2: "list_all2 (\<lambda>x y. f x = f y) xs ys \<Longrightarrow> map f xs = map f ys"
  by (induction rule: list_all2_induct) simp_all

lemma redact_secret_equal:
  "secret_equal run_dir v v' \<Longrightarrow> redact_debug_bundle_json_value run_dir v = redact_debug_bundle_json_value run_dir v'"
proof (induction rule: secret_equal.induct)
  case (items xs ys)
  then show ?case by (auto intro: map_eq_list_all2 elim: list_all2_mono)
next
  case (entries m m')
  then show ?case unfolding redact_object by (auto intro!: map_eq_list_all2 elim!: list_all2_mono)
qed simp_all

text \<open>A key of an API is only known as such if it is called exactly that.\<close>

lemma named_api_key_kept:
  assumes "\<not> looks_like_local_path run_dir key"
  shows "redact_debug_bundle_json_value run_dir (JObject [(''OPENAI_API_KEY'', JString key)]) =
    JObject [(''OPENAI_API_KEY'', JString key)]"
proof -
  have "\<not> is_secretish_key ''OPENAI_API_KEY''" by code_simp
  then show ?thesis using assms by (simp add: path_value_redaction)
qed

section \<open>Files of the archive\<close>

text \<open>Contents of a file that the archive does not tell apart.\<close>

definition hidden_change :: "bundle_env \<Rightarrow> (string \<Rightarrow> string option) \<Rightarrow> string \<Rightarrow> bool" where
  "hidden_change env read' rel \<longleftrightarrow>
     rel \<notin> set include_paths \<and> \<not> should_include_debug_bundle_file rel \<or>
     be_read env rel = read' rel \<or>
     ends_with ''.json'' rel \<and>
     (\<exists>d d' v v'. be_read env rel = Some d \<and> read' rel = Some d' \<and> be_parse env d = Some v \<and> be_parse env d' = Some v' \<and>
        secret_equal (be_run_dir env) v v')"

lemma redact_bytes_hidden:
  assumes "\<And>v. be_pretty env v \<noteq> None" "be_parse env d = Some v" "be_parse env d' = Some v'"
    and "secret_equal (be_run_dir env) v v'"
  shows "redact_debug_bundle_json_bytes env d = redact_debug_bundle_json_bytes env d'"
  using assms(1) [of "redact_debug_bundle_json_value (be_run_dir env) v'"] assms(2,3) redact_secret_equal [OF assms(4)]
  by (auto simp: redact_debug_bundle_json_bytes_def)

lemma redact_bytes_read [simp]: "redact_debug_bundle_json_bytes (env\<lparr>be_read := read'\<rparr>) d = redact_debug_bundle_json_bytes env d"
  by (simp add: redact_debug_bundle_json_bytes_def cong: option.case_cong)

lemma obind_olift_Ok [simp]: "obind (olift (Ok x)) f = f x"
  by (rule ext) (simp add: op_defs)

lemma include_file_hidden:
  assumes "\<And>v. be_pretty env v \<noteq> None" "hidden_change env read' rel" "rel \<in> set include_paths \<or> should_include_debug_bundle_file rel"
  shows "include_file (env\<lparr>be_read := read'\<rparr>) rel = include_file env rel"
proof -
  have "write_debug_bundle_file (env\<lparr>be_read := read'\<rparr>) rel = write_debug_bundle_file env rel"
  proof (cases "be_read env rel = read' rel")
    case True
    then show ?thesis by (simp add: write_debug_bundle_file_def zip_start_file_def cong: if_cong)
  next
    case False
    with assms(2,3) obtain d d' v v' where "ends_with ''.json'' rel" "be_read env rel = Some d" "read' rel = Some d'"
      "be_parse env d = Some v" "be_parse env d' = Some v'" "secret_equal (be_run_dir env) v v'"
      unfolding hidden_change_def by blast
    with redact_bytes_hidden [OF assms(1), of d v d' v'] show ?thesis
      by (simp add: write_debug_bundle_file_def zip_start_file_def)
  qed
  then show ?thesis by (simp add: include_file_def)
qed

lemma oforeach_cong: "(\<And>x. x \<in> set xs \<Longrightarrow> f x = g x) \<Longrightarrow> oforeach xs f = oforeach xs g"
  by (induction xs) simp_all

section \<open>Properties\<close>

text \<open>
  C39: The archive does not depend on what it is to hide: changing values below secret keys or local paths inside JSON files,
  or anything in a file that is left out, gives the same archive and the same outcome, as long as the printer of JSON
  does not fail.
\<close>

theorem debug_bundle_hides_secrets:
  assumes "\<forall>v. be_pretty env v \<noteq> None" "\<forall>rel. hidden_change env read' rel"
  shows "build_debug_bundle (env\<lparr>be_read := read'\<rparr>) = build_debug_bundle env"
proof -
  let ?env = "env\<lparr>be_read := read'\<rparr>"
  note same = include_file_hidden [OF assms(1) [rule_format] assms(2) [rule_format]]
  have "oforeach include_paths (\<lambda>rel. if be_exists ?env rel then include_file ?env rel else oreturn ()) =
      oforeach include_paths (\<lambda>rel. if be_exists env rel then include_file env rel else oreturn ())"
    by (rule oforeach_cong) (simp add: same)
  moreover have "include_trial_entry ?env = include_trial_entry env"
    by (rule ext) (auto simp: include_trial_entry_def same split: option.split)
  ultimately show ?thesis by (simp add: build_debug_bundle_def zip_start_file_def cong: option.case_cong)
qed

text \<open>A run directory with a manifest, a result and an environment file of a trial.\<close>

definition sample_token :: "string \<Rightarrow> json" where
  "sample_token t = JObject [(''access_token'', JString t), (''status'', JString ''ok'')]"

definition sample_bundle_env :: bundle_env where
  "sample_bundle_env = \<lparr>be_run_dir = ''/runs/r1'',
     be_parse = (\<lambda>d. if take 1 d = ''{'' then Some (sample_token (drop 1 d)) else None),
     be_pretty = (\<lambda>v. Some (canonical_json sample_quote sample_show_float v)), be_out_exists = False, be_create = True,
     be_exists = (\<lambda>rel. rel = ''manifest.json''),
     be_read = [''manifest.json'' \<mapsto> ''{abc'', ''trials/t/result.txt'' \<mapsto> ''log'', ''trials/t/agent.env'' \<mapsto> ''KEY=abc''],
     be_trials = Some [Some (''trials/t'', False), Some (''trials/t/result.txt'', True), Some (''trials/t/agent.env'', True)],
     be_zip = (\<lambda>_. True)\<rparr>"

theorem debug_bundle_hides_secrets_witness:
  "build_debug_bundle (sample_bundle_env\<lparr>be_read := (be_read sample_bundle_env)
     (''manifest.json'' \<mapsto> ''{xyz'', ''trials/t/agent.env'' \<mapsto> ''KEY=xyz'')\<rparr>) = build_debug_bundle sample_bundle_env"
proof (rule debug_bundle_hides_secrets)
  have "secret_equal d (sample_token s) (sample_token t)" for d s t
  proof -
    have "is_secretish_key ''access_token''" by code_simp
    then show ?thesis unfolding sample_token_def by (intro entries) (simp add: same)
  qed
  moreover have "ends_with ''.json'' ''manifest.json''" "\<not> should_include_debug_bundle_file ''trials/t/agent.env''"
    by code_simp+
  ultimately show "\<forall>rel. hidden_change sample_bundle_env
      ((be_read sample_bundle_env)(''manifest.json'' \<mapsto> ''{xyz'', ''trials/t/agent.env'' \<mapsto> ''KEY=xyz'')) rel"
    by (auto simp: hidden_change_def sample_bundle_env_def include_paths_def)
qed (simp add: sample_bundle_env_def)

end
