(* ===== verification/File_Paths.thy ===== *)
theory File_Paths
  imports Ascii_Text
begin

text \<open>
  Paths as \<open>std::path\<close> has them (lists of components), \<open>normalize_path\<close> of \<open>config.rs\<close>, and the calls into the
  file system that the package code makes. The file system is a parameter: a record of functions on its state
  \<open>'f\<close>, with the documented laws of the calls that write as \<open>copying_laws\<close>.
\<close>

section \<open>Paths\<close>

datatype component = RootDir | CurDir | ParentDir | Normal string

type_synonym path = "component list"

definition part_component :: "string \<Rightarrow> component option" where
  "part_component part =
     (if part = [] \<or> part = ''.'' then None else if part = ''..'' then Some ParentDir else Some (Normal part))"

text \<open>\<open>Path::components\<close>: repeated separators and inner dots vanish, a leading dot stays.\<close>

definition path_components :: "string \<Rightarrow> path" where
  "path_components s =
     (if starts_with ''/'' s then [RootDir] else if hd (split_on (CHR ''/'') s) = ''.'' then [CurDir] else []) @
     List.map_filter part_component (split_on (CHR ''/'') s)"

definition is_absolute :: "path \<Rightarrow> bool" where
  "is_absolute p \<longleftrightarrow> p \<noteq> [] \<and> hd p = RootDir"

text \<open>\<open>Path::join\<close> with a relative path, \<open>PathBuf::pop\<close>, \<open>Path::parent\<close>, \<open>Path::file_name\<close>, \<open>Path::starts_with\<close>.\<close>

definition path_join :: "path \<Rightarrow> path \<Rightarrow> path" where
  "path_join p q = (if is_absolute q then q else p @ q)"

definition path_pop :: "path \<Rightarrow> path" where
  "path_pop p = (if p \<noteq> [] \<and> last p \<noteq> RootDir then butlast p else p)"

definition path_parent :: "path \<Rightarrow> path option" where
  "path_parent p = (if p \<noteq> [] \<and> last p \<noteq> RootDir then Some (butlast p) else None)"

definition path_file_name :: "path \<Rightarrow> string option" where
  "path_file_name p = (if p = [] then None else case last p of Normal n \<Rightarrow> Some n | _ \<Rightarrow> None)"

definition path_starts_with :: "path \<Rightarrow> path \<Rightarrow> bool" where
  "path_starts_with root p \<longleftrightarrow> take (length root) p = root"

fun normalize_step :: "path \<Rightarrow> component \<Rightarrow> path" where
  "normalize_step out CurDir = out"
| "normalize_step out ParentDir = path_pop out"
| "normalize_step out RootDir = [RootDir]"
| "normalize_step out (Normal n) = out @ [Normal n]"

definition normalize_path :: "path \<Rightarrow> path" where
  "normalize_path p = foldl normalize_step [] p"

fun component_text :: "component \<Rightarrow> string" where
  "component_text RootDir = []"
| "component_text CurDir = ''.''"
| "component_text ParentDir = ''..''"
| "component_text (Normal n) = n"

fun join_slash :: "string list \<Rightarrow> string" where
  "join_slash [] = []"
| "join_slash [x] = x"
| "join_slash (x # xs) = x @ CHR ''/'' # join_slash xs"

definition path_text :: "path \<Rightarrow> string" where
  "path_text p = (if p = [RootDir] then ''/'' else join_slash (map component_text p))"

definition as_portable_rel :: "path \<Rightarrow> string" where
  "as_portable_rel p = map (\<lambda>c. if c = CHR 0x5C then CHR ''/'' else c) (path_text p)"

text \<open>The first component, if it is a name.\<close>

definition first_name :: "path \<Rightarrow> string option" where
  "first_name p = (case p of Normal n # _ \<Rightarrow> Some n | _ \<Rightarrow> None)"

text \<open>A normalised path has no dots left.\<close>

lemma normalize_path_plain: "set (normalize_path p) \<subseteq> {RootDir} \<union> range Normal"
proof -
  have "set (foldl normalize_step out p) \<subseteq> {RootDir} \<union> range Normal" if "set out \<subseteq> {RootDir} \<union> range Normal" for out
    using that
  proof (induction p arbitrary: out)
    case (Cons c p)
    have "set (normalize_step out c) \<subseteq> {RootDir} \<union> range Normal"
      using Cons.prems by (cases c) (auto simp: path_pop_def dest: in_set_butlastD)
    then show ?case using Cons.IH by simp
  qed simp
  then show ?thesis by (simp add: normalize_path_def)
qed

section \<open>The file system\<close>

datatype file_kind = RegularFile | Directory | Symlink | OtherFile

datatype 'a stat = NotFound | StatFault | Found 'a

text \<open>
  \<open>fs_metadata\<close> follows symbolic links, \<open>fs_symlink_metadata\<close> does not; a walk yields an error or a path below
  the root of the walk with its own kind. A call that writes tells whether it succeeded.
\<close>

record 'f file_system =
  fs_canonicalize :: "'f \<Rightarrow> path \<Rightarrow> path option"
  fs_metadata :: "'f \<Rightarrow> path \<Rightarrow> (file_kind \<times> nat) stat"
  fs_symlink_metadata :: "'f \<Rightarrow> path \<Rightarrow> file_kind stat"
  fs_read :: "'f \<Rightarrow> path \<Rightarrow> string option"
  fs_walk :: "'f \<Rightarrow> path \<Rightarrow> (path \<times> file_kind) option list"
  fs_create_dir_all :: "'f \<Rightarrow> path \<Rightarrow> bool \<times> 'f"
  fs_copy :: "'f \<Rightarrow> path \<Rightarrow> path \<Rightarrow> bool \<times> 'f"

definition path_is_file :: "'f file_system \<Rightarrow> 'f \<Rightarrow> path \<Rightarrow> bool" where
  "path_is_file fs f p \<longleftrightarrow> (case fs_metadata fs f p of Found (kind, _) \<Rightarrow> kind = RegularFile | _ \<Rightarrow> False)"

definition path_is_dir :: "'f file_system \<Rightarrow> 'f \<Rightarrow> path \<Rightarrow> bool" where
  "path_is_dir fs f p \<longleftrightarrow> (case fs_metadata fs f p of Found (kind, _) \<Rightarrow> kind = Directory | _ \<Rightarrow> False)"

definition path_exists :: "'f file_system \<Rightarrow> 'f \<Rightarrow> path \<Rightarrow> bool" where
  "path_exists fs f p \<longleftrightarrow> (case fs_metadata fs f p of Found _ \<Rightarrow> True | _ \<Rightarrow> False)"

text \<open>
  What a copy to a free name and the creation of directories promise: what could be read before can still be read and is
  the same.
\<close>

definition copying_laws :: "'f file_system \<Rightarrow> bool" where
  "copying_laws fs \<longleftrightarrow>
     (\<forall>f d p c. fs_read fs f p = Some c \<longrightarrow> fs_read fs (snd (fs_create_dir_all fs f d)) p = Some c) \<and>
     (\<forall>f s d p c. fs_symlink_metadata fs f d = NotFound \<longrightarrow> fs_read fs f p = Some c \<longrightarrow>
        fs_read fs (snd (fs_copy fs f s d)) p = Some c)"

definition keeps_files :: "'f file_system \<Rightarrow> 'f \<Rightarrow> 'f \<Rightarrow> bool" where
  "keeps_files fs f f' \<longleftrightarrow> (\<forall>p c. fs_read fs f p = Some c \<longrightarrow> fs_read fs f' p = Some c)"

lemma keeps_files_refl [simp]: "keeps_files fs f f"
  by (simp add: keeps_files_def)

lemma keeps_files_trans [trans]: "keeps_files fs f g \<Longrightarrow> keeps_files fs g h \<Longrightarrow> keeps_files fs f h"
  by (simp add: keeps_files_def)

lemma keeps_filesD: "keeps_files fs f f' \<Longrightarrow> fs_read fs f p = Some c \<Longrightarrow> fs_read fs f' p = Some c"
  by (simp add: keeps_files_def)

lemma copying_lawsD:
  assumes "copying_laws fs"
  shows "fs_create_dir_all fs f d = (ok, f') \<Longrightarrow> keeps_files fs f f'"
    "fs_symlink_metadata fs f d = NotFound \<Longrightarrow> fs_copy fs f s d = (ok, f') \<Longrightarrow> keeps_files fs f f'"
  using assms unfolding copying_laws_def keeps_files_def by (metis snd_conv)+

end
