(* ===== verification/Sealed_Package.thy ===== *)
theory Sealed_Package
  imports File_Paths Rows
begin

text \<open>
  Sealed run packages (\<open>package/sealed.rs\<close>, \<open>package/cas.rs\<close>): a directory whose files are listed with their digests
  in a checksum file, whose own digest is in the manifest and the lock file. The verification that a run starts with, and the
  copy of the verified payload into the run directory. Parsers, schema verdicts and the runtime store that some file
  names stand for are parameters.
\<close>

section \<open>Parameters and errors\<close>

record cas_pointer =
  cp_schema_version :: string
  cp_kind :: string
  cp_digest :: string
  cp_size_bytes :: nat

record 'f package_env =
  pk_fs :: "'f file_system"
  pk_parse :: "string \<Rightarrow> json option"
  pk_parse_pointer :: "string \<Rightarrow> cas_pointer option"
  pk_contract :: "string \<Rightarrow> json \<Rightarrow> bool"
  pk_externs :: externs
  pk_runtime_json :: "'f \<Rightarrow> string \<Rightarrow> path \<Rightarrow> json option"

datatype package_error =
    EmptyPath string
  | AbsolutePath string
  | UnresolvedPath path
  | EscapesRoot string string
  | ManifestNotObject
  | UnknownManifestKey string
  | MissingManifestKey string
  | WrongSchemaVersion string
  | SchemaContractFault string
  | MissingPackageField string
  | JsonUnreadable path
  | ChecksumNotString string
  | ChecksummedFileMissing string
  | FileUnreadable path
  | ChecksumMismatch string
  | ChecksumEntryRequired string
  | PayloadReference string string
  | WalkError
  | EscapedWalk
  | UnsealedSymlink string
  | UnsupportedFileType string
  | UnchecksummedFile string
  | CasDigestPrefix
  | CasDigestShape
  | CasBlobMissing string
  | CasBlobNotFile string
  | CasBlobSize string
  | CasBlobUnlisted string
  | CasBlobDigest string
  | CasChecksumDigest string
  | PackageDigestMismatch
  | LockDigestMismatch
  | ReportInconsistent string
  | ReportDigestMismatch
  | ReportNotPassed
  | ResolvedExperimentMismatch
  | PayloadNotRegular string
  | OutsideRunDir string
  | DestinationExists string
  | DestinationFault string
  | DirectoryFault path
  | CopyFault string
  | NotAPackage
  | MissingDatasetPath

text \<open>A loop over checks that stops at the first failure.\<close>

fun check_each :: "'x list \<Rightarrow> ('x \<Rightarrow> ('e, unit) result) \<Rightarrow> ('e, unit) result" where
  "check_each [] f = Ok ()"
| "check_each (x # xs) f = rbind (f x) (\<lambda>_. check_each xs f)"

section \<open>Files of a package\<close>

definition runtime_file_names :: "string list" where
  "runtime_file_names = [''run_control.json'', ''run_session_state.json'', ''schedule_progress.json'', ''engine_lease.json'']"

definition load_json_file :: "'f package_env \<Rightarrow> 'f \<Rightarrow> path \<Rightarrow> (package_error, json) result" where
  "load_json_file env f p =
     (case path_file_name p of
        Some name \<Rightarrow>
          if name \<in> set runtime_file_names then
            (case Option.bind (path_parent p) path_parent of
               None \<Rightarrow> Err (UnresolvedPath p)
             | Some run_dir \<Rightarrow> ok_or (JsonUnreadable p) (pk_runtime_json env f name run_dir))
          else if path_exists (pk_fs env) f p then
            rbind (ok_or (FileUnreadable p) (fs_read (pk_fs env) f p)) (\<lambda>bytes.
            ok_or (JsonUnreadable p) (pk_parse env bytes))
          else Err (JsonUnreadable p)
      | None \<Rightarrow>
          if path_exists (pk_fs env) f p then
            rbind (ok_or (FileUnreadable p) (fs_read (pk_fs env) f p)) (\<lambda>bytes.
            ok_or (JsonUnreadable p) (pk_parse env bytes))
          else Err (JsonUnreadable p))"

definition sha256_file :: "'f package_env \<Rightarrow> 'f \<Rightarrow> path \<Rightarrow> (package_error, string) result" where
  "sha256_file env f p =
     rbind (ok_or (FileUnreadable p) (fs_read (pk_fs env) f p)) (\<lambda>bytes.
     Ok (sha256_bytes (ex_sha256_hex (pk_externs env)) bytes))"

text \<open>The path that a relative reference names, before links are followed.\<close>

definition package_path :: "path \<Rightarrow> string \<Rightarrow> path" where
  "package_path package_dir rel = normalize_path (path_join package_dir (path_components (trim rel)))"

definition resolve_package_path_under_root ::
  "'f package_env \<Rightarrow> 'f \<Rightarrow> path \<Rightarrow> string \<Rightarrow> string \<Rightarrow> (package_error, path) result" where
  "resolve_package_path_under_root env f package_dir rel_path field_name =
     (if trim rel_path = [] then Err (EmptyPath field_name)
      else if is_absolute (path_components (trim rel_path)) then Err (AbsolutePath field_name)
      else
        let resolved = package_path package_dir rel_path in
        rbind (ok_or (UnresolvedPath package_dir) (fs_canonicalize (pk_fs env) f package_dir)) (\<lambda>root.
        rbind (ok_or (UnresolvedPath resolved) (fs_canonicalize (pk_fs env) f resolved)) (\<lambda>resolved_cmp.
        if \<not> path_starts_with root resolved_cmp then Err (EscapesRoot field_name rel_path)
        else Ok resolved)))"

section \<open>Content-addressed blobs\<close>

definition sha256_hex_from_digest :: "string \<Rightarrow> (package_error, string) result" where
  "sha256_hex_from_digest digest =
     rbind (ok_or CasDigestPrefix (strip_prefix ''sha256:'' digest)) (\<lambda>hex.
     if length hex \<noteq> 64 \<or> \<not> list_all is_ascii_hexdigit hex then Err CasDigestShape
     else Ok (to_ascii_lowercase hex))"

definition package_blob_path_for_digest :: "path \<Rightarrow> string \<Rightarrow> (package_error, path) result" where
  "package_blob_path_for_digest package_dir digest =
     rbind (sha256_hex_from_digest digest) (\<lambda>hex.
     Ok (package_dir @ [Normal ''blobs'', Normal ''sha256'', Normal hex, Normal ''blob'']))"

definition read_cas_pointer :: "'f package_env \<Rightarrow> 'f \<Rightarrow> path \<Rightarrow> (package_error, cas_pointer option) result" where
  "read_cas_pointer env f p =
     (case fs_metadata (pk_fs env) f p of
        NotFound \<Rightarrow> Ok None
      | StatFault \<Rightarrow> Err (FileUnreadable p)
      | Found (kind, len) \<Rightarrow>
          if kind \<noteq> RegularFile \<or> 4096 < len then Ok None
          else rbind (ok_or (FileUnreadable p) (fs_read (pk_fs env) f p)) (\<lambda>bytes.
            if bytes = [] \<or> hd bytes \<noteq> CHR ''{'' then Ok None
            else case pk_parse_pointer env bytes of
              None \<Rightarrow> Ok None
            | Some pointer \<Rightarrow>
                Ok (if cp_schema_version pointer = ''bucephalus_cas_pointer_v1'' \<and> cp_kind pointer = ''file''
                    then Some pointer else None)))"

section \<open>Verification\<close>

definition manifest_keys :: "string list" where
  "manifest_keys = [''schema_version'', ''created_at'', ''resolved_experiment'', ''checksums_ref'', ''package_checks_ref'',
     ''package_digest'']"

definition require_sealed_manifest_keys :: "json \<Rightarrow> (package_error, unit) result" where
  "require_sealed_manifest_keys manifest =
     rbind (ok_or ManifestNotObject (as_object manifest)) (\<lambda>obj.
     rbind (check_each (bt_keys obj) (\<lambda>key. ensure (key \<in> set manifest_keys) (UnknownManifestKey key))) (\<lambda>_.
     check_each manifest_keys (\<lambda>key. ensure (bt_get obj key \<noteq> None) (MissingManifestKey key))))"

definition run_payload_roots :: "string list" where
  "run_payload_roots = [''tasks'', ''files'', ''agent_builds'', ''blobs'', ''runtime_assets'', ''host_grader_capabilities'']"

definition validate_metadata_ref_outside_runtime_payload :: "string \<Rightarrow> string \<Rightarrow> (package_error, unit) result" where
  "validate_metadata_ref_outside_runtime_payload raw field_name =
     (let p = path_components (trim raw) in
      if is_absolute p then Err (AbsolutePath field_name)
      else case first_name (normalize_path p) of
        None \<Rightarrow> Ok ()
      | Some first \<Rightarrow> if first \<in> set run_payload_roots then Err (PayloadReference field_name first) else Ok ())"

definition verify_checksum_entry ::
  "'f package_env \<Rightarrow> 'f \<Rightarrow> path \<Rightarrow> string \<times> json \<Rightarrow> (package_error, unit) result" where
  "verify_checksum_entry env f package_dir = (\<lambda>(rel, expected_digest).
     rbind (ok_or (ChecksumNotString rel) (as_str expected_digest)) (\<lambda>expected.
     rbind (resolve_package_path_under_root env f package_dir rel ''checksums.files'') (\<lambda>file_path.
     rbind (ensure (path_is_file (pk_fs env) f file_path) (ChecksummedFileMissing rel)) (\<lambda>_.
     rbind (sha256_file env f file_path) (\<lambda>actual.
     ensure (eq_ignore_ascii_case expected actual) (ChecksumMismatch rel))))))"

definition package_relative_path :: "path \<Rightarrow> path \<Rightarrow> (package_error, string) result" where
  "package_relative_path package_dir p =
     (if path_starts_with package_dir p then Ok (as_portable_rel (drop (length package_dir) p)) else Err EscapedWalk)"

definition package_metadata_paths :: "externs \<Rightarrow> json \<Rightarrow> string set" where
  "package_metadata_paths ex manifest =
     {''manifest.json'', ''package.lock'', ''checksums.json'', ''package_checks.json''} \<union>
     (case pointer_str ex manifest ''/checksums_ref'' of
        None \<Rightarrow> {} | Some r \<Rightarrow> {as_portable_rel (normalize_path (path_components r))}) \<union>
     (case pointer_str ex manifest ''/package_checks_ref'' of
        None \<Rightarrow> {} | Some r \<Rightarrow> {as_portable_rel (normalize_path (path_components r))})"

definition verify_sealed_entry ::
  "path \<Rightarrow> string set \<Rightarrow> (string, json) btree \<Rightarrow> (path \<times> file_kind) option \<Rightarrow> (package_error, unit) result" where
  "verify_sealed_entry package_dir metadata_paths checksum_files entry =
     rbind (ok_or WalkError entry) (\<lambda>(p, file_type).
     rbind (package_relative_path package_dir p) (\<lambda>rel.
     if rel = [] then Ok ()
     else if file_type = Directory then Ok ()
     else if file_type = Symlink then Err (UnsealedSymlink rel)
     else if file_type \<noteq> RegularFile then Err (UnsupportedFileType rel)
     else if rel \<in> metadata_paths \<or> bt_get checksum_files rel \<noteq> None then Ok ()
     else Err (UnchecksummedFile rel)))"

definition verify_no_unsealed_package_payload_entries ::
  "'f package_env \<Rightarrow> 'f \<Rightarrow> path \<Rightarrow> json \<Rightarrow> (string, json) btree \<Rightarrow> (package_error, unit) result" where
  "verify_no_unsealed_package_payload_entries env f package_dir manifest checksum_files =
     (let metadata_paths = package_metadata_paths (pk_externs env) manifest in
      check_each (fs_walk (pk_fs env) f package_dir) (verify_sealed_entry package_dir metadata_paths checksum_files))"

definition verify_cas_pointer_entry ::
  "'f package_env \<Rightarrow> 'f \<Rightarrow> path \<Rightarrow> (string, json) btree \<Rightarrow> (path \<times> file_kind) option \<Rightarrow> (package_error, unit) result" where
  "verify_cas_pointer_entry env f package_dir checksum_files entry =
     rbind (ok_or WalkError entry) (\<lambda>(pointer_path, file_type).
     if file_type \<noteq> RegularFile then Ok ()
     else rbind (read_cas_pointer env f pointer_path) (\<lambda>pointer.
       case pointer of
         None \<Rightarrow> Ok ()
       | Some pointer \<Rightarrow>
           rbind (package_relative_path package_dir pointer_path) (\<lambda>pointer_rel.
           rbind (package_blob_path_for_digest package_dir (cp_digest pointer)) (\<lambda>blob_path.
           case fs_metadata (pk_fs env) f blob_path of
             Found (kind, len) \<Rightarrow>
               if kind \<noteq> RegularFile then Err (CasBlobNotFile pointer_rel)
               else if len \<noteq> cp_size_bytes pointer then Err (CasBlobSize pointer_rel)
               else
                 rbind (package_relative_path package_dir blob_path) (\<lambda>blob_rel.
                 rbind (ok_or (CasBlobUnlisted blob_rel) (Option.bind (bt_get checksum_files blob_rel) as_str)) (\<lambda>checksum_digest.
                 rbind (sha256_file env f blob_path) (\<lambda>actual.
                 rbind (ensure (eq_ignore_ascii_case actual (cp_digest pointer)) (CasBlobDigest blob_rel)) (\<lambda>_.
                 ensure (eq_ignore_ascii_case checksum_digest (cp_digest pointer)) (CasChecksumDigest blob_rel)))))
           | _ \<Rightarrow> Err (CasBlobMissing pointer_rel)))))"

definition verify_package_cas_pointers ::
  "'f package_env \<Rightarrow> 'f \<Rightarrow> path \<Rightarrow> (string, json) btree \<Rightarrow> (package_error, unit) result" where
  "verify_package_cas_pointers env f package_dir checksum_files =
     check_each (fs_walk (pk_fs env) f package_dir) (verify_cas_pointer_entry env f package_dir checksum_files)"

definition count_status :: "externs \<Rightarrow> string \<Rightarrow> json list \<Rightarrow> nat" where
  "count_status ex status checks = length (filter (\<lambda>check. pointer_str ex check ''/status'' = Some status) checks)"

definition pointer_u64 :: "externs \<Rightarrow> json \<Rightarrow> string \<Rightarrow> nat option" where
  "pointer_u64 ex value ptr = Option.bind (ex_pointer ex value ptr) as_u64"

definition pointer_bool :: "externs \<Rightarrow> json \<Rightarrow> string \<Rightarrow> bool option" where
  "pointer_bool ex value ptr = Option.bind (ex_pointer ex value ptr) as_bool"

definition validate_package_checks_report_consistency :: "externs \<Rightarrow> json \<Rightarrow> (package_error, unit) result" where
  "validate_package_checks_report_consistency ex package_checks =
     rbind (ok_or (ReportInconsistent ''checks'') (Option.bind (ex_pointer ex package_checks ''/checks'') as_array)) (\<lambda>checks.
     let failed = count_status ex ''fail'' checks; warnings = count_status ex ''warn'' checks in
     rbind (ok_or (ReportInconsistent ''summary.checks'') (pointer_u64 ex package_checks ''/summary/checks'')) (\<lambda>summary_checks.
     rbind (ok_or (ReportInconsistent ''summary.failed'') (pointer_u64 ex package_checks ''/summary/failed'')) (\<lambda>summary_failed.
     rbind (ok_or (ReportInconsistent ''summary.warnings'') (pointer_u64 ex package_checks ''/summary/warnings'')) (\<lambda>summary_warnings.
     rbind (ensure (summary_checks = length checks) (ReportInconsistent ''summary.checks'')) (\<lambda>_.
     rbind (ensure (summary_failed = failed) (ReportInconsistent ''summary.failed'')) (\<lambda>_.
     rbind (ensure (summary_warnings = warnings) (ReportInconsistent ''summary.warnings'')) (\<lambda>_.
     rbind (ok_or (ReportInconsistent ''passed'') (pointer_bool ex package_checks ''/passed'')) (\<lambda>passed.
     ensure (passed = (failed = 0)) (ReportInconsistent ''passed'')))))))))"

record verified_package_integrity =
  vp_resolved_experiment :: json
  vp_checksums :: json

text \<open>The checksum file with its entries, each of which was found to be right.\<close>

definition verify_checksums ::
  "'f package_env \<Rightarrow> 'f \<Rightarrow> path \<Rightarrow> json \<Rightarrow> (package_error, json \<times> (string, json) btree) result" where
  "verify_checksums env f package_dir manifest =
     (let ex = pk_externs env in
      rbind (ok_or (MissingPackageField ''checksums_ref'') (pointer_str ex manifest ''/checksums_ref'')) (\<lambda>checksums_ref.
      rbind (validate_metadata_ref_outside_runtime_payload checksums_ref ''checksums_ref'') (\<lambda>_.
      rbind (resolve_package_path_under_root env f package_dir checksums_ref ''checksums_ref'') (\<lambda>checksums_path.
      rbind (load_json_file env f checksums_path) (\<lambda>checksums.
      rbind (ensure (pointer_str ex checksums ''/schema_version'' = Some ''sealed_package_checksums_v2'')
        (WrongSchemaVersion ''checksums'')) (\<lambda>_.
      rbind (ensure (pk_contract env ''sealed package checksums'' checksums) (SchemaContractFault ''sealed package checksums'')) (\<lambda>_.
      rbind (ok_or (MissingPackageField ''files'') (Option.bind (ex_pointer ex checksums ''/files'') as_object)) (\<lambda>files.
      rbind (check_each files (verify_checksum_entry env f package_dir)) (\<lambda>_.
      rbind (ensure (bt_get files ''resolved_experiment.json'' \<noteq> None) (ChecksumEntryRequired ''resolved_experiment.json'')) (\<lambda>_.
      rbind (ensure (bt_get files ''staging_manifest.json'' \<noteq> None) (ChecksumEntryRequired ''staging_manifest.json'')) (\<lambda>_.
      Ok (checksums, files))))))))))))"

text \<open>The digest of the entries is that of manifest and lock file.\<close>

definition verify_package_digest ::
  "'f package_env \<Rightarrow> 'f \<Rightarrow> path \<Rightarrow> json \<Rightarrow> (string, json) btree \<Rightarrow> (package_error, string) result" where
  "verify_package_digest env f package_dir manifest files =
     (let ex = pk_externs env in
      rbind (ok_or (MissingPackageField ''package_digest'') (pointer_str ex manifest ''/package_digest'')) (\<lambda>manifest_digest.
      rbind (ensure (json_digest ex (JObject files) = manifest_digest) PackageDigestMismatch) (\<lambda>_.
      rbind (load_json_file env f (package_dir @ [Normal ''package.lock''])) (\<lambda>lock.
      rbind (ensure (pointer_str ex lock ''/package_digest'' = Some manifest_digest) LockDigestMismatch) (\<lambda>_.
      Ok manifest_digest)))))"

definition verify_package_checks ::
  "'f package_env \<Rightarrow> 'f \<Rightarrow> path \<Rightarrow> json \<Rightarrow> string \<Rightarrow> (package_error, unit) result" where
  "verify_package_checks env f package_dir manifest manifest_digest =
     (let ex = pk_externs env in
      rbind (ok_or (MissingPackageField ''package_checks_ref'') (ex_pointer ex manifest ''/package_checks_ref'')) (\<lambda>value.
      rbind (ok_or (MissingPackageField ''package_checks_ref'') (as_str value)) (\<lambda>package_checks_ref.
      rbind (validate_metadata_ref_outside_runtime_payload package_checks_ref ''package_checks_ref'') (\<lambda>_.
      rbind (resolve_package_path_under_root env f package_dir package_checks_ref ''package_checks_ref'') (\<lambda>package_checks_path.
      rbind (load_json_file env f package_checks_path) (\<lambda>package_checks.
      rbind (ensure (pointer_str ex package_checks ''/schema_version'' = Some ''package_checks_v1'')
        (WrongSchemaVersion ''package checks'')) (\<lambda>_.
      rbind (ensure (pk_contract env ''package checks'' package_checks) (SchemaContractFault ''package checks'')) (\<lambda>_.
      rbind (validate_package_checks_report_consistency ex package_checks) (\<lambda>_.
      rbind (ensure (pointer_str ex package_checks ''/package_digest'' = Some manifest_digest) ReportDigestMismatch) (\<lambda>_.
      ensure (pointer_bool ex package_checks ''/passed'' = Some True) ReportNotPassed))))))))))"

text \<open>The experiment in the package is the one that the manifest repeats.\<close>

definition verify_resolved_experiment ::
  "'f package_env \<Rightarrow> 'f \<Rightarrow> path \<Rightarrow> json \<Rightarrow> (package_error, json) result" where
  "verify_resolved_experiment env f package_dir manifest =
     (let ex = pk_externs env in
      rbind (resolve_package_path_under_root env f package_dir ''resolved_experiment.json'' ''checksums.files'') (\<lambda>resolved_path.
      rbind (load_json_file env f resolved_path) (\<lambda>resolved_experiment.
      rbind (ok_or (MissingPackageField ''resolved_experiment'') (ex_pointer ex manifest ''/resolved_experiment'')) (\<lambda>manifest_resolved.
      rbind (ensure (json_digest ex manifest_resolved = json_digest ex resolved_experiment) ResolvedExperimentMismatch) (\<lambda>_.
      rbind (resolve_package_path_under_root env f package_dir ''staging_manifest.json'' ''checksums.files'') (\<lambda>staging_manifest_path.
      rbind (load_json_file env f staging_manifest_path) (\<lambda>_.
      Ok resolved_experiment)))))))"

definition verify_sealed_package_integrity_snapshot ::
  "'f package_env \<Rightarrow> 'f \<Rightarrow> path \<Rightarrow> json \<Rightarrow> (package_error, verified_package_integrity) result" where
  "verify_sealed_package_integrity_snapshot env f package_dir manifest =
     (let ex = pk_externs env in
      rbind (require_sealed_manifest_keys manifest) (\<lambda>_.
      rbind (ensure (pointer_str ex manifest ''/schema_version'' = Some ''sealed_run_package_v2'') (WrongSchemaVersion ''manifest'')) (\<lambda>_.
      rbind (ensure (pk_contract env ''sealed package manifest'' manifest) (SchemaContractFault ''sealed package manifest'')) (\<lambda>_.
      rbind (verify_checksums env f package_dir manifest) (\<lambda>(checksums, files).
      rbind (verify_no_unsealed_package_payload_entries env f package_dir manifest files) (\<lambda>_.
      rbind (verify_package_cas_pointers env f package_dir files) (\<lambda>_.
      rbind (verify_package_digest env f package_dir manifest files) (\<lambda>manifest_digest.
      rbind (verify_package_checks env f package_dir manifest manifest_digest) (\<lambda>_.
      rbind (verify_resolved_experiment env f package_dir manifest) (\<lambda>resolved_experiment.
      Ok \<lparr>vp_resolved_experiment = resolved_experiment, vp_checksums = checksums\<rparr>))))))))))"

definition verify_sealed_package_integrity ::
  "'f package_env \<Rightarrow> 'f \<Rightarrow> path \<Rightarrow> json \<Rightarrow> (package_error, json) result" where
  "verify_sealed_package_integrity env f package_dir manifest =
     rbind (verify_sealed_package_integrity_snapshot env f package_dir manifest) (\<lambda>v. Ok (vp_resolved_experiment v))"

section \<open>Copying into the run directory\<close>

definition checksum_entry_is_run_payload :: "string \<Rightarrow> bool" where
  "checksum_entry_is_run_payload rel =
     (if rel = ''staging_manifest.json'' then True
      else case first_name (path_components rel) of None \<Rightarrow> False | Some first \<Rightarrow> first \<in> set run_payload_roots)"

type_synonym ('f, 'a) package_op = "('f, package_error, 'a) op"

text \<open>Calls that only look, and calls that write.\<close>

definition look :: "('f \<Rightarrow> (package_error, 'a) result) \<Rightarrow> ('f, 'a) package_op" where
  "look m f = (m f, f)"

definition fs_call :: "package_error \<Rightarrow> ('f \<Rightarrow> bool \<times> 'f) \<Rightarrow> ('f, unit) package_op" where
  "fs_call e m f = (case m f of (ok, f') \<Rightarrow> (ensure ok e, f'))"

definition require_free_destination :: "'f file_system \<Rightarrow> string \<Rightarrow> path \<Rightarrow> 'f \<Rightarrow> (package_error, unit) result" where
  "require_free_destination fs rel destination f =
     (case fs_symlink_metadata fs f destination of
        Found _ \<Rightarrow> Err (DestinationExists rel)
      | NotFound \<Rightarrow> Ok ()
      | StatFault \<Rightarrow> Err (DestinationFault rel))"

definition prepare_parent :: "'f file_system \<Rightarrow> path \<Rightarrow> string \<Rightarrow> path \<Rightarrow> ('f, unit) package_op" where
  "prepare_parent fs run_dir rel destination =
     (case path_parent destination of
        None \<Rightarrow> oreturn ()
      | Some parent \<Rightarrow>
          obind (fs_call (DirectoryFault parent) (\<lambda>f. fs_create_dir_all fs f parent)) (\<lambda>_.
          obind (look (\<lambda>f. ok_or (UnresolvedPath run_dir) (fs_canonicalize fs f run_dir))) (\<lambda>run_root.
          obind (look (\<lambda>f. ok_or (UnresolvedPath parent) (fs_canonicalize fs f parent))) (\<lambda>parent_root.
          olift (ensure (path_starts_with run_root parent_root) (OutsideRunDir rel))))))"

definition require_regular_source :: "'f file_system \<Rightarrow> string \<Rightarrow> path \<Rightarrow> 'f \<Rightarrow> (package_error, unit) result" where
  "require_regular_source fs rel source f =
     (case fs_symlink_metadata fs f source of
        Found kind \<Rightarrow> ensure (kind = RegularFile) (PayloadNotRegular rel)
      | _ \<Rightarrow> Err (FileUnreadable source))"

definition write_payload :: "'f package_env \<Rightarrow> path \<Rightarrow> string \<Rightarrow> string \<Rightarrow> path \<Rightarrow> path \<Rightarrow> ('f, unit) package_op" where
  "write_payload env run_dir rel expected source destination =
     (let fs = pk_fs env in
      obind (prepare_parent fs run_dir rel destination) (\<lambda>_.
      obind (look (require_free_destination fs rel destination)) (\<lambda>_.
      obind (fs_call (CopyFault rel) (\<lambda>f. fs_copy fs f source destination)) (\<lambda>_.
      obind (look (\<lambda>f. sha256_file env f destination)) (\<lambda>actual.
      olift (ensure (eq_ignore_ascii_case expected actual) (ChecksumMismatch rel)))))))"

definition copy_payload_entry :: "'f package_env \<Rightarrow> path \<Rightarrow> path \<Rightarrow> string \<times> json \<Rightarrow> ('f, unit) package_op" where
  "copy_payload_entry env package_dir run_dir = (\<lambda>(rel, expected_digest).
     if \<not> checksum_entry_is_run_payload rel then oreturn ()
     else
       let destination = normalize_path (path_join run_dir (path_components rel)) in
       obind (olift (ok_or (ChecksumNotString rel) (as_str expected_digest))) (\<lambda>expected.
       obind (look (\<lambda>f. resolve_package_path_under_root env f package_dir rel ''checksums.files'')) (\<lambda>source.
       obind (look (require_regular_source (pk_fs env) rel source)) (\<lambda>_.
       obind (olift (ensure (path_starts_with (normalize_path run_dir) destination) (OutsideRunDir rel))) (\<lambda>_.
       write_payload env run_dir rel expected source destination)))))"

definition copy_verified_package_lock_for_run :: "'f package_env \<Rightarrow> path \<Rightarrow> path \<Rightarrow> ('f, unit) package_op" where
  "copy_verified_package_lock_for_run env package_dir run_dir =
     (let fs = pk_fs env; source = package_dir @ [Normal ''package.lock'']; destination = run_dir @ [Normal ''package.lock''] in
      obind (look (require_free_destination fs ''package.lock'' destination)) (\<lambda>_.
      obind (fs_call (CopyFault ''package.lock'') (\<lambda>f. fs_copy fs f source destination)) (\<lambda>_.
      obind (look (\<lambda>f. sha256_file env f source)) (\<lambda>source_digest.
      obind (look (\<lambda>f. sha256_file env f destination)) (\<lambda>destination_digest.
      olift (ensure (source_digest = destination_digest) (ChecksumMismatch ''package.lock'')))))))"

definition copy_verified_package_payload_for_run :: "'f package_env \<Rightarrow> path \<Rightarrow> path \<Rightarrow> ('f, unit) package_op" where
  "copy_verified_package_payload_for_run env package_dir run_dir =
     obind (look (\<lambda>f. load_json_file env f (package_dir @ [Normal ''manifest.json'']))) (\<lambda>manifest.
     obind (look (\<lambda>f. verify_sealed_package_integrity_snapshot env f package_dir manifest)) (\<lambda>verified.
     obind (olift (ok_or (MissingPackageField ''files'')
       (Option.bind (ex_pointer (pk_externs env) (vp_checksums verified) ''/files'') as_object))) (\<lambda>files.
     obind (oforeach files (copy_payload_entry env package_dir run_dir)) (\<lambda>_.
     copy_verified_package_lock_for_run env package_dir run_dir))))"

section \<open>Loading a package\<close>

fun find_project_root_from :: "path \<Rightarrow> nat \<Rightarrow> path \<Rightarrow> path" where
  "find_project_root_from experiment_dir 0 p = experiment_dir"
| "find_project_root_from experiment_dir (Suc n) p =
     (if path_file_name p = Some ''.lab''
      then (case path_parent p of None \<Rightarrow> experiment_dir | Some parent \<Rightarrow> parent)
      else case path_parent p of None \<Rightarrow> experiment_dir | Some parent \<Rightarrow> find_project_root_from experiment_dir n parent)"

text \<open>The loop over the ancestors ends after at most one step per component.\<close>

definition find_project_root :: "path \<Rightarrow> path" where
  "find_project_root experiment_dir = find_project_root_from experiment_dir (Suc (length experiment_dir)) experiment_dir"

record loaded_experiment_input =
  lei_json_value :: json
  lei_exp_dir :: path
  lei_project_root :: path

definition locate_manifest :: "'f package_env \<Rightarrow> 'f \<Rightarrow> path \<Rightarrow> (package_error, path \<times> path) result" where
  "locate_manifest env f canonical =
     (if path_is_dir (pk_fs env) f canonical then
        (let manifest = canonical @ [Normal ''manifest.json''] in
         if path_is_file (pk_fs env) f manifest then Ok (manifest, canonical) else Err NotAPackage)
      else if path_file_name canonical = Some ''manifest.json'' then
        rbind (ok_or NotAPackage (path_parent canonical)) (\<lambda>exp_dir. Ok (canonical, exp_dir))
      else Err NotAPackage)"

definition load_sealed_package_for_run ::
  "'f package_env \<Rightarrow> 'f \<Rightarrow> path \<Rightarrow> (package_error, loaded_experiment_input) result" where
  "load_sealed_package_for_run env f p =
     rbind (ok_or (UnresolvedPath p) (fs_canonicalize (pk_fs env) f p)) (\<lambda>canonical.
     rbind (locate_manifest env f canonical) (\<lambda>(manifest_path, exp_dir).
     rbind (load_json_file env f manifest_path) (\<lambda>manifest.
     rbind (verify_sealed_package_integrity env f exp_dir manifest) (\<lambda>json_value.
     let project_root = find_project_root exp_dir in
     rbind (ok_or (UnresolvedPath project_root) (fs_canonicalize (pk_fs env) f project_root)) (\<lambda>project_root.
     Ok \<lparr>lei_json_value = json_value, lei_exp_dir = exp_dir, lei_project_root = project_root\<rparr>)))))"

definition resolve_dataset_path_in_package ::
  "'f package_env \<Rightarrow> 'f \<Rightarrow> json \<Rightarrow> path \<Rightarrow> (package_error, path) result" where
  "resolve_dataset_path_in_package env f json_value package_dir =
     rbind (ok_or MissingDatasetPath (pointer_str (pk_externs env) json_value ''/matrix/tasks/path'')) (\<lambda>rel.
     resolve_package_path_under_root env f package_dir rel ''matrix.tasks.path'')"

end
