(* ===== verification/Sealed_Verify.thy ===== *)
theory Sealed_Verify
  imports Sealed_Package
begin

text \<open>
  What the verification of a sealed package and the copy of its payload guarantee: the digest of a package pins the
  contents of its files, nothing in it is outside the checksums, and a run directory receives the verified files and loses
  none.
\<close>

section \<open>What a successful verification has checked\<close>

lemma check_each_Ok: "check_each xs f = Ok () \<longleftrightarrow> (\<forall>x \<in> set xs. f x = Ok ())"
  by (induction xs) (auto simp: result_iffs)

lemma check_each_Ok' [simp]: "check_each xs f = Ok u \<longleftrightarrow> (\<forall>x \<in> set xs. f x = Ok ())"
  using check_each_Ok by (cases u) simp

definition checksum_files :: "externs \<Rightarrow> json \<Rightarrow> (string, json) btree option" where
  "checksum_files ex checksums = Option.bind (ex_pointer ex checksums ''/files'') as_object"

definition file_digest :: "externs \<Rightarrow> string \<Rightarrow> string" where
  "file_digest ex bytes = sha256_bytes (ex_sha256_hex ex) bytes"

lemma sha256_file_Ok: "sha256_file env f p = Ok d \<longleftrightarrow> (\<exists>c. fs_read (pk_fs env) f p = Some c \<and> d = file_digest (pk_externs env) c)"
  by (auto simp: sha256_file_def file_digest_def result_iffs)

lemma resolve_Ok: "resolve_package_path_under_root env f dir rel field = Ok p \<Longrightarrow> p = package_path dir rel"
  by (auto simp: resolve_package_path_under_root_def Let_def result_iffs split: if_splits)

lemma checksum_entry_Ok:
  assumes "verify_checksum_entry env f dir (rel, d) = Ok ()"
  shows "\<exists>expected c. d = JString expected \<and> fs_read (pk_fs env) f (package_path dir rel) = Some c \<and>
    eq_ignore_ascii_case expected (file_digest (pk_externs env) c)"
proof -
  obtain expected p actual where "as_str d = Some expected" and p: "resolve_package_path_under_root env f dir rel ''checksums.files'' = Ok p"
    and "sha256_file env f p = Ok actual" "eq_ignore_ascii_case expected actual"
    using assms by (auto simp: verify_checksum_entry_def result_iffs)
  moreover from this(1) have "d = JString expected" by (cases d) simp_all
  ultimately show ?thesis using resolve_Ok [OF p] by (auto simp: sha256_file_Ok)
qed

lemma verify_snapshot_Ok:
  assumes "verify_sealed_package_integrity_snapshot env f dir manifest = Ok v"
  shows "\<exists>files. checksum_files (pk_externs env) (vp_checksums v) = Some files \<and>
    (\<forall>e \<in> set files. verify_checksum_entry env f dir e = Ok ()) \<and> bt_get files ''resolved_experiment.json'' \<noteq> None \<and>
    (\<forall>e \<in> set (fs_walk (pk_fs env) f dir).
       verify_sealed_entry dir (package_metadata_paths (pk_externs env) manifest) files e = Ok ()) \<and>
    pointer_str (pk_externs env) manifest ''/package_digest'' = Some (json_digest (pk_externs env) (JObject files)) \<and>
    verify_resolved_experiment env f dir manifest = Ok (vp_resolved_experiment v)"
proof -
  obtain checksums files where 1: "verify_checksums env f dir manifest = Ok (checksums, files)"
    and 2: "verify_no_unsealed_package_payload_entries env f dir manifest files = Ok ()"
    and 3: "\<exists>digest. verify_package_digest env f dir manifest files = Ok digest"
    and 4: "verify_resolved_experiment env f dir manifest = Ok (vp_resolved_experiment v)" "vp_checksums v = checksums"
    using assms by (auto simp: verify_sealed_package_integrity_snapshot_def Let_def result_iffs)
  from 1 have "checksum_files (pk_externs env) checksums = Some files"
      "\<forall>e \<in> set files. verify_checksum_entry env f dir e = Ok ()" "bt_get files ''resolved_experiment.json'' \<noteq> None"
    by (auto simp: verify_checksums_def checksum_files_def Let_def result_iffs)
  moreover from 3 have "pointer_str (pk_externs env) manifest ''/package_digest'' = Some (json_digest (pk_externs env) (JObject files))"
    by (auto simp: verify_package_digest_def Let_def result_iffs)
  moreover from 2 have "\<forall>e \<in> set (fs_walk (pk_fs env) f dir).
      verify_sealed_entry dir (package_metadata_paths (pk_externs env) manifest) files e = Ok ()"
    by (simp add: verify_no_unsealed_package_payload_entries_def Let_def)
  ultimately show ?thesis using 4 by auto
qed

text \<open>The experiment is parsed from the file of the package.\<close>

lemma resolved_experiment_path: "\<exists>p. package_path dir ''resolved_experiment.json'' = p @ [Normal ''resolved_experiment.json'']"
proof -
  have "path_components (trim ''resolved_experiment.json'') = [Normal ''resolved_experiment.json'']" by code_simp
  then show ?thesis by (auto simp: package_path_def path_join_def is_absolute_def normalize_path_def)
qed

lemma resolved_experiment_parsed:
  assumes "verify_resolved_experiment env f dir manifest = Ok value"
  shows "Option.bind (fs_read (pk_fs env) f (package_path dir ''resolved_experiment.json'')) (pk_parse env) = Some value"
proof -
  obtain p where res: "resolve_package_path_under_root env f dir ''resolved_experiment.json'' ''checksums.files'' = Ok p"
    and load: "load_json_file env f p = Ok value"
    using assms by (auto simp: verify_resolved_experiment_def Let_def result_iffs)
  have p: "p = package_path dir ''resolved_experiment.json''" by (rule resolve_Ok [OF res])
  obtain q where "package_path dir ''resolved_experiment.json'' = q @ [Normal ''resolved_experiment.json'']"
    using resolved_experiment_path by blast
  then have "path_file_name p = Some ''resolved_experiment.json''" by (simp add: p path_file_name_def)
  with load show ?thesis
    by (auto simp: load_json_file_def runtime_file_names_def p result_iffs split: if_splits)
qed

section \<open>Copying\<close>

text \<open>A payload entry has arrived in the run directory.\<close>

definition run_path :: "path \<Rightarrow> string \<Rightarrow> path" where
  "run_path run_dir rel = normalize_path (path_join run_dir (path_components rel))"

definition payload_arrived :: "'f package_env \<Rightarrow> path \<Rightarrow> 'f \<Rightarrow> string \<times> json \<Rightarrow> bool" where
  "payload_arrived env run_dir f = (\<lambda>(rel, d).
     path_starts_with (normalize_path run_dir) (run_path run_dir rel) \<and>
     (\<exists>expected c. d = JString expected \<and> fs_read (pk_fs env) f (run_path run_dir rel) = Some c \<and>
        eq_ignore_ascii_case expected (file_digest (pk_externs env) c)))"

lemma payload_arrived_keeps:
  "payload_arrived env run_dir f e \<Longrightarrow> keeps_files (pk_fs env) f f' \<Longrightarrow> payload_arrived env run_dir f' e"
  by (auto simp: payload_arrived_def dest: keeps_filesD split: prod.splits)

text \<open>Looking changes nothing, and what is written keeps the files there are.\<close>

lemma look_outcome [simp]: "look m f = (r, f') \<longleftrightarrow> r = m f \<and> f' = f"
  by (auto simp: look_def)

lemma obind_look: "obind (look m) g f = (case m f of Inl e \<Rightarrow> (Inl e, f) | Inr x \<Rightarrow> g x f)"
  by (simp add: obind_def look_def)

lemma obind_olift: "obind (olift r) g f = (case r of Inl e \<Rightarrow> (Inl e, f) | Inr x \<Rightarrow> g x f)"
  by (simp add: obind_def olift_def)

lemma prepare_parent_keeps:
  assumes "copying_laws fs"
  shows "keeps_files fs f (snd (prepare_parent fs run_dir rel d f))"
proof (cases "path_parent d")
  case None
  then show ?thesis by (simp add: prepare_parent_def oreturn_def)
next
  case (Some parent)
  obtain ok g where g: "fs_create_dir_all fs f parent = (ok, g)" by (cases "fs_create_dir_all fs f parent")
  have "snd (prepare_parent fs run_dir rel d f) = g"
    by (auto simp: prepare_parent_def Some obind_def fs_call_def g ensure_def look_def olift_def split: sum.splits)
  then show ?thesis using copying_lawsD(1) [OF assms g] by simp
qed

lemma copy_call_keeps:
  assumes "copying_laws fs" "require_free_destination fs rel d f = Ok ()"
  shows "keeps_files fs f (snd (fs_call e (\<lambda>f. fs_copy fs f s d) f))"
proof -
  have "fs_symlink_metadata fs f d = NotFound"
    using assms(2) by (auto simp: require_free_destination_def split: stat.splits)
  moreover obtain ok g where g: "fs_copy fs f s d = (ok, g)" by (cases "fs_copy fs f s d")
  ultimately show ?thesis using copying_lawsD(2) [OF assms(1)] by (simp add: fs_call_def)
qed

lemma write_payload_outcome:
  assumes laws: "copying_laws (pk_fs env)" and copy: "write_payload env run_dir rel expected source to f = (r, f')"
  shows "keeps_files (pk_fs env) f f' \<and>
    (r = Ok () \<longrightarrow> (\<exists>actual. sha256_file env f' to = Ok actual \<and> eq_ignore_ascii_case expected actual))"
proof -
  let ?fs = "pk_fs env"
  obtain r1 f1 where 1: "prepare_parent ?fs run_dir rel to f = (r1, f1)" by (cases "prepare_parent ?fs run_dir rel to f")
  with prepare_parent_keeps [OF laws, of f run_dir rel to] have k1: "keeps_files ?fs f f1" by simp
  obtain r2 f2 where 2: "fs_call (CopyFault rel) (\<lambda>f. fs_copy ?fs f source to) f1 = (r2, f2)"
    by (cases "fs_call (CopyFault rel) (\<lambda>f. fs_copy ?fs f source to) f1")
  show ?thesis
  proof (cases "r1 = Ok () \<and> require_free_destination ?fs rel to f1 = Ok ()")
    case False
    then have "f' = f1" "r \<noteq> Ok ()"
      using copy 1 by (auto simp: write_payload_def Let_def obind_def look_def split: sum.splits)
    with k1 show ?thesis by simp
  next
    case True
    with copy_call_keeps [OF laws, of rel to f1 "CopyFault rel" source] 2 have "keeps_files ?fs f1 f2" by simp
    with k1 have k2: "keeps_files ?fs f f2" by (rule keeps_files_trans)
    have "f' = f2" "r = Ok () \<Longrightarrow> \<exists>actual. sha256_file env f2 to = Ok actual \<and> eq_ignore_ascii_case expected actual"
      using copy 1 2 True
      by (auto simp: write_payload_def Let_def obind_def look_def olift_def ensure_def split: sum.splits if_splits)
    with k2 show ?thesis by simp
  qed
qed

lemma copy_payload_entry_eq:
  assumes "checksum_entry_is_run_payload rel"
  shows "copy_payload_entry env package_dir run_dir (rel, d) f =
    (case as_str d of
       None \<Rightarrow> (Err (ChecksumNotString rel), f)
     | Some expected \<Rightarrow>
         (case resolve_package_path_under_root env f package_dir rel ''checksums.files'' of
            Inl e \<Rightarrow> (Inl e, f)
          | Inr source \<Rightarrow>
              (case require_regular_source (pk_fs env) rel source f of
                 Inl e \<Rightarrow> (Inl e, f)
               | Inr _ \<Rightarrow>
                   if path_starts_with (normalize_path run_dir) (run_path run_dir rel)
                   then write_payload env run_dir rel expected source (run_path run_dir rel) f
                   else (Err (OutsideRunDir rel), f))))"
  using assms
  by (simp add: copy_payload_entry_def run_path_def Let_def obind_olift obind_look ok_or_def ensure_def
      split: option.split sum.split)

lemma copy_payload_entry_outcome:
  assumes laws: "copying_laws (pk_fs env)" and copy: "copy_payload_entry env package_dir run_dir (rel, d) f = (r, f')"
  shows "keeps_files (pk_fs env) f f' \<and>
    (r = Ok () \<longrightarrow> checksum_entry_is_run_payload rel \<longrightarrow> payload_arrived env run_dir f' (rel, d))"
proof (cases "checksum_entry_is_run_payload rel")
  case False
  with copy show ?thesis by (simp add: copy_payload_entry_def oreturn_def)
next
  case payload: True
  let ?to = "run_path run_dir rel"
  consider (early) "f' = f" "r \<noteq> Ok ()"
    | (copying) expected source where "d = JString expected" "path_starts_with (normalize_path run_dir) ?to"
        "write_payload env run_dir rel expected source ?to f = (r, f')"
  proof (cases "as_str d")
    case None
    with copy copy_payload_entry_eq [OF payload, of env package_dir run_dir d f] early show thesis by auto
  next
    case (Some expected)
    then have d: "d = JString expected" by (cases d) simp_all
    show thesis
    proof (cases "resolve_package_path_under_root env f package_dir rel ''checksums.files''")
      case (Inl e)
      with copy copy_payload_entry_eq [OF payload, of env package_dir run_dir d f] Some early show thesis by auto
    next
      case (Inr source)
      with copy copy_payload_entry_eq [OF payload, of env package_dir run_dir d f] Some
      have eq: "(case require_regular_source (pk_fs env) rel source f of
          Inl e \<Rightarrow> (Inl e, f)
        | Inr _ \<Rightarrow> if path_starts_with (normalize_path run_dir) ?to then write_payload env run_dir rel expected source ?to f
                  else (Err (OutsideRunDir rel), f)) = (r, f')" by simp
      show thesis
      proof (cases "require_regular_source (pk_fs env) rel source f")
        case (Inl e)
        with eq have "f' = f" "r = Inl e" by simp_all
        then show thesis by (intro early) simp_all
      next
        case (Inr u)
        show thesis
        proof (cases "path_starts_with (normalize_path run_dir) ?to")
          case True
          with eq Inr have "write_payload env run_dir rel expected source ?to f = (r, f')" by simp
          with True show thesis by (intro copying [OF d])
        next
          case False
          with eq Inr have "f' = f" "r = Err (OutsideRunDir rel)" by simp_all
          then show thesis by (intro early) simp_all
        qed
      qed
    qed
  qed
  then show ?thesis
  proof cases
    case early
    then show ?thesis by simp
  next
    case copying
    with write_payload_outcome [OF laws copying(3)] show ?thesis by (auto simp: payload_arrived_def sha256_file_Ok)
  qed
qed

lemma copy_entries_outcome:
  assumes laws: "copying_laws (pk_fs env)" and "oforeach entries (copy_payload_entry env package_dir run_dir) f = (r, f')"
  shows "keeps_files (pk_fs env) f f' \<and>
    (r = Ok () \<longrightarrow> (\<forall>(rel, d) \<in> set entries. checksum_entry_is_run_payload rel \<longrightarrow> payload_arrived env run_dir f' (rel, d)))"
  using assms(2)
proof (induction entries arbitrary: f)
  case Nil
  then show ?case by (simp add: oreturn_def)
next
  case (Cons e entries)
  obtain rel d where e: "e = (rel, d)" by (cases e)
  obtain r1 f1 where 1: "copy_payload_entry env package_dir run_dir (rel, d) f = (r1, f1)"
    by (cases "copy_payload_entry env package_dir run_dir (rel, d) f")
  note first = copy_payload_entry_outcome [OF laws 1]
  show ?case
  proof (cases r1)
    case (Inl err)
    with Cons.prems 1 first show ?thesis by (auto simp: e obind_def)
  next
    case (Inr u)
    with Cons.prems 1 have "oforeach entries (copy_payload_entry env package_dir run_dir) f1 = (r, f')" by (simp add: e obind_def)
    note rest = Cons.IH [OF this]
    have "payload_arrived env run_dir f' (rel, d)" if "checksum_entry_is_run_payload rel"
    proof (rule payload_arrived_keeps)
      show "payload_arrived env run_dir f1 (rel, d)" using first that Inr by (cases u) simp
      show "keeps_files (pk_fs env) f1 f'" using rest by (rule conjunct1)
    qed
    moreover have "keeps_files (pk_fs env) f f'" by (rule keeps_files_trans [OF conjunct1 [OF first] conjunct1 [OF rest]])
    ultimately show ?thesis using rest by (auto simp: e)
  qed
qed

lemma copy_lock_keeps:
  assumes laws: "copying_laws (pk_fs env)" and copy: "copy_verified_package_lock_for_run env package_dir run_dir f = (r, f')"
  shows "keeps_files (pk_fs env) f f'"
proof -
  let ?to = "run_dir @ [Normal ''package.lock'']" and ?from = "package_dir @ [Normal ''package.lock'']"
  let ?copy = "fs_call (CopyFault ''package.lock'') (\<lambda>f. fs_copy (pk_fs env) f ?from ?to)"
  show ?thesis
  proof (cases "require_free_destination (pk_fs env) ''package.lock'' ?to f")
    case (Inl e)
    with copy show ?thesis by (simp add: copy_verified_package_lock_for_run_def Let_def obind_look)
  next
    case (Inr u)
    obtain r2 f2 where 2: "?copy f = (r2, f2)" by (cases "?copy f")
    have "f' = f2" using copy Inr 2
      by (auto simp: copy_verified_package_lock_for_run_def Let_def obind_def look_def olift_def split: sum.splits)
    with copy_call_keeps [OF laws, of "''package.lock''" ?to f "CopyFault ''package.lock''" ?from] Inr 2 show ?thesis by simp
  qed
qed

lemma lock_arrived:
  assumes "copy_verified_package_lock_for_run env package_dir run_dir f = (r, f')" "r = Ok ()"
  shows "\<exists>digest. sha256_file env f' (package_dir @ [Normal ''package.lock'']) = Ok digest \<and>
    sha256_file env f' (run_dir @ [Normal ''package.lock'']) = Ok digest"
  using assms
  by (auto simp: copy_verified_package_lock_for_run_def Let_def obind_def [of "fs_call _ _"] obind_look obind_olift ensure_def
      split: sum.splits prod.splits if_splits)
    (auto simp: olift_def split: if_splits)

section \<open>A sample package\<close>

text \<open>A file system of regular files, whose directories are all there.\<close>

definition sample_fs :: "(path \<times> string) list file_system" where
  "sample_fs =
     \<lparr>fs_canonicalize = (\<lambda>f p. Some p),
      fs_metadata = (\<lambda>f p. case map_of f p of None \<Rightarrow> NotFound | Some c \<Rightarrow> Found (RegularFile, length c)),
      fs_symlink_metadata = (\<lambda>f p. case map_of f p of None \<Rightarrow> NotFound | Some c \<Rightarrow> Found RegularFile),
      fs_read = map_of,
      fs_walk = (\<lambda>f root. map (\<lambda>(p, _). Some (p, RegularFile)) (filter (\<lambda>(p, _). path_starts_with root p) f)),
      fs_create_dir_all = (\<lambda>f p. (True, f)),
      fs_copy = (\<lambda>f s d. case map_of f s of None \<Rightarrow> (False, f) | Some c \<Rightarrow> (True, (d, c) # f))\<rparr>"

lemma sample_fs_laws: "copying_laws sample_fs"
  by (auto simp: copying_laws_def sample_fs_def split: option.splits)

definition sample_files :: "(string, json) btree" where
  "sample_files = [(''resolved_experiment.json'', JString ''sha256:0r''), (''staging_manifest.json'', JString ''sha256:0S''),
     (''tasks/t'', JString ''sha256:0t'')]"

definition sample_sealed_manifest :: "string \<Rightarrow> json" where
  "sample_sealed_manifest created_at = JObject [(''checksums_ref'', JString ''checksums.json''), (''created_at'', JString created_at),
     (''package_checks_ref'', JString ''package_checks.json''), (''package_digest'', JString ''sha256:00''),
     (''resolved_experiment'', JNull), (''schema_version'', JString ''sealed_run_package_v2'')]"

definition sample_report :: json where
  "sample_report = JObject [(''checks'', JArray []), (''package_digest'', JString ''sha256:00''), (''passed'', JBool True),
     (''schema_version'', JString ''package_checks_v1''),
     (''summary'', JObject [(''checks'', JNumber (PosInt 0)), (''failed'', JNumber (PosInt 0)), (''warnings'', JNumber (PosInt 0))])]"

definition sample_package_env :: "(path \<times> string) list package_env" where
  "sample_package_env =
     \<lparr>pk_fs = sample_fs,
      pk_parse = map_of [(''m'', sample_sealed_manifest ''1''), (''n'', sample_sealed_manifest ''2''),
        (''c'', JObject [(''files'', JObject sample_files), (''schema_version'', JString ''sealed_package_checksums_v2'')]),
        (''l'', JObject [(''package_digest'', JString ''sha256:00'')]), (''p'', sample_report), (''r'', JNull), (''s'', JNull)],
      pk_parse_pointer = (\<lambda>_. None), pk_contract = (\<lambda>_ _. True),
      pk_externs = sample_externs\<lparr>ex_sha256_hex := (\<lambda>s. if s \<in> {''r'', ''s'', ''t''} then ''0'' @ s else ''00'')\<rparr>,
      pk_runtime_json = (\<lambda>_ _ _. None)\<rparr>"

definition sample_package :: "path \<Rightarrow> string \<Rightarrow> (path \<times> string) list" where
  "sample_package dir manifest =
     [(dir @ [Normal ''manifest.json''], manifest), (dir @ [Normal ''checksums.json''], ''c''), (dir @ [Normal ''package.lock''], ''l''),
      (dir @ [Normal ''package_checks.json''], ''p''), (dir @ [Normal ''resolved_experiment.json''], ''r''),
      (dir @ [Normal ''staging_manifest.json''], ''s''), (dir @ [Normal ''tasks'', Normal ''t''], ''t'')]"

lemma sample_verifies:
  "verify_sealed_package_integrity_snapshot sample_package_env (sample_package [RootDir, Normal ''a''] ''m'') [RootDir, Normal ''a'']
     (sample_sealed_manifest ''1'') =
   Ok \<lparr>vp_resolved_experiment = JNull,
       vp_checksums = JObject [(''files'', JObject sample_files), (''schema_version'', JString ''sealed_package_checksums_v2'')]\<rparr>"
  "verify_sealed_package_integrity_snapshot sample_package_env (sample_package [RootDir, Normal ''b''] ''n'') [RootDir, Normal ''b'']
     (sample_sealed_manifest ''2'') =
   Ok \<lparr>vp_resolved_experiment = JNull,
       vp_checksums = JObject [(''files'', JObject sample_files), (''schema_version'', JString ''sealed_package_checksums_v2'')]\<rparr>"
  by code_simp+

section \<open>What the digest of a package determines\<close>

text \<open>The texts whose digests the verification compares: the list of checksums and the listed files.\<close>

definition package_texts :: "'f package_env \<Rightarrow> 'f \<Rightarrow> path \<Rightarrow> (string, json) btree \<Rightarrow> string set" where
  "package_texts env f dir files =
     insert (canonical_json (ex_quote (pk_externs env)) (ex_show_float (pk_externs env)) (JObject files))
       (set (List.map_filter (\<lambda>(rel, _). fs_read (pk_fs env) f (package_path dir rel)) files))"

lemma package_texts_file:
  "(rel, d) \<in> set files \<Longrightarrow> fs_read (pk_fs env) f (package_path dir rel) = Some c \<Longrightarrow> c \<in> package_texts env f dir files"
  by (force simp: package_texts_def map_filter_def)

lemma json_digest_pins:
  assumes "quote_laws (ex_quote ex)" "float_laws (ex_show_float ex)" "json_wf v" "json_wf v'" "json_digest ex v = json_digest ex v'"
    "inj_on (ex_sha256_hex ex) A" "canonical_json (ex_quote ex) (ex_show_float ex) v \<in> A"
    "canonical_json (ex_quote ex) (ex_show_float ex) v' \<in> A"
  shows "v = v'"
proof -
  have "ex_sha256_hex ex (canonical_json (ex_quote ex) (ex_show_float ex) v) =
      ex_sha256_hex ex (canonical_json (ex_quote ex) (ex_show_float ex) v')"
    using assms(5) by (simp add: json_digest_def canonical_json_digest_def sha256_bytes_def)
  then have "canonical_json (ex_quote ex) (ex_show_float ex) v = canonical_json (ex_quote ex) (ex_show_float ex) v'"
    by (rule inj_onD [OF assms(6) _ assms(7,8)])
  then show ?thesis using canonical_json_prefix [OF assms(1-4), of "[]" "[]"] by (simp add: closes_def)
qed

lemma file_digest_pins:
  assumes "eq_ignore_ascii_case expected (file_digest ex c)" "eq_ignore_ascii_case expected (file_digest ex c')"
    "\<forall>x. no_upper (ex_sha256_hex ex x)" "inj_on (ex_sha256_hex ex) A" "c \<in> A" "c' \<in> A"
  shows "c = c'"
proof -
  have "no_upper (file_digest ex x)" for x
    using assms(3) by (simp add: file_digest_def sha256_bytes_def) (simp add: no_upper_def to_ascii_lowercase_def to_ascii_lower_def)
  then have "file_digest ex c = file_digest ex c'"
    using assms(1,2) by (intro eq_ignore_ascii_case_no_upper) (metis eq_ignore_ascii_case_def)+
  then have "ex_sha256_hex ex c = ex_sha256_hex ex c'" by (simp add: file_digest_def sha256_bytes_def)
  then show ?thesis by (rule inj_onD [OF assms(4) _ assms(5,6)])
qed

text \<open>
  C36: The package digest pins what a run executes. When two packages, in two directories and file systems, pass the
  verification and state the same \<open>package_digest\<close>, then they list the same files with the same checksums, every listed
  file has the same contents in both, and the resolved experiments are equal, provided that SHA-256 does not collide on
  the texts in question and its hexadecimal digests have no upper-case letters.
\<close>

theorem package_digest_pins_contents:
  assumes q: "quote_laws (ex_quote (pk_externs env))" and fl: "float_laws (ex_show_float (pk_externs env))"
    and v1: "verify_sealed_package_integrity_snapshot env f1 dir1 manifest1 = Ok v1"
    and v2: "verify_sealed_package_integrity_snapshot env f2 dir2 manifest2 = Ok v2"
    and digest: "pointer_str (pk_externs env) manifest1 ''/package_digest'' = pointer_str (pk_externs env) manifest2 ''/package_digest''"
    and files1: "checksum_files (pk_externs env) (vp_checksums v1) = Some files1" "json_wf (JObject files1)"
    and files2: "checksum_files (pk_externs env) (vp_checksums v2) = Some files2" "json_wf (JObject files2)"
    and lower: "\<forall>x. no_upper (ex_sha256_hex (pk_externs env) x)"
    and inj: "inj_on (ex_sha256_hex (pk_externs env)) (package_texts env f1 dir1 files1 \<union> package_texts env f2 dir2 files2)"
  shows "files1 = files2 \<and> vp_resolved_experiment v1 = vp_resolved_experiment v2 \<and>
    (\<forall>rel \<in> set (bt_keys files1). \<exists>c. fs_read (pk_fs env) f1 (package_path dir1 rel) = Some c \<and>
       fs_read (pk_fs env) f2 (package_path dir2 rel) = Some c)"
proof -
  note ok1 = verify_snapshot_Ok [OF v1, unfolded files1(1) option.inject simp_thms ex_simps]
  note ok2 = verify_snapshot_Ok [OF v2, unfolded files2(1) option.inject simp_thms ex_simps]
  have "json_digest (pk_externs env) (JObject files1) = json_digest (pk_externs env) (JObject files2)"
    using ok1 ok2 digest by simp
  then have files: "files2 = files1"
    using json_digest_pins [OF q fl files1(2) files2(2) _ inj] by (simp add: package_texts_def)
  have same: "\<exists>c. fs_read (pk_fs env) f1 (package_path dir1 rel) = Some c \<and> fs_read (pk_fs env) f2 (package_path dir2 rel) = Some c"
    if listed: "(rel, d) \<in> set files1" for rel d
  proof -
    have "verify_checksum_entry env f1 dir1 (rel, d) = Ok ()" "verify_checksum_entry env f2 dir2 (rel, d) = Ok ()"
      using ok1 ok2 listed files by simp_all
    then obtain e c c' where c: "d = JString e" "fs_read (pk_fs env) f1 (package_path dir1 rel) = Some c"
        "eq_ignore_ascii_case e (file_digest (pk_externs env) c)"
      and c': "fs_read (pk_fs env) f2 (package_path dir2 rel) = Some c'" "eq_ignore_ascii_case e (file_digest (pk_externs env) c')"
      by (auto dest!: checksum_entry_Ok)
    have "c = c'"
      using package_texts_file [OF listed c(2)] package_texts_file [OF listed c'(1)] files
      by (intro file_digest_pins [OF c(3) c'(2) lower inj]) simp_all
    with c(2) c'(1) show ?thesis by simp
  qed
  obtain d where "(''resolved_experiment.json'', d) \<in> set files1"
    using ok1 by (auto simp: bt_get_def dest: map_of_SomeD)
  from same [OF this] resolved_experiment_parsed [of env f1 dir1 manifest1] resolved_experiment_parsed [of env f2 dir2 manifest2] ok1 ok2
  have "vp_resolved_experiment v1 = vp_resolved_experiment v2" by auto
  with files same show ?thesis by (auto simp: bt_keys_def)
qed

theorem package_digest_pins_contents_witness:
  "\<exists>c. fs_read sample_fs (sample_package [RootDir, Normal ''a''] ''m'') (package_path [RootDir, Normal ''a''] ''tasks/t'') = Some c \<and>
     fs_read sample_fs (sample_package [RootDir, Normal ''b''] ''n'') (package_path [RootDir, Normal ''b''] ''tasks/t'') = Some c"
proof -
  let ?sha = "ex_sha256_hex (pk_externs sample_package_env)"
  let ?texts = "\<lambda>dir m. package_texts sample_package_env (sample_package dir m) dir sample_files"
  have texts: "?texts [RootDir, Normal ''a''] ''m'' \<union> ?texts [RootDir, Normal ''b''] ''n'' \<subseteq>
      {canonical_json sample_quote sample_show_float (JObject sample_files), ''r'', ''s'', ''t''}"
    by code_simp
  have "inj_on ?sha {canonical_json sample_quote sample_show_float (JObject sample_files), ''r'', ''s'', ''t''}"
    by (simp add: sample_package_env_def sample_files_def)
  then have inj: "inj_on ?sha (?texts [RootDir, Normal ''a''] ''m'' \<union> ?texts [RootDir, Normal ''b''] ''n'')"
    by (rule inj_on_subset [OF _ texts])
  have lower: "\<forall>x. no_upper (?sha x)"
    by (simp add: sample_package_env_def no_upper_def to_ascii_lowercase_def to_ascii_lower_def)
  have files: "json_wf (JObject sample_files)" by (simp add: sample_files_def bt_wf_def)
  have fs: "pk_fs sample_package_env = sample_fs" by (simp add: sample_package_env_def)
  note pins = package_digest_pins_contents [OF _ _ sample_verifies _ _ files _ files lower inj, unfolded fs]
  show ?thesis
    by (rule pins [THEN conjunct2, THEN conjunct2, rule_format])
      (simp add: sample_package_env_def sample_externs_def sample_quote_laws sample_float_laws checksum_files_def
         sample_pointer_def split_on_plain sample_files_def bt_keys_def; code_simp?)+
qed

section \<open>What a copy guarantees\<close>

text \<open>
  C37: Preparing a run directory loses no file, whatever the outcome: every file that could be read before can be read
  afterwards and is the same. When it succeeds, the package had passed the verification, every payload file of its checksum
  list is below the run directory and has the listed digest, and the lock file has the digest of the package's lock file.
\<close>

theorem copy_payload_verified:
  assumes laws: "copying_laws (pk_fs env)" and copy: "copy_verified_package_payload_for_run env package_dir run_dir f = (r, f')"
  shows "keeps_files (pk_fs env) f f' \<and>
    (r = Ok () \<longrightarrow> (\<exists>manifest v files.
       load_json_file env f (package_dir @ [Normal ''manifest.json'']) = Ok manifest \<and>
       verify_sealed_package_integrity_snapshot env f package_dir manifest = Ok v \<and>
       checksum_files (pk_externs env) (vp_checksums v) = Some files \<and>
       (\<forall>(rel, d) \<in> set files. checksum_entry_is_run_payload rel \<longrightarrow> payload_arrived env run_dir f' (rel, d))) \<and>
     (\<exists>digest. sha256_file env f' (package_dir @ [Normal ''package.lock'']) = Ok digest \<and>
       sha256_file env f' (run_dir @ [Normal ''package.lock'']) = Ok digest))"
proof (cases "\<exists>manifest v files. load_json_file env f (package_dir @ [Normal ''manifest.json'']) = Ok manifest \<and>
    verify_sealed_package_integrity_snapshot env f package_dir manifest = Ok v \<and>
    checksum_files (pk_externs env) (vp_checksums v) = Some files")
  case False
  with copy have "f' = f" "r \<noteq> Ok ()"
    by (auto simp: copy_verified_package_payload_for_run_def obind_look obind_olift checksum_files_def ok_or_def
        split: sum.splits option.splits)
  then show ?thesis by simp
next
  case True
  then obtain manifest v files where verified: "load_json_file env f (package_dir @ [Normal ''manifest.json'']) = Ok manifest"
      "verify_sealed_package_integrity_snapshot env f package_dir manifest = Ok v"
      "checksum_files (pk_externs env) (vp_checksums v) = Some files" by blast
  obtain r1 f1 where 1: "oforeach files (copy_payload_entry env package_dir run_dir) f = (r1, f1)"
    by (cases "oforeach files (copy_payload_entry env package_dir run_dir) f")
  note entries = copy_entries_outcome [OF laws 1]
  have copied: "(case r1 of Inl e \<Rightarrow> (Inl e, f1) | Inr _ \<Rightarrow> copy_verified_package_lock_for_run env package_dir run_dir f1) = (r, f')"
    using copy verified 1
    by (simp add: copy_verified_package_payload_for_run_def obind_look obind_olift checksum_files_def ok_or_def)
      (simp add: obind_def)
  show ?thesis
  proof (cases r1)
    case (Inl e)
    with copied entries show ?thesis by auto
  next
    case (Inr u)
    with copied have lock: "copy_verified_package_lock_for_run env package_dir run_dir f1 = (r, f')" by simp
    note keeps = copy_lock_keeps [OF laws lock]
    have "keeps_files (pk_fs env) f f'" by (rule keeps_files_trans [OF conjunct1 [OF entries] keeps])
    moreover have "\<forall>(rel, d) \<in> set files. checksum_entry_is_run_payload rel \<longrightarrow> payload_arrived env run_dir f' (rel, d)"
      using entries Inr payload_arrived_keeps [OF _ keeps] by fastforce
    ultimately show ?thesis using verified lock_arrived [OF lock] by blast
  qed
qed

theorem copy_payload_verified_witness:
  "\<exists>f'. copy_verified_package_payload_for_run sample_package_env [RootDir, Normal ''a''] [RootDir, Normal ''run'']
      (sample_package [RootDir, Normal ''a''] ''m'') = (Ok (), f') \<and>
    keeps_files sample_fs (sample_package [RootDir, Normal ''a''] ''m'') f' \<and>
    (\<exists>digest. sha256_file sample_package_env f' [RootDir, Normal ''run'', Normal ''package.lock''] = Ok digest)"
proof -
  have f': "copy_verified_package_payload_for_run sample_package_env [RootDir, Normal ''a''] [RootDir, Normal ''run'']
      (sample_package [RootDir, Normal ''a''] ''m'') =
    (Ok (), [([RootDir, Normal ''run'', Normal ''package.lock''], ''l''), ([RootDir, Normal ''run'', Normal ''tasks'', Normal ''t''], ''t''),
      ([RootDir, Normal ''run'', Normal ''staging_manifest.json''], ''s'')] @ sample_package [RootDir, Normal ''a''] ''m'')"
    by code_simp
  have fs: "pk_fs sample_package_env = sample_fs" by (simp add: sample_package_env_def)
  then have laws: "copying_laws (pk_fs sample_package_env)" by (simp add: sample_fs_laws)
  show ?thesis using copy_payload_verified [OF laws f'] f' fs by auto
qed

section \<open>What the walk over a package finds\<close>

text \<open>
  C38: A verified package holds nothing that its metadata does not account for. Every entry that the walk yields is below
  the package directory and is a directory or a regular file; a regular file is one of the metadata files or has a
  checksum, and where the listed name leads back to the file itself, its contents have that checksum.
\<close>

theorem walked_files_verified:
  assumes v: "verify_sealed_package_integrity_snapshot env f dir manifest = Ok v"
    and files: "checksum_files (pk_externs env) (vp_checksums v) = Some files"
    and walked: "entry \<in> set (fs_walk (pk_fs env) f dir)"
  shows "\<exists>p kind. entry = Some (p, kind) \<and> path_starts_with dir p \<and>
    (let rel = as_portable_rel (drop (length dir) p) in
     rel \<noteq> [] \<longrightarrow> kind = Directory \<or>
     kind = RegularFile \<and>
     (rel \<in> package_metadata_paths (pk_externs env) manifest \<or>
      (\<exists>expected. bt_get files rel = Some (JString expected) \<and>
        (package_path dir rel = p \<longrightarrow>
           (\<exists>c. fs_read (pk_fs env) f p = Some c \<and> eq_ignore_ascii_case expected (file_digest (pk_externs env) c))))))"
proof -
  note ok = verify_snapshot_Ok [OF v, unfolded files option.inject simp_thms ex_simps]
  then have entry: "verify_sealed_entry dir (package_metadata_paths (pk_externs env) manifest) files entry = Ok ()"
    using walked by blast
  then obtain p kind where p: "entry = Some (p, kind)" "path_starts_with dir p"
    by (auto simp: verify_sealed_entry_def package_relative_path_def result_iffs split: if_splits)
  let ?rel = "as_portable_rel (drop (length dir) p)"
  have kinds: "?rel \<noteq> [] \<Longrightarrow> kind \<noteq> Directory \<Longrightarrow> kind = RegularFile \<and>
      (?rel \<in> package_metadata_paths (pk_externs env) manifest \<or> bt_get files ?rel \<noteq> None)"
    using entry p by (auto simp: verify_sealed_entry_def package_relative_path_def split: if_splits)
  have "\<exists>expected. d = JString expected \<and> (package_path dir ?rel = p \<longrightarrow>
      (\<exists>c. fs_read (pk_fs env) f p = Some c \<and> eq_ignore_ascii_case expected (file_digest (pk_externs env) c)))"
    if "bt_get files ?rel = Some d" for d
  proof -
    from that have "(?rel, d) \<in> set files" by (auto simp: bt_get_def dest: map_of_SomeD)
    with ok have "verify_checksum_entry env f dir (?rel, d) = Ok ()" by blast
    from checksum_entry_Ok [OF this] show ?thesis by auto
  qed
  with kinds have "?rel \<noteq> [] \<Longrightarrow> kind \<noteq> Directory \<Longrightarrow> kind = RegularFile \<and>
     (?rel \<in> package_metadata_paths (pk_externs env) manifest \<or>
      (\<exists>expected. bt_get files ?rel = Some (JString expected) \<and>
        (package_path dir ?rel = p \<longrightarrow>
           (\<exists>c. fs_read (pk_fs env) f p = Some c \<and> eq_ignore_ascii_case expected (file_digest (pk_externs env) c)))))"
    by (cases "bt_get files ?rel") auto
  with p show ?thesis by (auto simp: Let_def)
qed

theorem walked_files_verified_witness:
  "(\<exists>expected. bt_get sample_files ''tasks/t'' = Some (JString expected) \<and>
     eq_ignore_ascii_case expected (file_digest (pk_externs sample_package_env) ''t''))"
proof -
  let ?p = "[RootDir, Normal ''a'', Normal ''tasks'', Normal ''t'']"
  have rel: "as_portable_rel [Normal ''tasks'', Normal ''t''] = ''tasks/t''" by code_simp
  have walked: "Some (?p, RegularFile) \<in> set (fs_walk (pk_fs sample_package_env) (sample_package [RootDir, Normal ''a''] ''m'')
      [RootDir, Normal ''a''])" by code_simp
  have files: "checksum_files (pk_externs sample_package_env)
      (JObject [(''files'', JObject sample_files), (''schema_version'', JString ''sealed_package_checksums_v2'')]) = Some sample_files"
    by code_simp
  have "''tasks/t'' \<notin> package_metadata_paths (pk_externs sample_package_env) (sample_sealed_manifest ''1'')" by code_simp
  moreover have "package_path [RootDir, Normal ''a''] ''tasks/t'' = ?p" by code_simp
  moreover have "fs_read (pk_fs sample_package_env) (sample_package [RootDir, Normal ''a''] ''m'') ?p = Some ''t''" by code_simp
  ultimately show ?thesis
    using walked_files_verified [OF sample_verifies(1), unfolded verified_package_integrity.select_convs, OF files walked]
    by (simp add: rel Let_def)
qed

text \<open>
  Where the listed name does not lead back to the file, nothing is said of its contents: the checksum of a name that ends in a
  space is compared with the file without the space, and the package is accepted whatever the padded file holds.
\<close>

definition sample_padded_env :: "(path \<times> string) list package_env" where
  "sample_padded_env = sample_package_env\<lparr>pk_parse := (pk_parse sample_package_env)(''c'' \<mapsto>
     JObject [(''files'', JObject (sample_files @ [(''tasks/t '', JString ''sha256:0t'')])),
       (''schema_version'', JString ''sealed_package_checksums_v2'')])\<rparr>"

lemma padded_name_unverified:
  "\<forall>c \<in> {''r'', ''changed''}. \<not> isl (verify_sealed_package_integrity_snapshot sample_padded_env
     (([RootDir, Normal ''a'', Normal ''tasks'', Normal ''t ''], c) # sample_package [RootDir, Normal ''a''] ''m'') [RootDir, Normal ''a'']
     (sample_sealed_manifest ''1''))"
  by code_simp

end
