(* ===== verification/Trial_Events.thy ===== *)
theory Trial_Events
  imports Slot_Store Ascii_Text
begin

text \<open>
  Events of a running trial (\<open>trial/events.rs\<close>): the lines that the agent appends to its event file become rows of the
  run store, live while the trial runs and once more with the commit of its slot.
\<close>

section \<open>Rows of an event file\<close>

record trial_row_identity =
  ti_run_id :: string
  ti_trial_id :: string
  ti_schedule_idx :: nat
  ti_variant_id :: string
  ti_task_id :: string
  ti_repl_idx :: nat

datatype event_error =
    EventsNotOpened
  | EventLineUnreadable nat
  | EventTypeMissing nat
  | EventTsMissing nat
  | EventStoreFault store_error

text \<open>A text that is present and not blank, trimmed.\<close>

definition trimmed_text :: "json option \<Rightarrow> string option" where
  "trimmed_text value =
     (case Option.bind value as_str of
        None \<Rightarrow> None | Some s \<Rightarrow> if trim s = [] then None else Some (trim s))"

text \<open>The parser of \<open>serde_json\<close> is a parameter that gives a value or the text of its error.\<close>

definition event_of_line ::
  "(string \<Rightarrow> (string, json) result) \<Rightarrow> nat \<Rightarrow> string \<Rightarrow> (event_error, string \<times> string option \<times> json) result" where
  "event_of_line parse seq trimmed =
     (case parse trimmed of
        Inr payload \<Rightarrow>
          rbind (ok_or (EventTypeMissing (seq + 1)) (trimmed_text (json_get ''event_type'' payload))) (\<lambda>event_type.
          rbind (ok_or (EventTsMissing (seq + 1)) (trimmed_text (json_get ''ts'' payload))) (\<lambda>ts.
          Ok (event_type, Some ts, payload)))
      | Inl err \<Rightarrow>
          Ok (''trajectory_parse_error'', None,
            json_object [(''event_type'', JString ''trajectory_parse_error''), (''error'', JString err),
              (''raw_line'', JString trimmed)]))"

definition event_row_of :: "trial_row_identity \<Rightarrow> nat \<Rightarrow> string \<times> string option \<times> json \<Rightarrow> event_row" where
  "event_row_of identity seq = (\<lambda>(event_type, ts, payload).
     \<lparr>sr_run_id = ti_run_id identity, sr_trial_id = ti_trial_id identity, sr_schedule_idx = ti_schedule_idx identity,
      sr_slot_commit_id = [], sr_attempt = 0, sr_row_seq = seq, er_variant_id = ti_variant_id identity,
      er_task_id = ti_task_id identity, er_repl_idx = ti_repl_idx identity, er_seq = seq, er_event_type = event_type,
      er_ts = ts, er_payload = payload\<rparr>)"

text \<open>A line that cannot be read is \<open>None\<close>; blank lines count but give no row.\<close>

fun event_rows_from ::
  "(string \<Rightarrow> (string, json) result) \<Rightarrow> trial_row_identity \<Rightarrow> nat \<Rightarrow> string option list \<Rightarrow> (event_error, event_row list) result" where
  "event_rows_from parse identity seq [] = Ok []"
| "event_rows_from parse identity seq (None # rest) = Err (EventLineUnreadable seq)"
| "event_rows_from parse identity seq (Some line # rest) =
     (if trim line = [] then event_rows_from parse identity (Suc seq) rest
      else rbind (event_of_line parse seq (trim line)) (\<lambda>event.
        rbind (event_rows_from parse identity (Suc seq) rest) (\<lambda>rows.
        Ok (event_row_of identity seq event # rows))))"

text \<open>An event file that is not there is \<open>None\<close>.\<close>

type_synonym event_file = "string option list option"

definition load_event_rows ::
  "(string \<Rightarrow> (string, json) result) \<Rightarrow> trial_row_identity \<Rightarrow> event_file \<Rightarrow> (event_error, event_row list) result" where
  "load_event_rows parse identity events =
     rbind (ok_or EventsNotOpened events) (event_rows_from parse identity 0)"

section \<open>Live ingestion\<close>

type_synonym 'a event_op = "(run_store, event_error, 'a) op"

definition append_event_rows :: "(db_point \<Rightarrow> bool) \<Rightarrow> event_row list \<Rightarrow> unit event_op" where
  "append_event_rows io rows st =
     (case oforeach rows (upsert_event_record io) st of (r, st') \<Rightarrow> (map_err EventStoreFault r, st'))"

record live_event_ingest_request =
  li_identity :: trial_row_identity
  li_attempt :: nat

definition ingest_new_event_rows ::
  "(db_point \<Rightarrow> bool) \<Rightarrow> (string \<Rightarrow> (string, json) result) \<Rightarrow> live_event_ingest_request \<Rightarrow> event_file \<Rightarrow> nat \<Rightarrow> nat event_op" where
  "ingest_new_event_rows io parse request events next_row_seq =
     (if events = None then oreturn next_row_seq
      else obind (olift (load_event_rows parse (li_identity request) events)) (\<lambda>rows.
        let new_rows = map (\<lambda>row. row\<lparr>sr_attempt := li_attempt request\<rparr>)
              (filter (\<lambda>row. next_row_seq \<le> sr_row_seq row) rows) in
        if new_rows = [] then oreturn next_row_seq
        else obind (append_event_rows io new_rows) (\<lambda>_.
          oreturn (Max (set (map sr_row_seq new_rows)) + 1))))"

text \<open>
  The loop looks at the file again and again, and once more after it has seen the request to stop: \<open>polls\<close> is what it
  finds at each look before, \<open>final\<close> what it finds at the last one.
\<close>

fun live_event_ingest_loop ::
  "(db_point \<Rightarrow> bool) \<Rightarrow> (string \<Rightarrow> (string, json) result) \<Rightarrow> live_event_ingest_request \<Rightarrow> event_file list \<Rightarrow> event_file \<Rightarrow>
    nat \<Rightarrow> nat event_op" where
  "live_event_ingest_loop io parse request [] final next_row_seq = ingest_new_event_rows io parse request final next_row_seq"
| "live_event_ingest_loop io parse request (events # polls) final next_row_seq =
     obind (ingest_new_event_rows io parse request events next_row_seq)
       (live_event_ingest_loop io parse request polls final)"

section \<open>Numbering\<close>

lemma event_row_seq [simp]: "sr_row_seq (event_row_of identity seq e) = seq"
  by (cases e) (simp add: event_row_of_def)

lemma event_row_identity:
  "sr_run_id (event_row_of identity seq e) = ti_run_id identity" "sr_trial_id (event_row_of identity seq e) = ti_trial_id identity"
  "sr_schedule_idx (event_row_of identity seq e) = ti_schedule_idx identity" "sr_slot_commit_id (event_row_of identity seq e) = []"
  by (cases e; simp add: event_row_of_def)+

lemma event_rows_append:
  "event_rows_from parse identity seq (xs @ ys) =
     rbind (event_rows_from parse identity seq xs) (\<lambda>a.
     rbind (event_rows_from parse identity (seq + length xs) ys) (\<lambda>b. Ok (a @ b)))"
proof (induction xs arbitrary: seq)
  case Nil
  show ?case by (cases "event_rows_from parse identity seq ys") simp_all
next
  case (Cons x xs)
  show ?case
  proof (cases x)
    case (Some line)
    show ?thesis
    proof (cases "trim line = []")
      case False
      then show ?thesis
        by (cases "event_of_line parse seq (trim line)"; cases "event_rows_from parse identity (Suc seq) xs";
            cases "event_rows_from parse identity (Suc (seq + length xs)) ys")
          (simp_all add: Some Cons.IH)
    qed (simp add: Some Cons.IH)
  qed simp
qed

lemma event_rows_numbered:
  "event_rows_from parse identity seq lines = Ok rows \<Longrightarrow>
     sorted_wrt (<) (map sr_row_seq rows) \<and> set (map sr_row_seq rows) \<subseteq> {seq..<seq + length lines} \<and>
     (\<forall>row \<in> set rows. sr_run_id row = ti_run_id identity \<and> sr_trial_id row = ti_trial_id identity \<and>
        sr_schedule_idx row = ti_schedule_idx identity \<and> sr_slot_commit_id row = [])"
proof (induction lines arbitrary: seq rows)
  case (Cons x lines)
  then obtain line where x: "x = Some line" by (cases x) simp_all
  show ?case
  proof (cases "trim line = []")
    case True
    with Cons.prems x have "event_rows_from parse identity (Suc seq) lines = Ok rows" by simp
    from Cons.IH [OF this] show ?thesis by fastforce
  next
    case False
    with Cons.prems x obtain e rest where rest: "event_rows_from parse identity (Suc seq) lines = Ok rest"
      and rows: "rows = event_row_of identity seq e # rest" by (auto simp: result_iffs)
    from Cons.IH [OF rest] show ?thesis by (fastforce simp: rows event_row_identity)
  qed
qed simp

section \<open>What live ingestion stores\<close>

definition event_key :: "event_row \<Rightarrow> typed_row_key" where
  "event_key row = (sr_run_id row, sr_trial_id row, sr_schedule_idx row, sr_attempt row, sr_row_seq row)"

definition put_events :: "event_row list \<Rightarrow> (typed_row_key \<rightharpoonup> event_row) \<Rightarrow> (typed_row_key \<rightharpoonup> event_row)" where
  "put_events rows t = fold (\<lambda>row t. t(event_key row \<mapsto> row)) rows t"

definition key_in_range :: "event_row \<Rightarrow> bool" where
  "key_in_range row \<longleftrightarrow> sr_schedule_idx row < 2 ^ 63 \<and> sr_attempt row < 2 ^ 63 \<and> sr_row_seq row < 2 ^ 63"

definition of_attempt :: "nat \<Rightarrow> event_row \<Rightarrow> event_row" where
  "of_attempt attempt row = row\<lparr>sr_attempt := attempt\<rparr>"

lemma put_events_append: "put_events (xs @ ys) t = put_events ys (put_events xs t)"
  by (simp add: put_events_def)

lemma upserts_healthy:
  assumes "\<forall>p. io p" "\<forall>row \<in> set rows. key_in_range row"
  shows "oforeach rows (upsert_event_record io) st = (Ok (), st\<lparr>st_event_rows := put_events rows (st_event_rows st)\<rparr>)"
  using assms(2)
proof (induction rows arbitrary: st)
  case (Cons row rows)
  then have "upsert_event_record io row st = (Ok (), st\<lparr>st_event_rows := (st_event_rows st)(event_key row \<mapsto> row)\<rparr>)"
    by (simp add: upsert_event_record_def typed_row_key_def as_i64_def key_in_range_def event_key_def at_point_def assms(1)
        modify_event_rows_def op_defs)
  with Cons show ?case by (simp add: obind_def put_events_def)
qed (simp add: put_events_def oreturn_def)

lemma filter_split_sorted:
  "sorted_wrt (<) (map f xs) \<Longrightarrow> n \<le> m \<Longrightarrow>
     filter (\<lambda>x. f x < m) xs = filter (\<lambda>x. f x < (n :: nat)) xs @ filter (\<lambda>x. n \<le> f x \<and> f x < m) xs"
proof (induction xs)
  case (Cons x xs)
  show ?case
  proof (cases "f x < n")
    case False
    with Cons.prems have "filter (\<lambda>y. f y < n) xs = []" by (fastforce simp: filter_empty_conv)
    with Cons False show ?thesis by auto
  qed (use Cons in auto)
qed simp

text \<open>One look at a file whose lines are a part of those it will have in the end.\<close>

lemma ingest_step:
  assumes io: "\<forall>p. io p" and final: "load_event_rows parse (li_identity request) (Some lines) = Ok rows"
    and range: "ti_schedule_idx (li_identity request) < 2 ^ 63" "li_attempt request < 2 ^ 63" "length lines \<le> 2 ^ 63"
    and seen: "events = None \<or> (\<exists>more. lines = the events @ more)"
    and table: "st_event_rows st = put_events (map (of_attempt (li_attempt request)) (filter (\<lambda>row. sr_row_seq row < n) rows)) base"
  shows "\<exists>n'. ingest_new_event_rows io parse request events n st =
      (Ok n', st\<lparr>st_event_rows :=
        put_events (map (of_attempt (li_attempt request)) (filter (\<lambda>row. sr_row_seq row < n') rows)) base\<rparr>) \<and>
    (events = Some lines \<longrightarrow> (\<forall>row \<in> set rows. sr_row_seq row < n'))"
proof (cases events)
  case None
  with table show ?thesis by (simp add: ingest_new_event_rows_def oreturn_def)
next
  case (Some part)
  with seen obtain more where lines: "lines = part @ more" by auto
  let ?parse = "event_rows_from parse (li_identity request)"
  from final obtain a b where a: "?parse 0 part = Ok a" and b: "?parse (length part) more = Ok b" and rows: "rows = a @ b"
    by (auto simp: load_event_rows_def lines event_rows_append result_iffs)
  note numbered = event_rows_numbered [OF a] event_rows_numbered [OF b]
  have sorted: "sorted_wrt (<) (map sr_row_seq rows)"
    using event_rows_numbered [of parse "li_identity request" 0 lines rows] final by (simp add: load_event_rows_def)
  let ?fresh = "filter (\<lambda>row. n \<le> sr_row_seq row) a" and ?stamp = "of_attempt (li_attempt request)"
  have load: "load_event_rows parse (li_identity request) events = Ok a" by (simp add: Some load_event_rows_def a)
  show ?thesis
  proof (cases "?fresh = []")
    case True
    with load have "ingest_new_event_rows io parse request events n st = (Ok n, st)"
      by (simp add: ingest_new_event_rows_def op_defs Some)
    moreover have "\<forall>row \<in> set rows. sr_row_seq row < n" if "events = Some lines"
    proof -
      from that Some lines b have "b = []" by simp
      with True rows show ?thesis by (fastforce simp: filter_empty_conv)
    qed
    ultimately show ?thesis using table by (intro exI [of _ n]) simp
  next
    case False
    let ?n' = "Max (sr_row_seq ` set ?fresh) + 1"
    have le: "sr_row_seq row < ?n'" if "row \<in> set ?fresh" for row
      using that by (auto simp: less_Suc_eq_le intro!: Max_ge)
    have "sr_row_seq ` set ?fresh \<noteq> {}" using False by (simp only: image_is_empty set_empty simp_thms)
    then have "Max (sr_row_seq ` set ?fresh) \<in> sr_row_seq ` set ?fresh" by (intro Max_in) simp_all
    then have n': "n < ?n'" "?n' \<le> length part" using numbered(1) by auto
    have fresh: "filter (\<lambda>row. n \<le> sr_row_seq row \<and> sr_row_seq row < ?n') rows = ?fresh"
    proof -
      have "filter (\<lambda>row. n \<le> sr_row_seq row \<and> sr_row_seq row < ?n') b = []"
        using numbered(2) n'(2) by (fastforce simp: filter_empty_conv)
      moreover have "filter (\<lambda>row. n \<le> sr_row_seq row \<and> sr_row_seq row < ?n') a = ?fresh"
        using le by (intro filter_cong) auto
      ultimately show ?thesis by (simp add: rows)
    qed
    have "\<forall>row \<in> set (map ?stamp ?fresh). key_in_range row"
      using numbered(1) range lines by (fastforce simp: key_in_range_def of_attempt_def)
    from upserts_healthy [OF io this, of st]
    have "ingest_new_event_rows io parse request events n st =
        (Ok ?n', st\<lparr>st_event_rows := put_events (map ?stamp ?fresh) (st_event_rows st)\<rparr>)"
      using load False Some
      by (simp add: ingest_new_event_rows_def append_event_rows_def op_defs of_attempt_def [abs_def] Let_def image_image
          del: filter_empty_conv)
    moreover have "put_events (map ?stamp ?fresh) (st_event_rows st) =
        put_events (map ?stamp (filter (\<lambda>row. sr_row_seq row < ?n') rows)) base"
      by (simp only: table filter_split_sorted [OF sorted less_imp_le [OF n'(1)], unfolded fresh] map_append put_events_append)
    moreover have "\<forall>row \<in> set rows. sr_row_seq row < ?n'" if "events = Some lines"
    proof -
      from that Some lines b have "b = []" by simp
      with rows n'(1) le show ?thesis by fastforce
    qed
    ultimately show ?thesis by (intro exI [of _ ?n']) simp
  qed
qed

lemma ingest_loop:
  assumes io: "\<forall>p. io p" and final: "load_event_rows parse (li_identity request) (Some lines) = Ok rows"
    and range: "ti_schedule_idx (li_identity request) < 2 ^ 63" "li_attempt request < 2 ^ 63" "length lines \<le> 2 ^ 63"
    and polls: "\<forall>events \<in> set polls. events = None \<or> (\<exists>more. lines = the events @ more)"
    and table: "st_event_rows st = put_events (map (of_attempt (li_attempt request)) (filter (\<lambda>row. sr_row_seq row < n) rows)) base"
  shows "\<exists>n'. live_event_ingest_loop io parse request polls (Some lines) n st =
      (Ok n', st\<lparr>st_event_rows := put_events (map (of_attempt (li_attempt request)) rows) base\<rparr>)"
  using polls table
proof (induction polls arbitrary: n st)
  case Nil
  from ingest_step [OF io final range _ Nil.prems(2), of "Some lines"] obtain n' where
    n': "ingest_new_event_rows io parse request (Some lines) n st = (Ok n', st\<lparr>st_event_rows :=
      put_events (map (of_attempt (li_attempt request)) (filter (\<lambda>row. sr_row_seq row < n') rows)) base\<rparr>)"
    "\<forall>row \<in> set rows. sr_row_seq row < n'" by auto
  then have "filter (\<lambda>row. sr_row_seq row < n') rows = rows" by (simp add: filter_id_conv)
  with n'(1) show ?case by simp
next
  case (Cons events polls)
  from ingest_step [OF io final range _ Cons.prems(2), of events] Cons.prems(1) obtain n' where
    n': "ingest_new_event_rows io parse request events n st = (Ok n', st\<lparr>st_event_rows :=
      put_events (map (of_attempt (li_attempt request)) (filter (\<lambda>row. sr_row_seq row < n') rows)) base\<rparr>)" by auto
  from Cons.IH [of "st\<lparr>st_event_rows := put_events (map (of_attempt (li_attempt request))
      (filter (\<lambda>row. sr_row_seq row < n') rows)) base\<rparr>" n'] Cons.prems(1)
  show ?case by (simp add: n' obind_def)
qed

text \<open>Rows with different keys are all there.\<close>

lemma put_events_other: "key \<notin> event_key ` set rows \<Longrightarrow> put_events rows t key = t key"
  by (induction rows arbitrary: t) (simp_all add: put_events_def)

lemma put_events_row: "distinct (map event_key rows) \<Longrightarrow> row \<in> set rows \<Longrightarrow> put_events rows t (event_key row) = Some row"
proof (induction rows arbitrary: t)
  case (Cons r rows)
  have eq: "put_events (r # rows) t = put_events rows (t(event_key r \<mapsto> r))" for t by (simp add: put_events_def)
  show ?case
  proof (cases "row = r")
    case True
    with Cons.prems put_events_other [of "event_key r" rows] show ?thesis by (simp add: eq)
  qed (use Cons in \<open>simp add: eq\<close>)
qed simp

lemma distinct_row_keys:
  assumes "load_event_rows parse identity (Some lines) = Ok rows"
  shows "distinct (map event_key (map (of_attempt attempt) rows))"
proof -
  have "distinct (map sr_row_seq rows)"
    using event_rows_numbered [of parse identity 0 lines rows] assms
    by (simp add: load_event_rows_def strict_sorted_iff)
  then show ?thesis by (auto simp: distinct_map inj_on_def event_key_def of_attempt_def)
qed

lemma ingest_table:
  assumes "\<forall>p. io p" "load_event_rows parse (li_identity request) (Some lines) = Ok rows"
    and "ti_schedule_idx (li_identity request) < 2 ^ 63" "li_attempt request < 2 ^ 63" "length lines \<le> 2 ^ 63"
    and "\<forall>events \<in> set polls. events = None \<or> (\<exists>more. lines = the events @ more)"
  shows "\<exists>n. live_event_ingest_loop io parse request polls (Some lines) 0 st =
      (Ok n, st\<lparr>st_event_rows := put_events (map (of_attempt (li_attempt request)) rows) (st_event_rows st)\<rparr>)"
  by (rule ingest_loop [OF assms]) (simp add: put_events_def)

lemma ingested_row:
  assumes "load_event_rows parse (li_identity request) (Some lines) = Ok rows" "row \<in> set rows"
  shows "put_events (map (of_attempt attempt) rows) t (event_key (of_attempt attempt row)) = Some (of_attempt attempt row)"
  using put_events_row [OF distinct_row_keys [OF assms(1)]] assms(2) by simp

section \<open>Properties\<close>


definition sample_parse_event :: "string \<Rightarrow> (string, json) result" where
  "sample_parse_event text =
     (if text = ''?'' then Err ''expected value''
      else Ok (JObject [(''event_type'', JString text), (''ts'', JString ''t0'')]))"

definition sample_ingest :: live_event_ingest_request where
  "sample_ingest = \<lparr>li_identity = \<lparr>ti_run_id = ''run'', ti_trial_id = ''trial_1'', ti_schedule_idx = 0, ti_variant_id = ''v'',
     ti_task_id = ''t'', ti_repl_idx = 0\<rparr>, li_attempt = 1\<rparr>"

text \<open>A file with a blank line between two events.\<close>

definition sample_event_row :: "nat \<Rightarrow> string \<Rightarrow> event_row" where
  "sample_event_row seq text = event_row_of (li_identity sample_ingest) seq
     (text, Some ''t0'', JObject [(''event_type'', JString text), (''ts'', JString ''t0'')])"

lemma sample_event_rows:
  "load_event_rows sample_parse_event (li_identity sample_ingest) (Some [Some ''start'', Some [], Some ''stop'']) =
     Ok [sample_event_row 0 ''start'', sample_event_row 2 ''stop'']"
  by code_simp




text \<open>A line that was read while it was being written stays as it was read: its number counts as taken in.\<close>

lemma torn_line_kept:
  "map_option er_event_type (st_event_rows (snd (live_event_ingest_loop (\<lambda>_. True) sample_parse_event sample_ingest
     [Some [Some ''?'']] (Some [Some ''start'']) 0 empty_store)) (''run'', ''trial_1'', 0, 1, 0)) = Some ''trajectory_parse_error''"
proof -
  have trimmed: "trim ''?'' = ''?''" "trim ''start'' = ''start''" "trim ''t0'' = ''t0''" by code_simp+
  show ?thesis
    by (simp add: ingest_new_event_rows_def load_event_rows_def event_of_line_def sample_parse_event_def event_row_of_def trimmed
        sample_ingest_def append_event_rows_def upsert_event_record_def typed_row_key_def as_i64_def at_point_def
        modify_event_rows_def op_defs trimmed_text_def bt_get_def empty_store_def Let_def)
qed

end
