(* ===== verification/Trial_Outcome.thy ===== *)
theory Trial_Outcome
  imports Trial_Events
begin

text \<open>
  How one trial is judged (\<open>config.rs\<close>, \<open>trial/grade.rs\<close>, \<open>trial/events.rs\<close>, \<open>trial/artifacts.rs\<close>): the policy that
  applies to its task, whether an attempt is repeated, the outcome that is reported, its metrics and their rows.
\<close>

section \<open>The policy of a task\<close>

datatype StatePolicy = IsolatePerTrial | PersistPerTask | Accumulate

datatype TaskModel = Independent | Dependent

fun state_policy_as_str :: "StatePolicy \<Rightarrow> string" where
  "state_policy_as_str IsolatePerTrial = ''isolate_per_trial''"
| "state_policy_as_str PersistPerTask = ''persist_per_task''"
| "state_policy_as_str Accumulate = ''accumulate''"

fun task_model_as_str :: "TaskModel \<Rightarrow> string" where
  "task_model_as_str Independent = ''independent''"
| "task_model_as_str Dependent = ''dependent''"

record task_policy_config =
  tp_task_model :: TaskModel
  tp_scoring_lifecycle :: string
  tp_required_evidence_classes :: "string list"
  tp_chain_failure_policy :: string

record effective_task_policy = task_policy_config +
  tp_state_policy :: StatePolicy

datatype judge_error =
    UnknownStatePolicy string
  | UnknownTaskModel string
  | StringExpected string nat
  | EmptyEntry string nat
  | StringArrayExpected string
  | MissingEvidenceClass string
  | RequiredMetricNull string
  | MissingArtifact
  | CheckpointsNotArray
  | CheckpointNotObject nat
  | CheckpointUnnamed nat
  | PrimaryMetricField string
  | ConclusionPayloadMissing
  | ConclusionOutcomeMissing
  | ObjectiveFault string
  | UnsupportedArtifactType string
  | MissingArtifactType
  | TraceFieldMissing string
  | ExtraOutputFault nat
  | EmptyRemoteRef
  | TrialFileFault string
  | RowContractFault string
  | NoAttempt
  | AttemptFault string

fun parse_string_items :: "string \<Rightarrow> nat \<Rightarrow> json list \<Rightarrow> (judge_error, string list) result" where
  "parse_string_items field idx [] = Ok []"
| "parse_string_items field idx (item # items) =
     rbind (ok_or (StringExpected field idx) (as_str item)) (\<lambda>token.
     if trim token = [] then Err (EmptyEntry field idx)
     else rbind (parse_string_items field (Suc idx) items) (\<lambda>parsed. Ok (token # parsed)))"

definition parse_string_array_field :: "json option \<Rightarrow> string \<Rightarrow> (judge_error, string list) result" where
  "parse_string_array_field value field =
     (case value of
        None \<Rightarrow> Ok []
      | Some (JArray items) \<Rightarrow> parse_string_items field 0 items
      | Some _ \<Rightarrow> Err (StringArrayExpected field))"

definition parse_state_policy_value :: "string option \<Rightarrow> StatePolicy option" where
  "parse_state_policy_value value =
     (if value = Some ''isolate_per_trial'' then Some IsolatePerTrial
      else if value = Some ''persist_per_task'' then Some PersistPerTask
      else if value = Some ''accumulate'' then Some Accumulate
      else None)"

definition parse_task_model :: "string option \<Rightarrow> (judge_error, TaskModel) result" where
  "parse_task_model value =
     (case value of
        None \<Rightarrow> Ok Independent
      | Some raw \<Rightarrow>
          if raw = ''dependent'' then Ok Dependent else if raw = ''independent'' then Ok Independent
          else Err (UnknownTaskModel raw))"

text \<open>The field of an override, which may be absent.\<close>

definition override_str :: "(string, json) btree option \<Rightarrow> string \<Rightarrow> string option" where
  "override_str override_obj field = Option.bind (Option.bind override_obj (\<lambda>obj. bt_get obj field)) as_str"

definition resolve_effective_task_policy ::
  "StatePolicy \<Rightarrow> task_policy_config \<Rightarrow> json \<Rightarrow> (judge_error, effective_task_policy) result" where
  "resolve_effective_task_policy state_policy task_policy task_payload =
     (let override_obj = Option.bind (json_get ''policy_override'' task_payload) as_object in
      rbind (case override_str override_obj ''state_policy'' of
               None \<Rightarrow> Ok None
             | Some raw \<Rightarrow> rbind (ok_or (UnknownStatePolicy raw) (parse_state_policy_value (Some raw))) (\<lambda>p. Ok (Some p)))
        (\<lambda>state_override.
      rbind (case override_str override_obj ''task_model'' of
               None \<Rightarrow> Ok None | Some raw \<Rightarrow> rbind (parse_task_model (Some raw)) (\<lambda>m. Ok (Some m)))
        (\<lambda>task_model_override.
      rbind (case override_obj of
               None \<Rightarrow> Ok None
             | Some obj \<Rightarrow>
                 rbind (parse_string_array_field (bt_get obj ''required_evidence_classes'') ''policy_override.required_evidence_classes'')
                   (\<lambda>classes. Ok (Some classes)))
        (\<lambda>required_evidence_override.
      Ok \<lparr>tp_task_model = case_option (tp_task_model task_policy) (\<lambda>m. m) task_model_override,
          tp_scoring_lifecycle =
            case_option (tp_scoring_lifecycle task_policy) (\<lambda>s. s) (override_str override_obj ''scoring_lifecycle''),
          tp_required_evidence_classes =
            case_option (tp_required_evidence_classes task_policy) (\<lambda>c. c) required_evidence_override,
          tp_chain_failure_policy =
            case_option (tp_chain_failure_policy task_policy) (\<lambda>s. s) (override_str override_obj ''chain_failure_policy''),
          tp_state_policy = case_option state_policy (\<lambda>p. p) state_override\<rparr>))))"

definition evidence_missing :: "json option \<Rightarrow> bool" where
  "evidence_missing value =
     (case value of None \<Rightarrow> True | Some JNull \<Rightarrow> True | Some (JString s) \<Rightarrow> trim s = [] | _ \<Rightarrow> False)"

fun validate_required_evidence_classes :: "externs \<Rightarrow> json \<Rightarrow> string list \<Rightarrow> (judge_error, unit) result" where
  "validate_required_evidence_classes ex evidence_record [] = Ok ()"
| "validate_required_evidence_classes ex evidence_record (class_name # required) =
     (if evidence_missing (ex_pointer ex evidence_record (''/evidence/'' @ class_name)) then Err (MissingEvidenceClass class_name)
      else validate_required_evidence_classes ex evidence_record required)"

section \<open>Outcomes\<close>

definition agent_response_execution_outcome :: "string \<Rightarrow> bool \<Rightarrow> string option \<Rightarrow> string" where
  "agent_response_execution_outcome agent_exit_status result_present result_parse_error =
     (if agent_exit_status = ''timeout'' then ''timeout''
      else if agent_exit_status \<noteq> ''0'' then ''error''
      else if \<not> result_present then ''missing''
      else if result_parse_error \<noteq> None then ''error''
      else ''success'')"

definition grader_verdict_to_trial_outcome :: "string \<Rightarrow> string option" where
  "grader_verdict_to_trial_outcome verdict =
     (if verdict = ''pass'' then Some ''success'' else if verdict = ''fail'' then Some ''failure''
      else if verdict = ''missing'' then Some ''missing'' else if verdict = ''error'' then Some ''error'' else None)"

definition trial_conclusion_outcome_to_trial_outcome :: "string \<Rightarrow> string option" where
  "trial_conclusion_outcome_to_trial_outcome outcome =
     (if outcome \<in> {''success'', ''failure'', ''missing'', ''error'', ''timeout''} then Some outcome
      else grader_verdict_to_trial_outcome outcome)"

definition mapped_grader_output_state :: "json option \<Rightarrow> string option \<Rightarrow> string option" where
  "mapped_grader_output_state trial_conclusion_row grade_error_reason =
     (if trial_conclusion_row \<noteq> None then Some ''valid''
      else case grade_error_reason of
        Some reason \<Rightarrow>
          Some (if starts_with ''mapped_grader_output_invalid:'' reason then ''present_invalid'' else ''missing'')
      | None \<Rightarrow> None)"

section \<open>Retries\<close>

datatype EvidenceBlobRef = LocalPath string | RemoteRef string

record trial_runtime_outcome =
  ro_executor :: ExecutorKind
  ro_agent_exit_status :: string
  ro_trial_output :: json
  ro_result_present :: bool
  ro_result_parse_error :: "string option"
  ro_stdout :: "EvidenceBlobRef option"
  ro_stderr :: "EvidenceBlobRef option"
  ro_events :: "EvidenceBlobRef option"
  ro_event_rows :: "event_row list"
  ro_trial_conclusion_row :: "json option"
  ro_deferred_trial_conclusion_records :: "json list"
  ro_grade_error_reason :: "string option"

definition reported_outcome :: "externs \<Rightarrow> json option \<Rightarrow> string option" where
  "reported_outcome ex trial_conclusion_row =
     Option.bind (Option.bind trial_conclusion_row (\<lambda>row. ex_pointer ex row ''/reported_outcome'')) as_str"

definition runtime_agent_outcome :: "trial_runtime_outcome \<Rightarrow> string" where
  "runtime_agent_outcome ro =
     agent_response_execution_outcome (ro_agent_exit_status ro) (ro_result_present ro) (ro_result_parse_error ro)"

definition grading_retry_inputs :: "externs \<Rightarrow> bool \<Rightarrow> trial_runtime_outcome \<Rightarrow> string \<times> string" where
  "grading_retry_inputs ex grading_enabled ro =
     (let agent_outcome = runtime_agent_outcome ro in
      if \<not> grading_enabled then (agent_outcome, ro_agent_exit_status ro)
      else if agent_outcome = ''timeout'' then (''timeout'', ''timeout'')
      else if ro_grade_error_reason ro \<noteq> None then (''error'', ''0'')
      else case Option.bind (reported_outcome ex (ro_trial_conclusion_row ro)) trial_conclusion_outcome_to_trial_outcome of
        Some mapped_outcome \<Rightarrow> (mapped_outcome, ''0'')
      | None \<Rightarrow> if ro_trial_conclusion_row ro \<noteq> None then (''missing'', ''0'') else (''error'', ''0''))"

definition should_retry_outcome :: "string \<Rightarrow> string \<Rightarrow> string list \<Rightarrow> bool" where
  "should_retry_outcome outcome exit_status retry_on =
     (if retry_on = [] then outcome = ''error'' \<or> exit_status \<noteq> ''0''
      else list_ex (\<lambda>trigger. trigger = ''error'' \<and> outcome = ''error'' \<or> trigger = ''failure'' \<and> exit_status \<noteq> ''0'' \<or>
        trigger = ''timeout'' \<and> outcome = ''timeout'') retry_on)"

definition attempt_retried :: "externs \<Rightarrow> bool \<Rightarrow> string list \<Rightarrow> trial_runtime_outcome \<Rightarrow> bool" where
  "attempt_retried ex grading_enabled retry_on ro =
     (case grading_retry_inputs ex grading_enabled ro of
        (retry_outcome, retry_exit_status) \<Rightarrow> should_retry_outcome retry_outcome retry_exit_status retry_on)"

text \<open>
  The loop over the attempts: \<open>execute\<close> runs the attempt with the given number, counted from 1, on the state of the world
  and may fail; the first argument counts the attempts that are left.
\<close>

fun run_attempts ::
  "externs \<Rightarrow> bool \<Rightarrow> string list \<Rightarrow> (nat \<Rightarrow> ('w, judge_error, trial_runtime_outcome) op) \<Rightarrow> nat \<Rightarrow> nat \<Rightarrow>
    trial_runtime_outcome option \<Rightarrow> ('w, judge_error, trial_runtime_outcome option) op" where
  "run_attempts ex grading_enabled retry_on execute 0 attempt runtime_outcome = oreturn runtime_outcome"
| "run_attempts ex grading_enabled retry_on execute (Suc left) attempt runtime_outcome =
     obind (execute (attempt + 1)) (\<lambda>outcome.
     if left \<noteq> 0 \<and> attempt_retried ex grading_enabled retry_on outcome
     then run_attempts ex grading_enabled retry_on execute left (attempt + 1) (Some outcome)
     else oreturn (Some outcome))"

section \<open>Metrics\<close>

record metric_definition =
  md_id :: string
  md_label :: "string option"
  md_semantic_key :: "string option"
  md_value_type :: "string option"
  md_unit :: "string option"
  md_direction :: "string option"
  md_source_type :: string
  md_source_pointer :: "string option"
  md_required :: bool
  md_primary :: bool
  md_definition_json :: json

definition agent_output_id :: "string \<Rightarrow> string" where
  "agent_output_id output = (case strip_prefix ''agent.'' output of None \<Rightarrow> output | Some rest \<Rightarrow> rest)"

definition declared_metric_value :: "externs \<Rightarrow> metric_definition \<Rightarrow> json \<Rightarrow> json option \<Rightarrow> json option" where
  "declared_metric_value ex definition agent_response_payload trial_conclusion_row =
     (if md_source_type definition = ''agent_response'' then
        Option.bind (md_source_pointer definition) (ex_pointer ex agent_response_payload)
      else if md_source_type definition = ''runtime_output'' then
        Option.bind (trimmed_text (ex_pointer ex (md_definition_json definition) ''/source/output'')) (\<lambda>output.
          if agent_output_id output \<noteq> ''result'' then None
          else case md_source_pointer definition of
            Some pointer \<Rightarrow> ex_pointer ex agent_response_payload pointer
          | None \<Rightarrow> Some agent_response_payload)
      else if md_source_type definition = ''grader_output'' then
        Option.bind (Option.bind trial_conclusion_row (\<lambda>row. ex_pointer ex row ''/payload'')) (\<lambda>payload.
          Option.bind (md_source_pointer definition) (ex_pointer ex payload))
      else None)"

fun extract_metrics ::
  "externs \<Rightarrow> metric_definition list \<Rightarrow> json \<Rightarrow> json option \<Rightarrow> bool \<Rightarrow> (string, json) btree \<Rightarrow> (string \<times> json) option \<Rightarrow>
    (judge_error, (string, json) btree \<times> (string \<times> json) option) result" where
  "extract_metrics ex [] payload row enforce_required metrics primary = Ok (metrics, primary)"
| "extract_metrics ex (definition # definitions) payload row enforce_required metrics primary =
     (case declared_metric_value ex definition payload row of
        None \<Rightarrow>
          if md_required definition \<and> enforce_required then Err (RequiredMetricNull (md_id definition))
          else extract_metrics ex definitions payload row enforce_required metrics primary
      | Some value \<Rightarrow>
          extract_metrics ex definitions payload row enforce_required (bt_insert (md_id definition) value metrics)
            (if md_primary definition \<and> primary = None then Some (md_id definition, value) else primary))"

definition extract_declared_metrics ::
  "externs \<Rightarrow> metric_definition list \<Rightarrow> json \<Rightarrow> json option \<Rightarrow> bool \<Rightarrow>
    (judge_error, (string, json) btree \<times> (string \<times> json) option) result" where
  "extract_declared_metrics ex definitions payload row enforce_required =
     extract_metrics ex definitions payload row enforce_required [] None"

definition metric_row_of ::
  "trial_row_identity \<Rightarrow> string \<Rightarrow> nat \<Rightarrow> string \<Rightarrow> json \<Rightarrow> string option \<Rightarrow> metric_row" where
  "metric_row_of identity outcome row_seq metric_name metric_value metric_source =
     \<lparr>sr_run_id = ti_run_id identity, sr_trial_id = ti_trial_id identity, sr_schedule_idx = ti_schedule_idx identity,
      sr_slot_commit_id = [], sr_attempt = 0, sr_row_seq = row_seq, mr_variant_id = ti_variant_id identity,
      mr_task_id = ti_task_id identity, mr_repl_idx = ti_repl_idx identity, mr_outcome = outcome, mr_metric_name = metric_name,
      mr_metric_value = metric_value, mr_metric_source = metric_source\<rparr>"

definition build_metric_rows ::
  "trial_row_identity \<Rightarrow> string \<Rightarrow> json \<Rightarrow> string \<Rightarrow> json \<Rightarrow> metric_row list" where
  "build_metric_rows identity outcome metrics primary_metric_name primary_metric_value =
     (let rows = (case as_object metrics of
                    None \<Rightarrow> []
                  | Some metric_obj \<Rightarrow> map (\<lambda>(row_seq, (name, value)). metric_row_of identity outcome row_seq name value None)
                      (enumerate_rows metric_obj)) in
      rows @ [metric_row_of identity outcome (length rows) primary_metric_name primary_metric_value (Some ''primary'')])"

text \<open>\<open>Value::to_string\<close> is the parameter \<open>text\<close>.\<close>

fun binding_value_to_text :: "externs \<Rightarrow> (json \<Rightarrow> string) \<Rightarrow> json \<Rightarrow> string" where
  "binding_value_to_text ex text JNull = ''null''"
| "binding_value_to_text ex text (JBool v) = (if v then ''true'' else ''false'')"
| "binding_value_to_text ex text (JNumber v) = show_number (ex_show_float ex) v"
| "binding_value_to_text ex text (JString v) = v"
| "binding_value_to_text ex text value = text value"

definition build_variant_snapshot_rows ::
  "externs \<Rightarrow> (json \<Rightarrow> string) \<Rightarrow> trial_row_identity \<Rightarrow> string \<Rightarrow> json \<Rightarrow> variant_snapshot_row list" where
  "build_variant_snapshot_rows ex text identity baseline_id bindings =
     (case as_object bindings of
        None \<Rightarrow> []
      | Some bindings_obj \<Rightarrow> map (\<lambda>(row_seq, (name, value)).
          \<lparr>sr_run_id = ti_run_id identity, sr_trial_id = ti_trial_id identity, sr_schedule_idx = ti_schedule_idx identity,
           sr_slot_commit_id = [], sr_attempt = 0, sr_row_seq = row_seq, vs_variant_id = ti_variant_id identity,
           vs_baseline_id = baseline_id, vs_task_id = ti_task_id identity, vs_repl_idx = ti_repl_idx identity,
           vs_binding_name = name, vs_binding_value = value,
           vs_binding_value_text = binding_value_to_text ex text value\<rparr>) (enumerate_rows bindings_obj))"

end
