(* ===== verification/Trial_Finalize.thy ===== *)
theory Trial_Finalize
  imports Trial_Outcome Trial_State
begin

text \<open>
  The end of a trial (\<open>finalize_scheduled_trial\<close> in \<open>trial/schedule.rs\<close>): what the runtime reports becomes evidence, rows, a
  contract trace, a summary and the result that the worker hands to the committer; and the trial as a worker runs it
  (\<open>execute_local_trial\<close> in \<open>experiment/runner.rs\<close>).
\<close>

section \<open>Parameters and state\<close>

datatype ArtifactType = PatchSubmission | TextResponse | StructuredJson | FileRef

datatype CandidateArtifactState = ArtifactMissing | ArtifactInvalid | ArtifactValid

datatype CandidateArtifactSource = ResultInline | ResultFileRef | NoSource

datatype finalize_point = AtOutput | AtBlob | AtEvidenceRow | AtChainRow | AtInventory | AtState | AtLayout | AtLogs |
  AtSummary | AtTrace | AtScratch | AtPayload | AtPayloadGone | AtSample string

text \<open>
  \<open>fe_pretty\<close> and \<open>fe_text\<close> are printers of \<open>serde_json\<close>, \<open>fe_envelope\<close> the derived reader of artifact envelopes,
  \<open>fe_contract\<close> the verdict of the row schemas. Files are read through \<open>fe_read\<close>; \<open>fe_patch_bytes\<close> is the size of the captured
  patch, an outer \<open>None\<close> a failure to look.
\<close>

record finalize_env =
  fe_externs :: externs
  fe_io :: "finalize_point \<Rightarrow> bool"
  fe_pretty :: "json \<Rightarrow> string"
  fe_text :: "json \<Rightarrow> string"
  fe_envelope :: "json \<Rightarrow> (ArtifactType \<times> json) option"
  fe_contract :: "json \<Rightarrow> bool"
  fe_now :: string
  fe_duration_ms :: u64
  fe_read :: "string \<Rightarrow> string option"
  fe_patch_bytes :: "nat option option"
  fe_trial_input :: "json option"
  fe_mapped_output_exists :: bool

record scheduled_trial_request =
  rq_run_id :: string
  rq_workload_type :: string
  rq_schedule_idx :: nat
  rq_variant_idx :: nat
  rq_baseline_id :: string
  rq_metric_definitions :: "metric_definition list"
  rq_strategy :: "GradingStrategy option"
  rq_materialize_mode :: MaterializationMode

record prepared_scheduled_trial =
  ps_variant_id :: string
  ps_bindings :: json
  ps_task_id :: string
  ps_task_idx :: nat
  ps_repl :: nat
  ps_grading_enabled :: bool
  ps_chain_key :: string
  ps_chain_step_index :: nat
  ps_trial_id :: string
  ps_trial_input_ref :: string
  ps_task_sandbox_image :: string
  ps_task_sandbox_workdir :: string
  ps_materialization_kind :: string
  ps_integration_level :: string
  ps_network_mode_requested :: string
  ps_network_mode_effective :: string
  ps_experiment :: json
  ps_effective_policy :: effective_task_policy

text \<open>
  The files and buffers of the trial. \<open>fw_state\<close> is the state file with status and reason of exit, \<open>fw_done\<close> the flag of
  the guard that marks an abandoned trial.
\<close>

record finalize_world =
  fw_chain_states :: "(string, nat) btree"
  fw_artifacts :: "string \<rightharpoonup> string"
  fw_evidence :: "json list"
  fw_chain_rows :: "json list"
  fw_trial_records :: "trial_record list"
  fw_metric_rows :: "metric_row list"
  fw_event_rows :: "event_row list"
  fw_contract_stage_rows :: "contract_stage_row list"
  fw_variant_snapshot_rows :: "variant_snapshot_row list"
  fw_state :: "(string \<times> string option) option"
  fw_done :: bool
  fw_summary :: "json option"
  fw_trace :: "json option"

type_synonym 'a finalize_op = "(finalize_world, judge_error, 'a) op"

definition at_file :: "finalize_env \<Rightarrow> finalize_point \<Rightarrow> string \<Rightarrow> unit finalize_op" where
  "at_file env p name = olift (ensure (fe_io env p) (TrialFileFault name))"

text \<open>The record of a duration, which can fail as every other write.\<close>

definition at_sample :: "finalize_env \<Rightarrow> string \<Rightarrow> unit finalize_op" where
  "at_sample env stage = at_file env (AtSample stage) stage"

section \<open>Evidence\<close>

definition put_artifact :: "finalize_env \<Rightarrow> finalize_point \<Rightarrow> string \<Rightarrow> string finalize_op" where
  "put_artifact env p bytes =
     obind (at_file env p ''artifact'') (\<lambda>_.
     obind (oget (\<lambda>w. put_bytes (ex_sha256_hex (fe_externs env)) bytes (fw_artifacts w))) (\<lambda>(artifact_ref, artifacts).
     obind (omodify (\<lambda>w. w\<lparr>fw_artifacts := artifacts\<rparr>)) (\<lambda>_.
     oreturn artifact_ref)))"

definition evidence_blob_ref :: "finalize_env \<Rightarrow> EvidenceBlobRef option \<Rightarrow> string option finalize_op" where
  "evidence_blob_ref env blob =
     (case blob of
        Some (LocalPath p) \<Rightarrow>
          obind (olift (ok_or (TrialFileFault p) (fe_read env p))) (\<lambda>bytes.
          obind (put_artifact env AtBlob bytes) (\<lambda>artifact_ref. oreturn (Some artifact_ref)))
      | Some (RemoteRef uri) \<Rightarrow> if trim uri = [] then ofail EmptyRemoteRef else oreturn (Some uri)
      | None \<Rightarrow> oreturn None)"

definition trial_ids_json :: "scheduled_trial_request \<Rightarrow> prepared_scheduled_trial \<Rightarrow> json" where
  "trial_ids_json rq ps = json_object
     [(''run_id'', JString (rq_run_id rq)), (''trial_id'', JString (ps_trial_id ps)), (''variant_id'', JString (ps_variant_id ps)),
      (''task_id'', JString (ps_task_id ps)), (''repl_idx'', jnat (ps_repl ps))]"

definition evidence_record ::
  "finalize_env \<Rightarrow> scheduled_trial_request \<Rightarrow> prepared_scheduled_trial \<Rightarrow> trial_runtime_outcome \<Rightarrow>
    string \<Rightarrow> string option \<Rightarrow> string option \<Rightarrow> string option \<Rightarrow> json" where
  "evidence_record env rq ps ro trial_output_ref stdout_ref stderr_ref events_ref =
     json_object
       [(''schema_version'', JString ''evidence_record_v1''), (''ts'', JString (fe_now env)), (''ids'', trial_ids_json rq ps),
        (''policy'', json_object
          [(''state_policy'', JString (state_policy_as_str (tp_state_policy (ps_effective_policy ps)))),
           (''task_model'', JString (task_model_as_str (tp_task_model (ps_effective_policy ps)))),
           (''chain_id'', JString (ps_chain_key ps)), (''chain_step_index'', jnat (ps_chain_step_index ps))]),
        (''runtime'', json_object
          [(''executor'', JString (executor_kind_as_str (ro_executor ro))), (''exit_status'', JString (ro_agent_exit_status ro)),
           (''duration_ms'', JNumber (Float (fe_duration_ms env)))]),
        (''evidence'', json_object
          ([(''trial_input_ref'', JString (ps_trial_input_ref ps)), (''trial_output_ref'', JString trial_output_ref),
            (''harness_request_ref'', JString (ps_trial_input_ref ps)), (''harness_response_ref'', JString trial_output_ref)] @
           optional_field ''stdout_ref'' stdout_ref @ optional_field ''stderr_ref'' stderr_ref @
           optional_field ''events_ref'' events_ref))]"

definition append_uncommitted_row ::
  "finalize_env \<Rightarrow> finalize_point \<Rightarrow> (json \<Rightarrow> finalize_world \<Rightarrow> finalize_world) \<Rightarrow> json \<Rightarrow> unit finalize_op" where
  "append_uncommitted_row env p put value =
     obind (olift (ensure (fe_contract env value) (RowContractFault ''uncommitted row''))) (\<lambda>_.
     obind (at_file env p ''uncommitted rows'') (\<lambda>_.
     omodify (put value)))"

definition finalize_evidence ::
  "finalize_env \<Rightarrow> scheduled_trial_request \<Rightarrow> prepared_scheduled_trial \<Rightarrow> trial_runtime_outcome \<Rightarrow> unit finalize_op" where
  "finalize_evidence env rq ps ro =
     obind (omodify (\<lambda>w. if tp_state_policy (ps_effective_policy ps) \<noteq> IsolatePerTrial
       then w\<lparr>fw_chain_states := bt_insert (ps_chain_key ps) (ps_chain_step_index ps) (fw_chain_states w)\<rparr> else w)) (\<lambda>_.
     obind (put_artifact env AtOutput (fe_pretty env (ro_trial_output ro))) (\<lambda>trial_output_ref.
     obind (evidence_blob_ref env (ro_stdout ro)) (\<lambda>stdout_ref.
     obind (evidence_blob_ref env (ro_stderr ro)) (\<lambda>stderr_ref.
     obind (evidence_blob_ref env (ro_events ro)) (\<lambda>events_ref.
     obind (at_sample env ''trial_finalize_evidence_capture'') (\<lambda>_.
     let evidence = evidence_record env rq ps ro trial_output_ref stdout_ref stderr_ref events_ref in
     obind (olift (validate_required_evidence_classes (fe_externs env) evidence
       (tp_required_evidence_classes (ps_effective_policy ps)))) (\<lambda>_.
     append_uncommitted_row env AtEvidenceRow (\<lambda>v w. w\<lparr>fw_evidence := fw_evidence w @ [v]\<rparr>) evidence)))))))"

section \<open>Chain state\<close>

definition agent_response_payload_view :: "json \<Rightarrow> (judge_error, json) result" where
  "agent_response_payload_view agent_response =
     (if Option.bind (json_get ''schema_version'' agent_response) as_str = Some ''artifact_envelope_v1''
      then ok_or MissingArtifact (json_get ''artifact'' agent_response)
      else Ok agent_response)"

fun checkpoint_labels_from :: "nat \<Rightarrow> json list \<Rightarrow> (judge_error, string list) result" where
  "checkpoint_labels_from idx [] = Ok []"
| "checkpoint_labels_from idx (row # rows) =
     rbind (ok_or (CheckpointNotObject idx) (as_object row)) (\<lambda>object.
     rbind (case Option.bind (bt_get object ''logical_name'') as_str of
              Some label \<Rightarrow> if label \<noteq> [] then Ok label else Err (CheckpointUnnamed idx)
            | None \<Rightarrow> Err (CheckpointUnnamed idx)) (\<lambda>label.
     rbind (checkpoint_labels_from (Suc idx) rows) (\<lambda>labels. Ok (label # labels))))"

definition extract_checkpoint_labels :: "json \<Rightarrow> (judge_error, string list) result" where
  "extract_checkpoint_labels response_payload =
     (case json_get ''checkpoints'' response_payload of
        None \<Rightarrow> Ok []
      | Some checkpoints \<Rightarrow> rbind (ok_or CheckpointsNotArray (as_array checkpoints)) (checkpoint_labels_from 0))"

definition finalize_chain ::
  "finalize_env \<Rightarrow> scheduled_trial_request \<Rightarrow> prepared_scheduled_trial \<Rightarrow> json \<Rightarrow> unit finalize_op" where
  "finalize_chain env rq ps response_payload =
     obind (olift (extract_checkpoint_labels response_payload)) (\<lambda>checkpoint_labels.
     obind (append_uncommitted_row env AtChainRow (\<lambda>v w. w\<lparr>fw_chain_rows := fw_chain_rows w @ [v]\<rparr>)
       (json_object
         [(''schema_version'', JString ''task_chain_state_v1''), (''ts'', JString (fe_now env)), (''run_id'', JString (rq_run_id rq)),
          (''chain_id'', JString (ps_chain_key ps)),
          (''task_model'', JString (task_model_as_str (tp_task_model (ps_effective_policy ps)))),
          (''step_index'', jnat (ps_chain_step_index ps)),
          (''ids'', json_object
            [(''trial_id'', JString (ps_trial_id ps)), (''variant_id'', JString (ps_variant_id ps)),
             (''task_id'', JString (ps_task_id ps)), (''repl_idx'', jnat (ps_repl ps))]),
          (''checkpoint_labels'', JArray (map JString checkpoint_labels))])) (\<lambda>_.
     at_file env AtInventory ''state inventory''))"

section \<open>The judgement\<close>

record trial_judgement =
  tj_outcome :: string
  tj_agent_outcome :: string
  tj_metrics :: json
  tj_primary_metric :: "string \<times> json"

definition trial_outcome :: "externs \<Rightarrow> bool \<Rightarrow> trial_runtime_outcome \<Rightarrow> string" where
  "trial_outcome ex grading_enabled ro =
     (let agent_outcome = runtime_agent_outcome ro in
      if grading_enabled then
        if agent_outcome = ''timeout'' then agent_outcome
        else if ro_grade_error_reason ro \<noteq> None then ''grading_failed''
        else case Option.bind (reported_outcome ex (ro_trial_conclusion_row ro)) trial_conclusion_outcome_to_trial_outcome of
          Some mapped \<Rightarrow> mapped | None \<Rightarrow> ''missing''
      else agent_outcome)"

definition conclusion_str :: "externs \<Rightarrow> json option \<Rightarrow> string \<Rightarrow> string option" where
  "conclusion_str ex trial_conclusion_row ptr = Option.bind trial_conclusion_row (\<lambda>row. pointer_str ex row ptr)"

definition annotate_metrics :: "externs \<Rightarrow> trial_runtime_outcome \<Rightarrow> (string, json) btree \<Rightarrow> (string, json) btree" where
  "annotate_metrics ex ro metrics =
     (let row = ro_trial_conclusion_row ro;
          put = (\<lambda>name value m. case value of None \<Rightarrow> m | Some v \<Rightarrow> bt_insert name v m) in
      put ''grade_error_reason'' (map_option JString (ro_grade_error_reason ro))
      (put ''grade_error'' (map_option (\<lambda>_. JBool True) (ro_grade_error_reason ro))
      (put ''trial_conclusion_grader_strategy'' (map_option JString (conclusion_str ex row ''/grader/strategy''))
      (put ''trial_conclusion_grader'' (map_option JString (conclusion_str ex row ''/grader/name''))
      (put ''trial_conclusion_payload'' (Option.bind row (\<lambda>row. ex_pointer ex row ''/payload''))
      (put ''trial_conclusion_reported_outcome'' (map_option JString (reported_outcome ex row))
      (put ''mapped_grader_output_state'' (map_option JString (mapped_grader_output_state row (ro_grade_error_reason ro)))
      (bt_insert ''status_code'' (JString (ro_agent_exit_status ro)) metrics))))))))"

definition mapped_primary_metric :: "externs \<Rightarrow> trial_runtime_outcome \<Rightarrow> (judge_error, (string \<times> json) option) result" where
  "mapped_primary_metric ex ro =
     (case Option.bind (ro_trial_conclusion_row ro) (json_get ''primary_metric'') of
        None \<Rightarrow> Ok None
      | Some primary \<Rightarrow>
          rbind (case pointer_str ex primary ''/name'' of
                   Some name \<Rightarrow> if name \<noteq> [] then Ok name else Err (PrimaryMetricField ''/name'')
                 | None \<Rightarrow> Err (PrimaryMetricField ''/name'')) (\<lambda>name.
          rbind (ok_or (PrimaryMetricField ''/value'') (ex_pointer ex primary ''/value'')) (\<lambda>value.
          Ok (Some (name, value)))))"

definition objective_metric :: "json \<Rightarrow> (judge_error, string \<times> json) result" where
  "objective_metric objective =
     rbind (ok_or (ObjectiveFault ''object'') (as_object objective)) (\<lambda>obj.
     rbind (case Option.bind (bt_get obj ''name'') as_str of
              Some name \<Rightarrow> if name \<noteq> [] then Ok name else Err (ObjectiveFault ''/name'')
            | None \<Rightarrow> Err (ObjectiveFault ''/name'')) (\<lambda>name.
     rbind (ok_or (ObjectiveFault ''/value'') (bt_get obj ''value'')) (\<lambda>value.
     Ok (name, value))))"

definition primary_metric ::
  "externs \<Rightarrow> bool \<Rightarrow> trial_runtime_outcome \<Rightarrow> json \<Rightarrow> (string \<times> json) option \<Rightarrow> (string \<times> json) option \<Rightarrow>
    (judge_error, string \<times> json) result" where
  "primary_metric ex grading_enabled ro response_payload mapped_primary declared_primary =
     (if grading_enabled then
        if runtime_agent_outcome ro = ''timeout'' then Ok (''timeout'', JNull)
        else if ro_grade_error_reason ro \<noteq> None then Ok (''grading_failed'', JNull)
        else case mapped_primary of
          Some metric \<Rightarrow> Ok metric
        | None \<Rightarrow> (case ro_trial_conclusion_row ro of
              Some row \<Rightarrow> rbind (ok_or ConclusionPayloadMissing (ex_pointer ex row ''/payload'')) (\<lambda>payload.
                Ok (''trial_conclusion_payload'', payload))
            | None \<Rightarrow> Ok (''grading_failed'', JNull))
      else case declared_primary of
        Some metric \<Rightarrow> Ok metric
      | None \<Rightarrow> (case json_get ''objective'' response_payload of
            Some objective \<Rightarrow> objective_metric objective
          | None \<Rightarrow> Ok (''success'',
              JNumber (Float (if trial_outcome ex grading_enabled ro = ''success'' then 0x3FF0000000000000 else 0)))))"

definition judge_trial ::
  "externs \<Rightarrow> metric_definition list \<Rightarrow> bool \<Rightarrow> trial_runtime_outcome \<Rightarrow> json \<Rightarrow> (judge_error, trial_judgement) result" where
  "judge_trial ex definitions grading_enabled ro response_payload =
     (let agent_outcome = runtime_agent_outcome ro in
      rbind (if definitions = [] then Ok ([], None)
             else extract_declared_metrics ex definitions response_payload (ro_trial_conclusion_row ro)
               (agent_outcome = ''success'' \<or> ro_trial_conclusion_row ro \<noteq> None)) (\<lambda>(metrics, declared_primary).
      rbind (mapped_primary_metric ex ro) (\<lambda>mapped_primary.
      rbind (primary_metric ex grading_enabled ro response_payload mapped_primary declared_primary) (\<lambda>metric.
      Ok \<lparr>tj_outcome = trial_outcome ex grading_enabled ro, tj_agent_outcome = agent_outcome,
          tj_metrics = JObject (annotate_metrics ex ro metrics), tj_primary_metric = metric\<rparr>))))"

section \<open>The contract trace\<close>

fun grading_strategy_name :: "GradingStrategy \<Rightarrow> string" where
  "grading_strategy_name GradeNone = ''none''"
| "grading_strategy_name GradeInTaskRuntime = ''in_task_runtime''"
| "grading_strategy_name GradeInjected = ''injected''"
| "grading_strategy_name GradeSeparate = ''separate''"
| "grading_strategy_name GradeHost = ''host''"

fun artifact_type_name :: "ArtifactType \<Rightarrow> string" where
  "artifact_type_name PatchSubmission = ''patch_submission''"
| "artifact_type_name TextResponse = ''text_response''"
| "artifact_type_name StructuredJson = ''structured_json''"
| "artifact_type_name FileRef = ''file_ref''"

fun candidate_artifact_state_name :: "CandidateArtifactState \<Rightarrow> string" where
  "candidate_artifact_state_name ArtifactMissing = ''missing''"
| "candidate_artifact_state_name ArtifactInvalid = ''invalid''"
| "candidate_artifact_state_name ArtifactValid = ''valid''"

fun candidate_artifact_source_name :: "CandidateArtifactSource \<Rightarrow> string" where
  "candidate_artifact_source_name ResultInline = ''result.inline''"
| "candidate_artifact_source_name ResultFileRef = ''result.file_ref''"
| "candidate_artifact_source_name NoSource = ''none''"

definition artifact_type_from_trial_input :: "externs \<Rightarrow> json \<Rightarrow> (judge_error, ArtifactType) result" where
  "artifact_type_from_trial_input ex trial_input =
     rbind (ok_or MissingArtifactType (pointer_str ex trial_input ''/artifact_type'')) (\<lambda>raw.
     ok_or (UnsupportedArtifactType raw)
       (find (\<lambda>t. artifact_type_name t = raw) [PatchSubmission, TextResponse, StructuredJson, FileRef]))"

definition result_file_ref_path :: "externs \<Rightarrow> json \<Rightarrow> string option" where
  "result_file_ref_path ex result_value =
     (case Option.bind (json_get ''artifact'' result_value) as_str of
        Some p \<Rightarrow> Some p
      | None \<Rightarrow> pointer_str ex result_value ''/artifact/path'')"

record candidate_artifact_record =
  ca_state :: CandidateArtifactState
  ca_artifact_type :: ArtifactType
  ca_source :: CandidateArtifactSource
  ca_payload :: "json option"

definition extract_candidate_artifact_record ::
  "finalize_env \<Rightarrow> json \<Rightarrow> bool \<Rightarrow> ArtifactType \<Rightarrow> candidate_artifact_record" where
  "extract_candidate_artifact_record env result_value result_present expected_artifact_type =
     (if \<not> result_present then
        \<lparr>ca_state = ArtifactMissing, ca_artifact_type = expected_artifact_type, ca_source = NoSource, ca_payload = None\<rparr>
      else case fe_envelope env result_value of
        Some (artifact_type, artifact) \<Rightarrow>
          if artifact_type = expected_artifact_type then
            \<lparr>ca_state =
               (if artifact_type = FileRef then
                  (case result_file_ref_path (fe_externs env) result_value of
                     Some p \<Rightarrow> if p = ''/bucephalus/out/result.json'' \<or> starts_with ''/bucephalus/out/'' p
                       then ArtifactValid else ArtifactInvalid
                   | None \<Rightarrow> ArtifactInvalid)
                else ArtifactValid),
             ca_artifact_type = artifact_type, ca_source = (if artifact_type = FileRef then ResultFileRef else ResultInline),
             ca_payload = Some artifact\<rparr>
          else \<lparr>ca_state = ArtifactInvalid, ca_artifact_type = artifact_type, ca_source = NoSource, ca_payload = Some artifact\<rparr>
      | None \<Rightarrow>
          \<lparr>ca_state = ArtifactInvalid, ca_artifact_type = expected_artifact_type, ca_source = NoSource,
           ca_payload = Some result_value\<rparr>)"

definition output_extraction_status :: "ArtifactType \<Rightarrow> CandidateArtifactState \<Rightarrow> nat option \<Rightarrow> nat option \<Rightarrow> string" where
  "output_extraction_status artifact_type state captured_patch_bytes scoped_patch_bytes =
     (if artifact_type = PatchSubmission then
        if captured_patch_bytes = None then ''missing''
        else if captured_patch_bytes = Some 0 then ''empty''
        else if scoped_patch_bytes = Some 0 then ''empty_scoped''
        else ''available''
      else case state of ArtifactMissing \<Rightarrow> ''missing'' | ArtifactInvalid \<Rightarrow> ''invalid'' | ArtifactValid \<Rightarrow> ''available'')"

definition agent_stage_status :: "trial_runtime_outcome \<Rightarrow> string" where
  "agent_stage_status ro =
     (if ro_agent_exit_status ro = ''0'' \<and> ro_result_present ro \<and> ro_result_parse_error ro = None then ''ok'' else ''error'')"

definition grader_execution_status :: "bool \<Rightarrow> trial_runtime_outcome \<Rightarrow> string" where
  "grader_execution_status grading_enabled ro =
     (if \<not> grading_enabled then ''not_run''
      else if ro_grade_error_reason ro \<noteq> None then ''error''
      else if ro_trial_conclusion_row ro \<noteq> None then ''ok'' else ''error'')"

definition grade_mapping_status :: "bool \<Rightarrow> trial_runtime_outcome \<Rightarrow> string" where
  "grade_mapping_status grading_enabled ro =
     (if \<not> grading_enabled then ''not_run''
      else if ro_grade_error_reason ro = None \<and> ro_trial_conclusion_row ro \<noteq> None then ''ok'' else ''error'')"

definition score_trust :: "bool \<Rightarrow> trial_runtime_outcome \<Rightarrow> json \<Rightarrow> string" where
  "score_trust grading_enabled ro value =
     (if grading_enabled
      then if grade_mapping_status grading_enabled ro = ''ok'' \<and> value \<noteq> JNull then ''trusted'' else ''untrusted''
      else if ro_result_present ro \<and> ro_result_parse_error ro = None \<and> value \<noteq> JNull then ''trusted'' else ''untrusted'')"

definition overall_status :: "bool \<Rightarrow> trial_runtime_outcome \<Rightarrow> json \<Rightarrow> string" where
  "overall_status grading_enabled ro value =
     (if score_trust grading_enabled ro value \<noteq> ''trusted'' \<or> grader_execution_status grading_enabled ro = ''error'' \<or>
         grade_mapping_status grading_enabled ro = ''error'' then ''error''
      else if agent_stage_status ro \<noteq> ''ok'' then ''warning'' else ''ok'')"

definition score_source :: "bool \<Rightarrow> trial_runtime_outcome \<Rightarrow> string" where
  "score_source grading_enabled ro =
     (if grading_enabled then if ro_trial_conclusion_row ro \<noteq> None then ''mapped_grader_output'' else ''missing''
      else ''agent_response'')"

definition opt_json :: "('a \<Rightarrow> json) \<Rightarrow> 'a option \<Rightarrow> json" where
  "opt_json f v = (case v of None \<Rightarrow> JNull | Some x \<Rightarrow> f x)"

definition trace_stages ::
  "finalize_env \<Rightarrow> scheduled_trial_request \<Rightarrow> prepared_scheduled_trial \<Rightarrow> trial_runtime_outcome \<Rightarrow> trial_judgement \<Rightarrow>
    nat option \<Rightarrow> ArtifactType \<Rightarrow> json" where
  "trace_stages env rq ps ro tj captured_patch_bytes artifact_type =
     (let ex = fe_externs env;
          patch_scope = Option.bind (ro_trial_conclusion_row ro) (\<lambda>row. ex_pointer ex row ''/payload/candidate_patch_scope'');
          scoped_patch_bytes = Option.bind (Option.bind patch_scope (\<lambda>scope. ex_pointer ex scope ''/scoped_bytes'')) as_u64;
          artifact = extract_candidate_artifact_record env (ro_trial_output ro) (ro_result_present ro) artifact_type;
          extraction = output_extraction_status artifact_type (ca_state artifact) captured_patch_bytes scoped_patch_bytes;
          graded = ps_grading_enabled ps in
      json_object
        [(''task_mapping'', json_object
           [(''status'', JString ''ok''), (''image'', JString (ps_task_sandbox_image ps)),
            (''workdir'', JString (ps_task_sandbox_workdir ps)), (''materialization_kind'', JString (ps_materialization_kind ps))]),
         (''agent_execution'', json_object
           [(''status'', JString (agent_stage_status ro)), (''exit_status'', JString (ro_agent_exit_status ro)),
            (''outcome'', JString (tj_agent_outcome tj)), (''result_parse_error'', opt_json JString (ro_result_parse_error ro))]),
         (''artifact_extraction'', json_object
           [(''status'', JString extraction), (''artifact_type'', JString (artifact_type_name artifact_type)),
            (''agent_result_artifact_state'', JString (candidate_artifact_state_name (ca_state artifact))),
            (''agent_result_artifact_source'', JString (candidate_artifact_source_name (ca_source artifact))),
            (''workspace_delta'', json_object
              [(''status'', JString extraction), (''patch_path'', JString ''candidate.patch''),
               (''captured_bytes'', opt_json jnat captured_patch_bytes), (''scoped_bytes'', opt_json jnat scoped_patch_bytes),
               (''scope'', opt_json (\<lambda>v. v) patch_scope), (''log_dir'', JString ''runner/workspace_patch'')])]),
         (''grader_execution'', json_object
           [(''status'', JString (grader_execution_status graded ro)),
            (''strategy'', opt_json (\<lambda>s. JString (grading_strategy_name s)) (rq_strategy rq)),
            (''stderr'', JString ''grader/stderr.log''), (''stdout'', JString ''grader/stdout.log''),
            (''error'', opt_json JString (ro_grade_error_reason ro))]),
         (''grade_mapping'', json_object
           [(''status'', JString (grade_mapping_status graded ro)), (''mapped_output_present'', JBool (fe_mapped_output_exists env)),
            (''reported_outcome'', opt_json JString (reported_outcome ex (ro_trial_conclusion_row ro))),
            (''score_source'', JString (score_source graded ro))])])"

definition build_trial_contract_trace ::
  "finalize_env \<Rightarrow> scheduled_trial_request \<Rightarrow> prepared_scheduled_trial \<Rightarrow> trial_runtime_outcome \<Rightarrow> trial_judgement \<Rightarrow>
    (judge_error, json) result" where
  "build_trial_contract_trace env rq ps ro tj =
     rbind (ok_or (TrialFileFault ''candidate.patch'') (fe_patch_bytes env)) (\<lambda>captured_patch_bytes.
     rbind (ok_or (TrialFileFault ''trial input'') (fe_trial_input env)) (\<lambda>trial_input.
     rbind (artifact_type_from_trial_input (fe_externs env) trial_input) (\<lambda>artifact_type.
     let graded = ps_grading_enabled ps; value = snd (tj_primary_metric tj) in
     Ok (json_object
       [(''schema_version'', JString ''trial_contract_trace_v1''),
        (''ids'', json_object
          [(''run_id'', JString (rq_run_id rq)), (''trial_id'', JString (ps_trial_id ps)), (''variant_id'', JString (ps_variant_id ps)),
           (''task_id'', JString (ps_task_id ps)), (''repl_idx'', jnat (ps_repl ps)), (''schedule_idx'', jnat (rq_schedule_idx rq))]),
        (''overall_status'', JString (overall_status graded ro value)), (''score_trust'', JString (score_trust graded ro value)),
        (''score'', json_object
          [(''metric'', JString (fst (tj_primary_metric tj))), (''value'', value), (''source'', JString (score_source graded ro)),
           (''outcome'', JString (tj_outcome tj))]),
        (''stages'', trace_stages env rq ps ro tj captured_patch_bytes artifact_type),
        (''artifacts'', json_object
          [(''candidate_patch'', JString ''candidate.patch''), (''mapped_grader_output'', JString ''grader/mapped_output.json''),
           (''trial_summary'', JString ''summary.json'')])]))))"

definition contract_stages :: "string list" where
  "contract_stages = [''task_mapping'', ''agent_execution'', ''artifact_extraction'', ''grader_execution'', ''grade_mapping'']"

definition contract_stage_row_of ::
  "string \<Rightarrow> trial_row_identity \<Rightarrow> (string, json) btree \<Rightarrow> (string \<times> json) list \<Rightarrow> nat \<Rightarrow> string \<Rightarrow>
    (judge_error, contract_stage_row) result" where
  "contract_stage_row_of recorded_at identity stages verdict row_seq stage =
     rbind (ok_or (TraceFieldMissing stage) (bt_get stages stage)) (\<lambda>detail.
     rbind (ok_or (TraceFieldMissing ''status'') (Option.bind (json_get ''status'' detail) as_str)) (\<lambda>status.
     Ok \<lparr>sr_run_id = ti_run_id identity, sr_trial_id = ti_trial_id identity, sr_schedule_idx = ti_schedule_idx identity,
         sr_slot_commit_id = [], sr_attempt = 0, sr_row_seq = row_seq, cs_variant_id = ti_variant_id identity,
         cs_task_id = ti_task_id identity, cs_repl_idx = ti_repl_idx identity, cs_stage = stage, cs_status = status,
         cs_recorded_at = recorded_at,
         cs_detail = (case detail of
            JObject obj \<Rightarrow>
              JObject (if stage = ''grade_mapping'' then fold (\<lambda>(k, v). bt_insert k v) verdict obj else obj)
          | _ \<Rightarrow> detail)\<rparr>))"

fun contract_stage_rows_from ::
  "string \<Rightarrow> trial_row_identity \<Rightarrow> (string, json) btree \<Rightarrow> (string \<times> json) list \<Rightarrow> nat \<Rightarrow> string list \<Rightarrow>
    (judge_error, contract_stage_row list) result" where
  "contract_stage_rows_from recorded_at identity stages verdict row_seq [] = Ok []"
| "contract_stage_rows_from recorded_at identity stages verdict row_seq (stage # rest) =
     rbind (contract_stage_row_of recorded_at identity stages verdict row_seq stage) (\<lambda>row.
     rbind (contract_stage_rows_from recorded_at identity stages verdict (Suc row_seq) rest) (\<lambda>rows. Ok (row # rows)))"

definition build_contract_stage_rows ::
  "finalize_env \<Rightarrow> trial_row_identity \<Rightarrow> json \<Rightarrow> (judge_error, contract_stage_row list) result" where
  "build_contract_stage_rows env identity contract_trace =
     (let ex = fe_externs env in
      rbind (ok_or (TraceFieldMissing ''/overall_status'') (ex_pointer ex contract_trace ''/overall_status'')) (\<lambda>overall.
      rbind (ok_or (TraceFieldMissing ''/score_trust'') (ex_pointer ex contract_trace ''/score_trust'')) (\<lambda>trust.
      rbind (ok_or (TraceFieldMissing ''/score'') (ex_pointer ex contract_trace ''/score'')) (\<lambda>score.
      rbind (ok_or (TraceFieldMissing ''/stages'') (Option.bind (ex_pointer ex contract_trace ''/stages'') as_object)) (\<lambda>stages.
      contract_stage_rows_from (fe_now env) identity stages
        [(''overall_status'', overall), (''score_trust'', trust), (''score'', score)] 0 contract_stages)))))"

section \<open>Rows, state and result\<close>

definition row_identity :: "scheduled_trial_request \<Rightarrow> prepared_scheduled_trial \<Rightarrow> trial_row_identity" where
  "row_identity rq ps =
     \<lparr>ti_run_id = rq_run_id rq, ti_trial_id = ps_trial_id ps, ti_schedule_idx = rq_schedule_idx rq,
      ti_variant_id = ps_variant_id ps, ti_task_id = ps_task_id ps, ti_repl_idx = ps_repl ps\<rparr>"

definition trial_record_of ::
  "scheduled_trial_request \<Rightarrow> prepared_scheduled_trial \<Rightarrow> trial_runtime_outcome \<Rightarrow> trial_judgement \<Rightarrow> trial_record" where
  "trial_record_of rq ps ro tj =
     \<lparr>sr_run_id = rq_run_id rq, sr_trial_id = ps_trial_id ps, sr_schedule_idx = rq_schedule_idx rq, sr_slot_commit_id = [],
      sr_attempt = 0, sr_row_seq = 0, tr_baseline_id = rq_baseline_id rq, tr_workload_type = rq_workload_type rq,
      tr_variant_id = ps_variant_id ps, tr_task_index = ps_task_idx ps, tr_task_id = ps_task_id ps, tr_repl_idx = ps_repl ps,
      tr_outcome = tj_outcome tj, tr_success = (tj_outcome tj = ''success'' \<and> ro_grade_error_reason ro = None),
      tr_status_code = ro_agent_exit_status ro, tr_integration_level = ps_integration_level ps,
      tr_network_mode_requested = ps_network_mode_requested ps, tr_network_mode_effective = ps_network_mode_effective ps,
      tr_primary_metric_name = fst (tj_primary_metric tj), tr_primary_metric_value = snd (tj_primary_metric tj),
      tr_metrics = tj_metrics tj, tr_bindings = ps_bindings ps, tr_events_total = length (ro_event_rows ro),
      tr_has_events = (ro_event_rows ro \<noteq> [])\<rparr>"

text \<open>The buffered sink of the worker, whose appends cannot fail.\<close>

definition append_trial_rows ::
  "finalize_env \<Rightarrow> scheduled_trial_request \<Rightarrow> prepared_scheduled_trial \<Rightarrow> trial_runtime_outcome \<Rightarrow> trial_judgement \<Rightarrow>
    contract_stage_row list \<Rightarrow> unit finalize_op" where
  "append_trial_rows env rq ps ro tj contract_stage_rows =
     omodify (\<lambda>w. w
       \<lparr>fw_trial_records := fw_trial_records w @ [trial_record_of rq ps ro tj],
        fw_metric_rows := fw_metric_rows w @ build_metric_rows (row_identity rq ps) (tj_outcome tj) (tj_metrics tj)
          (fst (tj_primary_metric tj)) (snd (tj_primary_metric tj)),
        fw_event_rows := fw_event_rows w @ ro_event_rows ro,
        fw_contract_stage_rows := fw_contract_stage_rows w @ contract_stage_rows,
        fw_variant_snapshot_rows := fw_variant_snapshot_rows w @
          build_variant_snapshot_rows (fe_externs env) (fe_text env) (row_identity rq ps) (rq_baseline_id rq) (ps_bindings ps)\<rparr>)"

definition complete_guard :: "finalize_env \<Rightarrow> string \<Rightarrow> string option \<Rightarrow> unit finalize_op" where
  "complete_guard env status exit_reason =
     obind (at_file env AtState ''trial_state.json'') (\<lambda>_.
     omodify (\<lambda>w. w\<lparr>fw_state := Some (status, exit_reason), fw_done := True\<rparr>))"

definition classify_failure :: "bool \<Rightarrow> trial_runtime_outcome \<Rightarrow> string \<Rightarrow> string option" where
  "classify_failure grading_enabled ro outcome =
     (if grading_enabled then if ro_grade_error_reason ro \<noteq> None then Some ''grade_error'' else None
      else if ro_agent_exit_status ro \<noteq> ''0'' then Some ''agent_exit_nonzero''
      else if \<not> ro_result_present ro then Some ''result_missing''
      else if ro_result_parse_error ro \<noteq> None then Some ''result_parse_error''
      else if ro_agent_exit_status ro = ''0'' \<and> outcome \<noteq> ''error'' then None
      else Some ''result_error'')"

definition trial_slot_status :: "bool \<Rightarrow> trial_runtime_outcome \<Rightarrow> string \<Rightarrow> string" where
  "trial_slot_status grading_enabled ro outcome =
     (if grading_enabled then
        if runtime_agent_outcome ro = ''timeout'' then ''failed''
        else if ro_grade_error_reason ro = None then ''completed'' else ''grading_failed''
      else if ro_agent_exit_status ro = ''0'' \<and> outcome \<noteq> ''error'' then ''completed'' else ''failed'')"

text \<open>The outputs that an experiment declares beyond the usual ones.\<close>

fun extra_outputs_from :: "nat \<Rightarrow> json list \<Rightarrow> (string, json) btree \<Rightarrow> (judge_error, (string, json) btree) result" where
  "extra_outputs_from idx [] artifacts = Ok artifacts"
| "extra_outputs_from idx (item # items) artifacts =
     rbind (ok_or (ExtraOutputFault idx) (trimmed_text (json_get ''id'' item))) (\<lambda>id.
     rbind (ok_or (ExtraOutputFault idx) (trimmed_text (json_get ''summary_path'' item))) (\<lambda>p.
     extra_outputs_from (Suc idx) items (bt_insert id (JString p) artifacts)))"

definition summary_extra_outputs :: "externs \<Rightarrow> json \<Rightarrow> (judge_error, (string, json) btree) result" where
  "summary_extra_outputs ex experiment =
     (case Option.bind (ex_pointer ex experiment ''/extra_outputs'') as_array of
        None \<Rightarrow> Ok []
      | Some items \<Rightarrow> extra_outputs_from 0 items [])"

definition grader_summary :: "externs \<Rightarrow> trial_runtime_outcome \<Rightarrow> (judge_error, json) result" where
  "grader_summary ex ro =
     (case ro_grade_error_reason ro of
        Some reason \<Rightarrow> Ok (json_object
          [(''status'', JString ''error''), (''reason'', JString reason), (''mapped_output'', JString ''grader/mapped_output.json'')])
      | None \<Rightarrow> (case ro_trial_conclusion_row ro of
          Some row \<Rightarrow>
            rbind (ok_or ConclusionOutcomeMissing (pointer_str ex row ''/reported_outcome'')) (\<lambda>status.
            Ok (json_object
              [(''status'', JString status), (''grader'', opt_json JString (pointer_str ex row ''/grader/name'')),
               (''strategy'', opt_json JString (pointer_str ex row ''/grader/strategy'')),
               (''mapped_output'', JString ''grader/mapped_output.json'')]))
        | None \<Rightarrow> Ok (json_object [(''status'', JString ''not_run'')])))"

definition write_trial_summary ::
  "finalize_env \<Rightarrow> scheduled_trial_request \<Rightarrow> prepared_scheduled_trial \<Rightarrow> trial_runtime_outcome \<Rightarrow> trial_judgement \<Rightarrow>
    (string, json) btree \<Rightarrow> unit finalize_op" where
  "write_trial_summary env rq ps ro tj extra_outputs =
     obind (olift (grader_summary (fe_externs env) ro)) (\<lambda>grader_outcome.
     obind (at_file env AtSummary ''summary.json'') (\<lambda>_.
     omodify (\<lambda>w. w\<lparr>fw_summary := Some (json_object
       [(''schema_version'', JString ''trial_summary_v1''), (''ids'', trial_ids_json rq ps), (''outcome'', JString (tj_outcome tj)),
        (''primary_metric'', json_object
          [(''name'', JString (fst (tj_primary_metric tj))), (''value'', snd (tj_primary_metric tj))]),
        (''agent'', json_object
          [(''outcome'', JString (tj_agent_outcome tj)), (''exit_status'', JString (ro_agent_exit_status ro)),
           (''result'', JString ''agent/result.json''), (''events'', JString ''agent/events.jsonl''),
           (''stdout'', JString ''agent/stdout.log''), (''stderr'', JString ''agent/stderr.log'')]),
        (''grader'', grader_outcome),
        (''artifacts'', json_object
          ([(''candidate_patch'', JString ''candidate.patch''), (''metadata'', JString ''runner/trial_metadata.json''),
            (''prepared_task_environment'', JString ''runner/prepared_task_environment.json''),
            (''state_inventory'', JString ''runner/state_inventory.json''),
            (''contract_trace'', JString ''runner/contract_trace.json'')] @ extra_outputs)),
        (''metrics'', tj_metrics tj)])\<rparr>)))"

text \<open>The two sparing modes remove the \<open>runner\<close> directory with the state file, and what stood in summary and trace.\<close>

definition materialize_layout :: "finalize_env \<Rightarrow> scheduled_trial_request \<Rightarrow> unit finalize_op" where
  "materialize_layout env rq =
     obind (at_file env AtLayout ''trial layout'') (\<lambda>_.
     omodify (\<lambda>w. if rq_materialize_mode rq \<in> {MatMetadataOnly, MatNone}
       then w\<lparr>fw_state := None, fw_summary := None, fw_trace := None\<rparr> else w))"

definition finalize_verdict ::
  "finalize_env \<Rightarrow> scheduled_trial_request \<Rightarrow> prepared_scheduled_trial \<Rightarrow> trial_runtime_outcome \<Rightarrow>
    (trial_judgement \<times> json \<times> contract_stage_row list) finalize_op" where
  "finalize_verdict env rq ps ro =
     obind (finalize_evidence env rq ps ro) (\<lambda>_.
     obind (olift (agent_response_payload_view (ro_trial_output ro))) (\<lambda>response_payload.
     obind (finalize_chain env rq ps response_payload) (\<lambda>_.
     obind (olift (judge_trial (fe_externs env) (rq_metric_definitions rq) (ps_grading_enabled ps) ro response_payload)) (\<lambda>tj.
     obind (olift (build_trial_contract_trace env rq ps ro tj)) (\<lambda>contract_trace.
     obind (olift (build_contract_stage_rows env (row_identity rq ps) contract_trace)) (\<lambda>contract_stage_rows.
     oreturn (tj, contract_trace, contract_stage_rows)))))))"

definition finalize_records ::
  "finalize_env \<Rightarrow> scheduled_trial_request \<Rightarrow> prepared_scheduled_trial \<Rightarrow> trial_runtime_outcome \<Rightarrow>
    trial_judgement \<times> json \<times> contract_stage_row list \<Rightarrow> trial_execution_result finalize_op" where
  "finalize_records env rq ps ro = (\<lambda>(tj, contract_trace, contract_stage_rows).
     let graded = ps_grading_enabled ps; failure_classification = classify_failure graded ro (tj_outcome tj) in
     obind (append_trial_rows env rq ps ro tj contract_stage_rows) (\<lambda>_.
     obind (at_sample env ''trial_finalize_record_buffer'') (\<lambda>_.
     obind (complete_guard env (if failure_classification = None then ''completed'' else ''failed'') failure_classification) (\<lambda>_.
     obind (at_sample env ''trial_finalize_classify_guard'') (\<lambda>_.
     obind (materialize_layout env rq) (\<lambda>_.
     obind (at_sample env ''trial_layout_materialize'') (\<lambda>_.
     obind (at_file env AtLogs ''empty logs'') (\<lambda>_.
     obind (olift (summary_extra_outputs (fe_externs env) (ps_experiment ps))) (\<lambda>extra_outputs.
     obind (write_trial_summary env rq ps ro tj extra_outputs) (\<lambda>_.
     obind (at_file env AtTrace ''contract_trace.json'') (\<lambda>_.
     obind (omodify (\<lambda>w. w\<lparr>fw_trace := Some contract_trace\<rparr>)) (\<lambda>_.
     obind (at_file env AtScratch ''scratch'') (\<lambda>_.
     obind (at_sample env ''trial_scratch_cleanup'') (\<lambda>_.
     oreturn ((trial_execution_result_minimal (ps_trial_id ps) (trial_slot_status graded ro (tj_outcome tj)) (Some (rq_variant_idx rq)))
       \<lparr>ter_deferred_trial_conclusion_records := ro_deferred_trial_conclusion_records ro,
        ter_failure_classification := failure_classification\<rparr>)))))))))))))))"

definition finalize_scheduled_trial ::
  "finalize_env \<Rightarrow> scheduled_trial_request \<Rightarrow> prepared_scheduled_trial \<Rightarrow> trial_runtime_outcome \<Rightarrow>
    trial_execution_result finalize_op" where
  "finalize_scheduled_trial env rq ps ro = obind (finalize_verdict env rq ps ro) (finalize_records env rq ps ro)"

section \<open>The trial of a worker\<close>

text \<open>
  A prepared trial: its attempts (\<open>execute\<close>, the execution backend and the record of the duration), then its end. The rows of the
  buffers and of the payload directory become part of the result. When the trial is dropped before its state
  was written, the guard marks it as aborted. The payload directory is removed last; a failure to do so is an error only of a
  trial that has none.
\<close>

definition drop_guard :: "finalize_env \<Rightarrow> finalize_world \<Rightarrow> finalize_world" where
  "drop_guard env w = (if \<not> fw_done w \<and> fe_io env AtState then w\<lparr>fw_state := Some (''failed'', Some ''aborted'')\<rparr> else w)"

definition run_and_finalize ::
  "finalize_env \<Rightarrow> scheduled_trial_request \<Rightarrow> prepared_scheduled_trial \<Rightarrow> string list \<Rightarrow> nat \<Rightarrow>
    (nat \<Rightarrow> (judge_error, trial_runtime_outcome) result) \<Rightarrow> trial_execution_result finalize_op" where
  "run_and_finalize env rq ps retry_on retry_max_attempts execute =
     obind (run_attempts (fe_externs env) (ps_grading_enabled ps) retry_on (\<lambda>n. olift (execute n)) retry_max_attempts 0 None)
       (\<lambda>runtime_outcome.
     obind (olift (ok_or NoAttempt runtime_outcome)) (\<lambda>ro.
     obind (finalize_scheduled_trial env rq ps ro) (\<lambda>result.
     obind (oforeach [''trial_finalize_and_persist'', ''trial_runtime_outcome_to_worker_completion'', ''trial_total_worker'']
       (at_sample env)) (\<lambda>_.
     obind (at_file env AtPayload ''worker payload'') (\<lambda>_.
     oget (\<lambda>w. result
       \<lparr>ter_variant_idx := Some (rq_variant_idx rq), ter_deferred_trial_records := fw_trial_records w,
        ter_deferred_metric_rows := fw_metric_rows w, ter_deferred_event_rows := fw_event_rows w,
        ter_deferred_contract_stage_rows := fw_contract_stage_rows w,
        ter_deferred_variant_snapshot_rows := fw_variant_snapshot_rows w,
        ter_deferred_evidence_records := fw_evidence w, ter_deferred_chain_state_records := fw_chain_rows w\<rparr>))))))"

definition execute_prepared_trial ::
  "finalize_env \<Rightarrow> scheduled_trial_request \<Rightarrow> prepared_scheduled_trial \<Rightarrow> string list \<Rightarrow> nat \<Rightarrow>
    (nat \<Rightarrow> (judge_error, trial_runtime_outcome) result) \<Rightarrow> trial_execution_result finalize_op" where
  "execute_prepared_trial env rq ps retry_on retry_max_attempts execute w =
     (case run_and_finalize env rq ps retry_on retry_max_attempts execute w of
        (Ok result, w') \<Rightarrow>
          (if fe_io env AtPayloadGone then Ok result else Err (TrialFileFault ''worker payload''), drop_guard env w')
      | (Err e, w') \<Rightarrow> (Err e, drop_guard env w'))"

end
