(* ===== verification/Trial_Run.thy ===== *)
theory Trial_Run
  imports Trial_Finalize
begin

text \<open>
  Properties of the judgement of a trial: how often it is run, when it counts as a success, that its rows appear together or not
  at all, and what its state file says in the end.
\<close>

section \<open>Attempts\<close>

text \<open>The attempts \<open>n + 1\<close>, \<open>n + 2\<close>, ... that were run, with their outcomes.\<close>

fun attempts_run :: "(nat \<Rightarrow> ('w, judge_error, trial_runtime_outcome) op) \<Rightarrow> nat \<Rightarrow> trial_runtime_outcome list \<Rightarrow> 'w \<Rightarrow> 'w \<Rightarrow> bool" where
  "attempts_run execute n [] w w' \<longleftrightarrow> w' = w"
| "attempts_run execute n (ro # ros) w w' \<longleftrightarrow> (\<exists>w1. execute (n + 1) w = (Ok ro, w1) \<and> attempts_run execute (n + 1) ros w1 w')"

lemma run_attempts_outcome:
  assumes "run_attempts ex graded retry_on execute (Suc left) n before w = (Ok result, w')"
  shows "\<exists>ros. attempts_run execute n ros w w' \<and> ros \<noteq> [] \<and> length ros \<le> Suc left \<and> result = Some (last ros) \<and>
    (\<forall>ro \<in> set (butlast ros). attempt_retried ex graded retry_on ro) \<and>
    (length ros = Suc left \<or> \<not> attempt_retried ex graded retry_on (last ros))"
  using assms
proof (induction left arbitrary: n before w)
  case 0
  then obtain ro where "execute (n + 1) w = (Ok ro, w')" "result = Some ro" by (auto simp: obind_eq_Ok oreturn_def)
  then show ?case by (intro exI [of _ "[ro]"]) simp
next
  case (Suc left)
  then obtain ro w1 where ro: "execute (n + 1) w = (Ok ro, w1)"
    and rest: "(if attempt_retried ex graded retry_on ro then run_attempts ex graded retry_on execute (Suc left) (n + 1) (Some ro)
      else oreturn (Some ro)) w1 = (Ok result, w')"
    by (auto simp: obind_eq_Ok)
  show ?case
  proof (cases "attempt_retried ex graded retry_on ro")
    case True
    with rest have "run_attempts ex graded retry_on execute (Suc left) (n + 1) (Some ro) w1 = (Ok result, w')" by simp
    from Suc.IH [OF this] obtain ros where ros: "attempts_run execute (n + 1) ros w1 w'" "ros \<noteq> []" "length ros \<le> Suc left"
      "result = Some (last ros)" "\<forall>ro \<in> set (butlast ros). attempt_retried ex graded retry_on ro"
      "length ros = Suc left \<or> \<not> attempt_retried ex graded retry_on (last ros)" by blast
    with ro True show ?thesis by (intro exI [of _ "ro # ros"]) auto
  next
    case False
    with rest ro show ?thesis by (intro exI [of _ "[ro]"]) (simp add: oreturn_def)
  qed
qed

lemma olift_outcome: "olift r w = (q, w') \<longleftrightarrow> q = r \<and> w' = w"
  by (auto simp: olift_def)

lemma attempts_run_pure:
  "attempts_run (\<lambda>n. olift (execute n)) n ros w w' \<Longrightarrow> w' = w \<and> (\<forall>i < length ros. execute (n + i + 1) = Ok (ros ! i))"
proof (induction ros arbitrary: n w)
  case (Cons ro ros)
  then have "execute (n + 1) = Ok ro" "attempts_run (\<lambda>n. olift (execute n)) (n + 1) ros w w'"
    by (auto simp: olift_outcome)
  with Cons.IH [of "n + 1" w] show ?case by (auto simp: nth_Cons split: nat.split)
qed simp

section \<open>What the phases leave alone\<close>

definition same_rows :: "finalize_world \<Rightarrow> finalize_world \<Rightarrow> bool" where
  "same_rows w w' \<longleftrightarrow> fw_trial_records w' = fw_trial_records w \<and> fw_metric_rows w' = fw_metric_rows w \<and>
     fw_event_rows w' = fw_event_rows w \<and> fw_contract_stage_rows w' = fw_contract_stage_rows w \<and>
     fw_variant_snapshot_rows w' = fw_variant_snapshot_rows w"

definition spares_rows :: "'a finalize_op \<Rightarrow> bool" where
  "spares_rows m \<longleftrightarrow> (\<forall>w r w'. m w = (r, w') \<longrightarrow> same_rows w w' \<and> fw_done w' = fw_done w \<and> fw_state w' = fw_state w)"

lemma same_rows_refl [simp]: "same_rows w w"
  by (simp add: same_rows_def)

lemma same_rows_trans: "same_rows w w1 \<Longrightarrow> same_rows w1 w2 \<Longrightarrow> same_rows w w2"
  by (simp add: same_rows_def)

lemma spares_rowsD: "spares_rows m \<Longrightarrow> m w = (r, w') \<Longrightarrow> same_rows w w' \<and> fw_done w' = fw_done w \<and> fw_state w' = fw_state w"
  by (simp add: spares_rows_def)

lemma spares_obind [intro]: "spares_rows m \<Longrightarrow> (\<And>x. spares_rows (f x)) \<Longrightarrow> spares_rows (obind m f)"
  unfolding spares_rows_def obind_def by (fastforce split: prod.splits sum.splits intro: same_rows_trans)

lemma spares_simps [simp]:
  "spares_rows (olift r)" "spares_rows (oreturn x)" "spares_rows (ofail e)" "spares_rows (oget g)" "spares_rows (at_file env p name)"
  "spares_rows (at_sample env stage)"
  by (auto simp: spares_rows_def op_defs at_file_def at_sample_def)

lemma spares_omodify: "(\<And>w. same_rows w (f w) \<and> fw_done (f w) = fw_done w \<and> fw_state (f w) = fw_state w) \<Longrightarrow> spares_rows (omodify f)"
  by (auto simp: spares_rows_def omodify_def)

lemma spares_evidence: "spares_rows (finalize_evidence env rq ps ro)"
proof -
  have put: "spares_rows (put_artifact env p bytes)" for p bytes
    unfolding put_artifact_def by (auto intro!: spares_obind spares_omodify simp: same_rows_def split: prod.split)
  have blob: "spares_rows (evidence_blob_ref env blob)" for blob
    unfolding evidence_blob_ref_def by (auto intro!: spares_obind put split: option.split EvidenceBlobRef.split)
  show ?thesis
    unfolding finalize_evidence_def append_uncommitted_row_def Let_def
    by (intro spares_obind spares_omodify put blob spares_simps) (simp_all add: same_rows_def)
qed

lemma spares_chain: "spares_rows (finalize_chain env rq ps payload)"
  unfolding finalize_chain_def append_uncommitted_row_def
  by (intro spares_obind spares_omodify spares_simps) (simp add: same_rows_def)

lemma spares_verdict: "spares_rows (finalize_verdict env rq ps ro)"
  unfolding finalize_verdict_def by (intro spares_obind spares_evidence spares_chain spares_simps)

text \<open>What is left once the rows are there: the state is written at most once, and the rows stay.\<close>

definition records_rows :: "'a finalize_op \<Rightarrow> bool" where
  "records_rows m \<longleftrightarrow> (\<forall>w r w'. m w = (r, w') \<longrightarrow> same_rows w w' \<and> (fw_done w \<longrightarrow> fw_done w'))"

lemma records_rows_obind [intro]: "records_rows m \<Longrightarrow> (\<And>x. records_rows (f x)) \<Longrightarrow> records_rows (obind m f)"
  unfolding records_rows_def obind_def by (fastforce split: prod.splits sum.splits intro: same_rows_trans)

lemma records_rows_simps [simp]:
  "records_rows (olift r)" "records_rows (oreturn x)" "records_rows (at_file env p name)"
  "records_rows (at_sample env stage)"
  by (auto simp: records_rows_def op_defs at_file_def at_sample_def)

lemma records_rows_omodify: "(\<And>w. same_rows w (f w) \<and> (fw_done w \<longrightarrow> fw_done (f w))) \<Longrightarrow> records_rows (omodify f)"
  by (auto simp: records_rows_def omodify_def)

lemma records_rows_rest:
  "records_rows (materialize_layout env rq)" "records_rows (write_trial_summary env rq ps ro tj extra)"
  unfolding materialize_layout_def write_trial_summary_def
  by (intro records_rows_obind records_rows_omodify records_rows_simps; simp add: same_rows_def)+

lemma verdict_Ok:
  assumes "finalize_verdict env rq ps ro w = (Ok (tj, trace, stage_rows), w')"
  shows "\<exists>payload. agent_response_payload_view (ro_trial_output ro) = Ok payload \<and>
    judge_trial (fe_externs env) (rq_metric_definitions rq) (ps_grading_enabled ps) ro payload = Ok tj \<and>
    build_trial_contract_trace env rq ps ro tj = Ok trace \<and>
    build_contract_stage_rows env (row_identity rq ps) trace = Ok stage_rows"
  using assms by (auto simp: finalize_verdict_def obind_eq_Ok olift_def oreturn_def)

lemma records_rows_guard: "records_rows (complete_guard env status reason)"
  unfolding complete_guard_def by (intro records_rows_obind records_rows_omodify records_rows_simps) (simp add: same_rows_def)

lemma records_outcome:
  assumes "finalize_records env rq ps ro (tj, trace, stage_rows) w = (r, w')"
  shows "same_rows (snd (append_trial_rows env rq ps ro tj stage_rows w)) w' \<and>
    (\<forall>result. r = Ok result \<longrightarrow> fw_done w' \<and> ter_slot_status result = trial_slot_status (ps_grading_enabled ps) ro (tj_outcome tj) \<and>
       ter_failure_classification result = classify_failure (ps_grading_enabled ps) ro (tj_outcome tj) \<and>
       (rq_materialize_mode rq \<in> {MatOutputsOnly, MatFull} \<longrightarrow>
          fw_state w' = Some (if ter_failure_classification result = None then ''completed'' else ''failed'', ter_failure_classification result)))"
proof -
  have "\<exists>rest. finalize_records env rq ps ro (tj, trace, stage_rows) =
      obind (append_trial_rows env rq ps ro tj stage_rows) (\<lambda>_. rest) \<and> records_rows rest"
    unfolding finalize_records_def Let_def prod.case
    by (rule exI, rule conjI, rule refl)
      (intro records_rows_obind records_rows_rest records_rows_guard records_rows_simps records_rows_omodify; simp add: same_rows_def)
  then obtain rest where all: "finalize_records env rq ps ro (tj, trace, stage_rows) =
      obind (append_trial_rows env rq ps ro tj stage_rows) (\<lambda>_. rest)" and rows: "records_rows rest" by blast
  let ?w1 = "snd (append_trial_rows env rq ps ro tj stage_rows w)"
  have "rest ?w1 = (r, w')" using assms by (simp add: all obind_def append_trial_rows_def omodify_def)
  then have "same_rows ?w1 w'" using rows unfolding records_rows_def by blast
  moreover have "fw_done w'" "ter_slot_status result = trial_slot_status (ps_grading_enabled ps) ro (tj_outcome tj)"
      "ter_failure_classification result = classify_failure (ps_grading_enabled ps) ro (tj_outcome tj)"
      "rq_materialize_mode rq \<in> {MatOutputsOnly, MatFull} \<Longrightarrow>
        fw_state w' = Some (if ter_failure_classification result = None then ''completed'' else ''failed'', ter_failure_classification result)"
    if "r = Ok result" for result
    using assms that
    by (auto simp: finalize_records_def Let_def obind_eq_Ok oreturn_def trial_execution_result_minimal_def omodify_def materialize_layout_def
        complete_guard_def at_sample_def at_file_def olift_def write_trial_summary_def)
  ultimately show ?thesis by blast
qed

lemma finalize_outcome:
  assumes "finalize_scheduled_trial env rq ps ro w = (r, w')"
  shows "(\<exists>e. r = Err e) \<and> same_rows w w' \<and> fw_done w' = fw_done w \<or>
    (\<exists>tj trace stage_rows w1. finalize_verdict env rq ps ro w = (Ok (tj, trace, stage_rows), w1) \<and>
       finalize_records env rq ps ro (tj, trace, stage_rows) w1 = (r, w') \<and> same_rows w w1 \<and> fw_done w1 = fw_done w)"
proof -
  obtain v w1 where v: "finalize_verdict env rq ps ro w = (v, w1)" by (cases "finalize_verdict env rq ps ro w")
  note spares_rows = spares_rowsD [OF spares_verdict v]
  show ?thesis
  proof (cases v)
    case (Inl e)
    with assms v spares_rows show ?thesis by (auto simp: finalize_scheduled_trial_def obind_def)
  next
    case (Inr x)
    with assms v spares_rows show ?thesis by (cases x) (simp add: finalize_scheduled_trial_def obind_def)
  qed
qed

text \<open>The rows of one trial, all five kinds of them.\<close>

definition trial_rows_added :: "finalize_world \<Rightarrow> finalize_world \<Rightarrow> trial_runtime_outcome \<Rightarrow> bool" where
  "trial_rows_added w w' ro \<longleftrightarrow>
     (\<exists>r m c v. fw_trial_records w' = fw_trial_records w @ [r] \<and> fw_metric_rows w' = fw_metric_rows w @ m \<and> m \<noteq> [] \<and>
        fw_event_rows w' = fw_event_rows w @ ro_event_rows ro \<and> fw_contract_stage_rows w' = fw_contract_stage_rows w @ c \<and>
        length c = length contract_stages \<and> fw_variant_snapshot_rows w' = fw_variant_snapshot_rows w @ v)"

lemma stage_rows_length:
  "contract_stage_rows_from now identity stages verdict n names = Ok rows \<Longrightarrow> length rows = length names"
  by (induction names arbitrary: n rows) (auto simp: result_iffs)

lemma records_add_rows:
  assumes "finalize_verdict env rq ps ro w = (Ok (tj, trace, stage_rows), w1)" "same_rows w w1"
    and "same_rows (snd (append_trial_rows env rq ps ro tj stage_rows w1)) w'"
  shows "trial_rows_added w w' ro"
proof -
  have "build_contract_stage_rows env (row_identity rq ps) trace = Ok stage_rows" using verdict_Ok [OF assms(1)] by blast
  then have "length stage_rows = length contract_stages"
    by (auto simp: build_contract_stage_rows_def Let_def result_iffs dest: stage_rows_length)
  moreover have "build_metric_rows identity outcome metrics name x \<noteq> []" for identity outcome metrics name x
    by (simp add: build_metric_rows_def Let_def)
  ultimately show ?thesis
    using assms(2,3) unfolding trial_rows_added_def
    by (auto simp: same_rows_def append_trial_rows_def omodify_def)
qed

lemma run_attempts_world:
  "run_attempts ex graded retry_on (\<lambda>n. olift (execute n)) k n before w = (r, w') \<Longrightarrow> w' = w"
proof (induction k arbitrary: n before)
  case (Suc k)
  then show ?case by (cases "execute (n + 1)") (auto simp: obind_def olift_def oreturn_def split: if_splits)
qed (simp add: oreturn_def)

text \<open>What becomes part of the result.\<close>

definition carries_rows :: "trial_execution_result \<Rightarrow> finalize_world \<Rightarrow> bool" where
  "carries_rows result w \<longleftrightarrow> ter_deferred_trial_records result = fw_trial_records w \<and> ter_deferred_metric_rows result = fw_metric_rows w \<and>
     ter_deferred_event_rows result = fw_event_rows w \<and> ter_deferred_contract_stage_rows result = fw_contract_stage_rows w \<and>
     ter_deferred_variant_snapshot_rows result = fw_variant_snapshot_rows w \<and> ter_deferred_evidence_records result = fw_evidence w \<and>
     ter_deferred_chain_state_records result = fw_chain_rows w"

lemma run_and_finalize_outcome:
  assumes "run_and_finalize env rq ps retry_on k execute w = (r, w')" "\<not> fw_done w"
  shows "((\<exists>ro. trial_rows_added w w' ro) \<or> \<not> fw_done w' \<and> same_rows w w') \<and>
    (\<forall>result. r = Ok result \<longrightarrow> fw_done w' \<and> (\<exists>ro. trial_rows_added w w' ro) \<and> carries_rows result w')"
proof -
  let ?attempts = "run_attempts (fe_externs env) (ps_grading_enabled ps) retry_on (\<lambda>n. olift (execute n)) k 0 None"
  obtain a w1 where a: "?attempts w = (a, w1)" by (cases "?attempts w")
  from run_attempts_world [OF this] have w1: "w1 = w" .
  show ?thesis
  proof (cases "\<exists>ro. a = Ok (Some ro)")
    case False
    with assms(1,2) a w1 show ?thesis
      by (cases a) (auto simp: run_and_finalize_def obind_def olift_def ok_or_def split: option.splits)
  next
    case True
    then obtain ro where ro: "a = Ok (Some ro)" by blast
    obtain f w2 where f: "finalize_scheduled_trial env rq ps ro w = (f, w2)" by (cases "finalize_scheduled_trial env rq ps ro w")
    with assms(1) a w1 ro have end_world: "w' = w2"
      and carried: "r = Ok result \<Longrightarrow> is_ok f \<and> carries_rows result w'" for result
      by (auto simp: run_and_finalize_def obind_def olift_def oget_def oreturn_def at_sample_def at_file_def is_ok_def carries_rows_def
          split: sum.splits)
    from finalize_outcome [OF f] show ?thesis
    proof (elim disjE exE conjE)
      fix e assume "f = Err e" "same_rows w w2" "fw_done w2 = fw_done w"
      with end_world carried assms(2) show ?thesis by (auto simp: is_ok_def)
    next
      fix tj trace stage_rows w3
      assume v: "finalize_verdict env rq ps ro w = (Ok (tj, trace, stage_rows), w3)" "same_rows w w3"
        and rec: "finalize_records env rq ps ro (tj, trace, stage_rows) w3 = (f, w2)"
      have "trial_rows_added w w2 ro" "is_ok f \<longrightarrow> fw_done w2"
        using records_outcome [OF rec] records_add_rows [OF v] by (auto simp: is_ok_def split: sum.splits)
      with end_world carried show ?thesis by blast
    qed
  qed
qed

section \<open>Success\<close>

text \<open>When a trial is a success: by the verdict of its grader, or by a result that can be read.\<close>

definition trial_succeeded :: "externs \<Rightarrow> bool \<Rightarrow> trial_runtime_outcome \<Rightarrow> bool" where
  "trial_succeeded ex graded ro \<longleftrightarrow>
     (if graded then ro_agent_exit_status ro \<noteq> ''timeout'' \<and> ro_grade_error_reason ro = None \<and>
        (\<exists>row. ro_trial_conclusion_row ro = Some row \<and> pointer_str ex row ''/reported_outcome'' \<in> {Some ''success'', Some ''pass''})
      else ro_agent_exit_status ro = ''0'' \<and> ro_result_present ro \<and> ro_result_parse_error ro = None \<and> ro_grade_error_reason ro = None)"

lemma timeout_iff: "runtime_agent_outcome ro = ''timeout'' \<longleftrightarrow> ro_agent_exit_status ro = ''timeout''"
  by (simp add: runtime_agent_outcome_def agent_response_execution_outcome_def)

lemma mapped_success_iff: "trial_conclusion_outcome_to_trial_outcome s = Some ''success'' \<longleftrightarrow> s \<in> {''success'', ''pass''}"
  by (auto simp: trial_conclusion_outcome_to_trial_outcome_def grader_verdict_to_trial_outcome_def)

lemma graded_success_iff:
  "Option.bind (reported_outcome ex row) trial_conclusion_outcome_to_trial_outcome = Some ''success'' \<longleftrightarrow>
     (\<exists>r. row = Some r \<and> pointer_str ex r ''/reported_outcome'' \<in> {Some ''success'', Some ''pass''})"
proof (cases row)
  case None
  then show ?thesis by (simp add: reported_outcome_def)
next
  case (Some r)
  show ?thesis
  proof (cases "pointer_str ex r ''/reported_outcome''")
    case None
    with Some show ?thesis by (simp add: reported_outcome_def pointer_str_def)
  next
    case outcome: (Some s)
    with Some have "reported_outcome ex row = Some s" by (simp add: reported_outcome_def pointer_str_def)
    then show ?thesis using mapped_success_iff [of s] by (simp add: Some outcome)
  qed
qed

lemma outcome_success_iff:
  "trial_outcome ex graded ro = ''success'' \<and> ro_grade_error_reason ro = None \<longleftrightarrow> trial_succeeded ex graded ro"
proof (cases graded)
  case True
  have "(case x of Some mapped \<Rightarrow> mapped | None \<Rightarrow> ''missing'') = ''success'' \<longleftrightarrow> x = Some ''success''" for x :: "string option"
    by (cases x) simp_all
  note mapped = this
  show ?thesis
  proof (cases "ro_agent_exit_status ro = ''timeout'' \<or> ro_grade_error_reason ro \<noteq> None")
    case early: True
    with True show ?thesis by (auto simp: trial_outcome_def trial_succeeded_def Let_def runtime_agent_outcome_def agent_response_execution_outcome_def)
  next
    case False
    with True have "trial_outcome ex graded ro = (case Option.bind (reported_outcome ex (ro_trial_conclusion_row ro))
        trial_conclusion_outcome_to_trial_outcome of Some mapped \<Rightarrow> mapped | None \<Rightarrow> ''missing'')"
      by (simp add: trial_outcome_def timeout_iff)
    then have "trial_outcome ex graded ro = ''success'' \<longleftrightarrow> (\<exists>row. ro_trial_conclusion_row ro = Some row \<and>
        pointer_str ex row ''/reported_outcome'' \<in> {Some ''success'', Some ''pass''})"
      by (simp only: mapped graded_success_iff)
    with False True show ?thesis by (simp add: trial_succeeded_def)
  qed
next
  case False
  then show ?thesis
    by (auto simp: trial_outcome_def trial_succeeded_def Let_def runtime_agent_outcome_def agent_response_execution_outcome_def)
qed

lemma status_disagreement:
  assumes "outcome = trial_outcome ex graded ro"
  shows "(trial_slot_status graded ro outcome = ''completed'') \<noteq> (classify_failure graded ro outcome = None) \<longleftrightarrow>
    (if graded then ro_agent_exit_status ro = ''timeout'' \<and> ro_grade_error_reason ro = None
     else ro_agent_exit_status ro = ''0'' \<and> \<not> ro_result_present ro)"
proof (cases graded)
  case True
  then show ?thesis by (simp add: trial_slot_status_def classify_failure_def timeout_iff)
next
  case False
  with assms have "outcome = runtime_agent_outcome ro" by (simp add: trial_outcome_def)
  with False show ?thesis
    by (simp add: trial_slot_status_def classify_failure_def runtime_agent_outcome_def agent_response_execution_outcome_def)
qed

section \<open>A sample trial\<close>

definition sample_finalize_env :: finalize_env where
  "sample_finalize_env =
     \<lparr>fe_externs = sample_externs, fe_io = (\<lambda>_. True), fe_pretty = (\<lambda>_. ''{}''), fe_text = (\<lambda>_. ''{}''), fe_envelope = (\<lambda>_. None),
      fe_contract = (\<lambda>_. True), fe_now = ''t1'', fe_duration_ms = 0, fe_read = (\<lambda>_. None), fe_patch_bytes = Some (Some 0),
      fe_trial_input = Some (JObject [(''artifact_type'', JString ''text_response'')]), fe_mapped_output_exists = True\<rparr>"

definition sample_trial_request :: scheduled_trial_request where
  "sample_trial_request =
     \<lparr>rq_run_id = ''run'', rq_workload_type = ''agent'', rq_schedule_idx = 0, rq_variant_idx = 0, rq_baseline_id = ''base'',
      rq_metric_definitions = [], rq_strategy = Some GradeInTaskRuntime, rq_materialize_mode = MatFull\<rparr>"

definition sample_prepared_trial :: prepared_scheduled_trial where
  "sample_prepared_trial =
     \<lparr>ps_variant_id = ''v'', ps_bindings = JObject [], ps_task_id = ''t'', ps_task_idx = 0, ps_repl = 0, ps_grading_enabled = True,
      ps_chain_key = ''v::t'', ps_chain_step_index = 0, ps_trial_id = ''trial_1'', ps_trial_input_ref = ''ref'',
      ps_task_sandbox_image = ''image'', ps_task_sandbox_workdir = ''/work'', ps_materialization_kind = ''task_image'',
      ps_integration_level = ''cli'', ps_network_mode_requested = ''none'', ps_network_mode_effective = ''none'',
      ps_experiment = JObject [],
      ps_effective_policy = \<lparr>tp_task_model = Independent, tp_scoring_lifecycle = ''predict_then_score'',
        tp_required_evidence_classes = [''trial_output_ref''], tp_chain_failure_policy = ''continue_with_flag'',
        tp_state_policy = IsolatePerTrial\<rparr>\<rparr>"

definition sample_runtime_outcome :: "string \<Rightarrow> trial_runtime_outcome" where
  "sample_runtime_outcome exit_status =
     \<lparr>ro_executor = LocalDocker, ro_agent_exit_status = exit_status, ro_trial_output = JObject [], ro_result_present = True,
      ro_result_parse_error = None, ro_stdout = None, ro_stderr = None, ro_events = None, ro_event_rows = [],
      ro_trial_conclusion_row = Some (JObject [(''payload'', JNull), (''reported_outcome'', JString ''pass'')]),
      ro_deferred_trial_conclusion_records = [], ro_grade_error_reason = None\<rparr>"

definition sample_finalize_world :: finalize_world where
  "sample_finalize_world =
     \<lparr>fw_chain_states = [], fw_artifacts = Map.empty, fw_evidence = [], fw_chain_rows = [], fw_trial_records = [],
      fw_metric_rows = [], fw_event_rows = [], fw_contract_stage_rows = [], fw_variant_snapshot_rows = [],
      fw_state = Some (''running'', None), fw_done = False, fw_summary = None, fw_trace = None\<rparr>"

lemma sample_finalized:
  "is_ok (fst (finalize_scheduled_trial sample_finalize_env sample_trial_request sample_prepared_trial (sample_runtime_outcome ''0'')
     sample_finalize_world))"
  "is_ok (fst (finalize_scheduled_trial sample_finalize_env sample_trial_request sample_prepared_trial (sample_runtime_outcome ''timeout'')
     sample_finalize_world))"
  by code_simp+

section \<open>Properties\<close>

text \<open>
  C31: A trial is recorded as a success exactly when it was one: for a graded trial, when the agent did not time out, grading
  did not fail and the grader reported success or pass; otherwise, when the agent exited with status 0 and left a result that
  can be parsed. The status of the slot and the classification of the failure agree, except in two cases: a
  graded trial whose agent timed out is a failed slot without a failure, and an ungraded trial without a result is a completed
  slot with the failure \<open>result_missing\<close>.
\<close>

theorem trial_verdict_recorded:
  assumes "finalize_scheduled_trial env rq ps ro w = (Ok result, w')"
  shows "(\<exists>r. fw_trial_records w' = fw_trial_records w @ [r] \<and>
      (tr_success r \<longleftrightarrow> trial_succeeded (fe_externs env) (ps_grading_enabled ps) ro)) \<and>
    ((ter_slot_status result = ''completed'') \<noteq> (ter_failure_classification result = None) \<longleftrightarrow>
      (if ps_grading_enabled ps then ro_agent_exit_status ro = ''timeout'' \<and> ro_grade_error_reason ro = None
       else ro_agent_exit_status ro = ''0'' \<and> \<not> ro_result_present ro))"
proof -
  obtain tj trace stage_rows w1 where v: "finalize_verdict env rq ps ro w = (Ok (tj, trace, stage_rows), w1)"
    and rec: "finalize_records env rq ps ro (tj, trace, stage_rows) w1 = (Ok result, w')" and same: "same_rows w w1"
    using finalize_outcome [OF assms] by blast
  have outcome: "tj_outcome tj = trial_outcome (fe_externs env) (ps_grading_enabled ps) ro"
    using verdict_Ok [OF v] by (auto simp: judge_trial_def Let_def result_iffs)
  note recorded = records_outcome [OF rec]
  have "fw_trial_records w' = fw_trial_records w @ [trial_record_of rq ps ro tj]"
    using recorded same by (simp add: same_rows_def append_trial_rows_def omodify_def)
  moreover have "tr_success (trial_record_of rq ps ro tj) \<longleftrightarrow> trial_succeeded (fe_externs env) (ps_grading_enabled ps) ro"
    using outcome_success_iff [of "fe_externs env" "ps_grading_enabled ps" ro] by (simp add: trial_record_of_def outcome)
  ultimately show ?thesis using recorded status_disagreement [OF outcome] by auto
qed

theorem trial_verdict_recorded_witness:
  "\<exists>result w'. finalize_scheduled_trial sample_finalize_env sample_trial_request sample_prepared_trial (sample_runtime_outcome ''timeout'')
      sample_finalize_world = (Ok result, w') \<and>
    (ter_slot_status result = ''completed'') \<noteq> (ter_failure_classification result = None)"
proof -
  obtain result w' where f: "finalize_scheduled_trial sample_finalize_env sample_trial_request sample_prepared_trial
      (sample_runtime_outcome ''timeout'') sample_finalize_world = (Ok result, w')"
    using sample_finalized(2)
    by (cases "finalize_scheduled_trial sample_finalize_env sample_trial_request sample_prepared_trial
        (sample_runtime_outcome ''timeout'') sample_finalize_world") (auto simp: is_ok_def split: sum.splits)
  from trial_verdict_recorded [OF f] f show ?thesis by (auto simp: sample_prepared_trial_def sample_runtime_outcome_def)
qed

text \<open>
  C33: A worker runs a trial at least once and at most \<open>retry_max_attempts\<close> times, with consecutive attempt numbers; every
  attempt but the last had an outcome that the policy repeats, the last one does not have such an outcome or used up the
  attempts, and its outcome is the one that is finalised. Without attempts the trial is an error.
\<close>

theorem trial_attempts_bounded:
  assumes "run_and_finalize env rq ps retry_on retry_max_attempts execute w = (r, w')"
  shows "(retry_max_attempts = 0 \<longrightarrow> r = Err NoAttempt) \<and>
    (\<forall>result. r = Ok result \<longrightarrow> (\<exists>ros. ros \<noteq> [] \<and> length ros \<le> retry_max_attempts \<and>
       (\<forall>i < length ros. execute (i + 1) = Ok (ros ! i)) \<and>
       (\<forall>ro \<in> set (butlast ros). attempt_retried (fe_externs env) (ps_grading_enabled ps) retry_on ro) \<and>
       (length ros = retry_max_attempts \<or> \<not> attempt_retried (fe_externs env) (ps_grading_enabled ps) retry_on (last ros)) \<and>
       (\<exists>finalised. finalize_scheduled_trial env rq ps (last ros) w = (Ok finalised, w'))))"
proof (cases retry_max_attempts)
  case 0
  with assms show ?thesis by (auto simp: run_and_finalize_def op_defs)
next
  case (Suc left)
  have "\<exists>ros. ros \<noteq> [] \<and> length ros \<le> retry_max_attempts \<and> (\<forall>i < length ros. execute (i + 1) = Ok (ros ! i)) \<and>
       (\<forall>ro \<in> set (butlast ros). attempt_retried (fe_externs env) (ps_grading_enabled ps) retry_on ro) \<and>
       (length ros = retry_max_attempts \<or> \<not> attempt_retried (fe_externs env) (ps_grading_enabled ps) retry_on (last ros)) \<and>
       (\<exists>finalised. finalize_scheduled_trial env rq ps (last ros) w = (Ok finalised, w'))" if "r = Ok result" for result
  proof -
    from assms that obtain outcome w1 ro where
      run: "run_attempts (fe_externs env) (ps_grading_enabled ps) retry_on (\<lambda>n. olift (execute n)) (Suc left) 0 None w = (Ok outcome, w1)"
      and ro: "outcome = Some ro" and fin: "\<exists>finalised. finalize_scheduled_trial env rq ps ro w1 = (Ok finalised, w')"
      unfolding run_and_finalize_def by (auto simp: obind_eq_Ok olift_def oget_def oreturn_def at_sample_def at_file_def ok_or_eq_Inr Suc)
    obtain ros where ros: "attempts_run (\<lambda>n. olift (execute n)) 0 ros w w1" "ros \<noteq> []" "length ros \<le> Suc left"
      "outcome = Some (last ros)" "\<forall>ro \<in> set (butlast ros). attempt_retried (fe_externs env) (ps_grading_enabled ps) retry_on ro"
      "length ros = Suc left \<or> \<not> attempt_retried (fe_externs env) (ps_grading_enabled ps) retry_on (last ros)"
      using run_attempts_outcome [OF run] by blast
    from attempts_run_pure [OF ros(1)] have "w1 = w" "\<forall>i < length ros. execute (i + 1) = Ok (ros ! i)" by simp_all
    with ros ro fin show ?thesis by (intro exI [of _ ros]) (simp add: Suc)
  qed
  then show ?thesis by (simp add: Suc)
qed

theorem trial_attempts_bounded_witness:
  "\<exists>result w' ros. run_and_finalize sample_finalize_env sample_trial_request sample_prepared_trial [''timeout''] 3
      (\<lambda>n. Ok (sample_runtime_outcome (if n = 1 then ''timeout'' else ''0''))) sample_finalize_world = (Ok result, w') \<and>
    ros \<noteq> [] \<and> length ros \<le> 3 \<and>
    (\<exists>finalised. finalize_scheduled_trial sample_finalize_env sample_trial_request sample_prepared_trial (last ros) sample_finalize_world =
       (Ok finalised, w'))"
proof -
  let ?run = "run_and_finalize sample_finalize_env sample_trial_request sample_prepared_trial [''timeout''] 3
      (\<lambda>n. Ok (sample_runtime_outcome (if n = 1 then ''timeout'' else ''0''))) sample_finalize_world"
  have "is_ok (fst ?run)" by code_simp
  then obtain result w' where run: "?run = (Ok result, w')" by (cases ?run) (auto simp: is_ok_def split: sum.splits)
  from trial_attempts_bounded [OF run, THEN conjunct2, THEN spec, THEN mp, OF refl] run show ?thesis by blast
qed



text \<open>
  An override of a task that does not speak of evidence still replaces the evidence classes that the experiment requires, by
  none.
\<close>

lemma override_drops_required_evidence:
  assumes "json_get ''policy_override'' task_payload = Some (JObject [(''state_policy'', JString ''accumulate'')])"
  shows "\<exists>policy. resolve_effective_task_policy state_policy task_policy task_payload = Ok policy \<and>
    tp_required_evidence_classes policy = []"
  using assms
  by (simp add: resolve_effective_task_policy_def override_str_def bt_get_def parse_state_policy_value_def
      parse_string_array_field_def Let_def)

end
