(* ===== verification/Spec2Isabelle.thy ===== *)
theory Spec2Isabelle
  imports Engine_Capacity Engine_Stop Command_Text Debug_Bundle Sealed_Verify Trial_Run
begin

text \<open>
  A verification development for the experiment runner of Bucephalus (Rust crate \<open>lab-runner\<close>, with
  parts of \<open>lab-core\<close> and \<open>lab-provenance\<close>). All paths below are under \<open>src/rust/crates/lab-runner/src\<close> unless another crate is
  named.

  \<^bold>\<open>The program.\<close> An experiment is a matrix of variants, tasks and replications. The runner lays the
  matrix out as a schedule of slots, runs one trial per slot in containers and makes the result of each
  slot durable in a run store. Worker threads pull slots from an in-memory broker and claim them in the
  store; one coordinator thread takes their completions, deduplicates them and commits them in schedule
  order. Outside the engine a user pauses, resumes, kills and recovers runs; those operations are serialised
  by an operation lease, and the engine itself is identified by an engine lease with a heartbeat. A run starts from a sealed
  package, whose contents are checked against its digests, and a finished one can be handed to support as a debug bundle.

  \<^bold>\<open>Theories.\<close>
  \<^item> \<open>Prelude\<close>: results, operations with state and errors (\<open>obind\<close> is the \<open>?\<close> operator on them), Rust's
    integers and strings, ordered maps behind the locale \<open>ordered_map\<close>, and the locales
    \<open>invariant_system\<close>, \<open>simulation\<close> and \<open>ledger\<close>, which are interpreted on the store, the broker, the
    committer and the leases.
  \<^item> \<open>Schedule\<close> (\<open>config.rs\<close>): the three scheduling policies and the seeded shuffle on 64-bit words.
  \<^item> \<open>Json\<close> (\<open>lab-core/src/lib.rs\<close>): JSON values, canonical rendering, digests and the artifact store.
  \<^item> \<open>Run_State\<close> (\<open>experiment/state.rs\<close>, \<open>model.rs\<close>): execution options, schedule progress, journal
    records.
  \<^item> \<open>Rows\<close> (\<open>persistence/rows.rs\<close>): the rows of a trial and their identity.
  \<^item> \<open>Slot_Store\<close> (\<open>persistence/store.rs\<close>): tables of slots, commits, progress and facts, every
    transaction that changes them, and the abstract life cycle of a slot which they refine.
  \<^item> \<open>Slot_Broker\<close> (\<open>SlotBroker\<close> in \<open>experiment/runner.rs\<close>): which slot is dispatched to which worker.
  \<^item> \<open>Committer\<close> (\<open>experiment/commit.rs\<close>): the commit of one slot and the deterministic committer.
  \<^item> \<open>Lease\<close> (\<open>experiment/lease.rs\<close>): operation lease and engine lease.
  \<^item> \<open>Trial_State\<close> (\<open>trial/state.rs\<close>, \<open>trial/execution.rs\<close>, \<open>trial/execution/local_docker.rs\<close>): phases of an
    attempt, its two copies and the removal of its containers.
  \<^item> \<open>Run_Control\<close> (\<open>experiment/control.rs\<close>): the control record; pause, kill and resume.
  \<^item> \<open>Run_Kill\<close>: what a kill leaves behind, trial by trial.
  \<^item> \<open>Recovery\<close> (\<open>recover_run\<close> in \<open>experiment/runner.rs\<close>): taking over an abandoned run.
  \<^item> \<open>Engine\<close> (\<open>execute_schedule_engine\<close> and \<open>spawn_pull_worker\<close> in \<open>experiment/runner.rs\<close>): the schedule engine, which
    drives broker, committer, store and control record. \<open>en_workers\<close> is where each worker thread stands,
    \<open>en_events\<close> the channel, \<open>en_phase\<close> where the coordinator stands. \<open>Engine_Inv\<close> has the step relation, in which
    coordinator, workers and other processes take turns in any order, and the invariant that accounts for every
    slot; \<open>Engine_Steps\<close> shows that every step keeps it; \<open>Engine_Properties\<close>, \<open>Engine_Capacity\<close> and
    \<open>Engine_Stop\<close> hold the properties: completion, number of trials under way, the ways to stop.
  \<^item> \<open>Command_Text\<close> (\<open>util.rs\<close>, \<open>experiment/runner.rs\<close>, \<open>config.rs\<close>): quoting and splitting of commands,
    selectors and \<open>--set\<close> overrides.
  \<^item> \<open>Ascii_Text\<close>, \<open>File_Paths\<close>: letters without regard to case, \<open>str::contains\<close>; path components and \<open>normalize_path\<close>.
  \<^item> \<open>Sealed_Package\<close>, \<open>Sealed_Verify\<close> (\<open>package/sealed.rs\<close>, \<open>package/cas.rs\<close>): verification of a sealed package and the copy of its
    payload into the run directory, on a file system that is a parameter; and what a verified package guarantees.
  \<^item> \<open>Debug_Bundle\<close> (\<open>lab-provenance/src/lib.rs\<close>): the archive for support and its redaction.
  \<^item> \<open>Trial_Events\<close> (\<open>trial/events.rs\<close>, \<open>persistence/journal.rs\<close>): reading the event file of a trial and ingesting it into
    the store while the trial runs.
  \<^item> \<open>Trial_Outcome\<close> (\<open>config.rs\<close>, \<open>trial/grade.rs\<close>, \<open>trial/events.rs\<close>): task policies, outcomes, retries and metrics.
    \<open>Trial_Finalize\<close> (\<open>trial/schedule.rs\<close>, \<open>trial/artifacts.rs\<close>, \<open>execute_local_trial\<close> in \<open>experiment/runner.rs\<close>): the end of a trial
    from what its runtime reports to the result that the committer gets; \<open>fw_done\<close> is the flag of \<open>TrialStateGuard\<close>, the row fields
    are the \<open>BufferedRunSink\<close>. \<open>Trial_Run\<close> holds the properties.

  \<^bold>\<open>What is shown.\<close> An engine that reports completion has committed every slot, save those it found active in
  the store, under every interleaving and every pattern of failures; it never has more trials under way than workers, and a
  shutdown releases the slots of trials in flight. The schedule holds every slot once and is index arithmetic; a claim in the store is exclusive, commits are
  atomic, final and refuse another trial; the broker never runs a slot twice at a time nor exceeds the
  limit of a variant, and waits only while something is running; the committer commits every completion
  once, in order, and keeps its journal over a restart; leases exclude each other while they are fresh;
  writing an attempt retries a bounded number of times; cleanup removes every container that is known;
  control operations mark what they say they mark; a recovery rebuilds progress from the journal and
  releases the slots of lost trials. Two verified packages with one package digest have the same contents, the payload arrives
  as it was verified and overwrites no file, and a verified package holds nothing that is not accounted for; a debug bundle
  does not depend on what stands under secret keys. Live ingestion stores every event of the final file. A trial is attempted
  a bounded number of times, is recorded as a success exactly when it was one, and settles: its rows are recorded together
  and its state written, or it is an error and marked as aborted. Where the code does something else than it means to, the theorem states
  what it does: a replayed chain row becomes its own parent, an expired lease can be taken twice, a heartbeat
  puts a superseded lease back, the slot of a paused trial stays active after a recovery, the slot of a trial whose
  execution failed stays active and is blocked for the next engine, a completion still in the channel is dropped when a stop
  is seen, a stop written between two looks is overwritten, live event rows stay beside the committed ones, a torn event line is
  never read again, an override of a task drops the evidence that the experiment requires, and the status of a
  slot and the classification of its failure can disagree.

  \<^bold>\<open>Conventions and bounds.\<close> Database, file and container calls fail where a parameter of the model says so; a
  theorem without a hypothesis on it holds for every pattern of failures. \<open>usize\<close> and \<open>u64\<close> values are
  naturals with the bound \<open>2 ^ 64 - 1\<close> written out where the code checks, saturates or wraps; values stored in
  SQLite are checked against the range of \<open>i64\<close>, except attempt numbers in the attempt tables. Strings are byte
  strings with ASCII white space. Loops are structural recursion, except the retry loop of
  \<open>retry_sqlite_busy\<close>, whose bound of 80 attempts is that of the source; nothing in the model runs on fuel. Third-party
  code (SHA-256, the printers of \<open>serde_json\<close>, \<open>Value::pointer\<close>, time stamps of \<open>chrono\<close>, schema validation, the
  Docker daemon) is a parameter with its documented laws as hypotheses. The execution backend is local Docker.

  \<^bold>\<open>Not modelled.\<close> The command line and the cloud commands (argument parsing, printing, HTTP), authoring, compiling, staging and
  sealing of packages and preflight (file trees, YAML, probes of the host), the text of schemas, the PostgreSQL dialect of the
  store, the inside of a trial up to what its runtime reports (preparation, containers, file transport, the grader process; to
  the engine a trial is any result, to the end of a trial any report), the contents of the state inventory and of the trial
  directory, failures to spawn a thread, progress output, the values of samples of durations, replay and fork, Modal, the
  floating-point statistics of the analysis crate and the attestation files.
\<close>

end
